(* ===== verification/Wire.thy ===== *)
theory Wire
  imports Prelude
begin

text \<open>
  Byte-level formats used by several components: big-endian integer fields, hexadecimal and
  decimal text, and the interface of a self-delimiting field format.
\<close>

section \<open>Big-endian integers\<close>

fun be_bytes :: "nat \<Rightarrow> nat \<Rightarrow> bytes" where
  "be_bytes 0 v = []"
| "be_bytes (Suc n) v = be_bytes n (v div 256) @ [of_nat v]"

definition be_val :: "bytes \<Rightarrow> nat" where
  "be_val bs = foldl (\<lambda>a b. a * 256 + unat b) 0 bs"

definition u64_be :: "u64 \<Rightarrow> bytes" where
  "u64_be v = be_bytes 8 (unat v)"

definition u64_of_be :: "bytes \<Rightarrow> u64" where
  "u64_of_be bs = of_nat (be_val bs)"

definition u32_be :: "u32 \<Rightarrow> bytes" where
  "u32_be v = be_bytes 4 (unat v)"

definition u32_of_be :: "bytes \<Rightarrow> u32" where
  "u32_of_be bs = of_nat (be_val bs)"

section \<open>Hexadecimal text\<close>

definition hex_char :: "nat \<Rightarrow> char" where
  "hex_char n = ''0123456789abcdef'' ! n"

definition hex_encode :: "bytes \<Rightarrow> string" where
  "hex_encode bs = concat (map (\<lambda>b. [hex_char (unat b div 16), hex_char (unat b mod 16)]) bs)"

definition is_lower_hex :: "char \<Rightarrow> bool" where
  "is_lower_hex c \<longleftrightarrow> c \<in> set ''0123456789abcdef''"

definition hex_value :: "char \<Rightarrow> nat option" where
  "hex_value c =
    (let n = of_char c in
     if 48 \<le> n \<and> n \<le> 57 then Some (n - 48)
     else if 97 \<le> n \<and> n \<le> 102 then Some (n - 87)
     else None)"

fun hex_decode :: "string \<Rightarrow> bytes option" where
  "hex_decode [] = Some []"
| "hex_decode [c] = None"
| "hex_decode (c # d # s) =
    (case (hex_value c, hex_value d, hex_decode s) of
       (Some h, Some l, Some bs) \<Rightarrow> Some (of_nat (h * 16 + l) # bs)
     | _ \<Rightarrow> None)"

section \<open>Decimal text\<close>

definition dec_char :: "nat \<Rightarrow> char" where
  "dec_char n = char_of (48 + n)"

fun dec_string :: "nat \<Rightarrow> string" where
  "dec_string n =
    (if n < 10 then [dec_char n] else dec_string (n div 10) @ [dec_char (n mod 10)])"

declare dec_string.simps [simp del]

definition dec_value :: "char \<Rightarrow> nat option" where
  "dec_value c = (let n = of_char c in if 48 \<le> n \<and> n \<le> 57 then Some (n - 48) else None)"

fun dec_digits :: "nat \<Rightarrow> string \<Rightarrow> nat option" where
  "dec_digits acc [] = Some acc"
| "dec_digits acc (c # s) =
    (case dec_value c of None \<Rightarrow> None | Some d \<Rightarrow> dec_digits (acc * 10 + d) s)"

text \<open>\<open>str::parse::<u64>\<close>: an optional plus sign, at least one digit, no overflow.\<close>

definition parse_u64 :: "string \<Rightarrow> u64 option" where
  "parse_u64 s =
    (let t = (case s of c # r \<Rightarrow> if c = CHR ''+'' then r else s | [] \<Rightarrow> s) in
     if t = [] then None
     else case dec_digits 0 t of
            None \<Rightarrow> None
          | Some n \<Rightarrow> if n < 2 ^ 64 then Some (of_nat n) else None)"

section \<open>UTF-8\<close>

text \<open>\<open>String::from_utf8\<close>: well-formed sequences, without surrogates or overlong forms.\<close>

definition in_range :: "nat \<Rightarrow> nat \<Rightarrow> u8 \<Rightarrow> bool" where
  "in_range lo hi b \<longleftrightarrow> lo \<le> unat b \<and> unat b \<le> hi"

abbreviation utf8_cont :: "u8 \<Rightarrow> bool" where
  "utf8_cont \<equiv> in_range 128 191"

fun utf8_valid :: "bytes \<Rightarrow> bool" where
  "utf8_valid [] = True"
| "utf8_valid (a # r) =
    (if in_range 0 127 a then utf8_valid r
     else case r of
       b # r2 \<Rightarrow>
         if in_range 194 223 a then utf8_cont b \<and> utf8_valid r2
         else (case r2 of
           c # r3 \<Rightarrow>
             if (a = 224 \<and> in_range 160 191 b) \<or> (in_range 225 236 a \<and> utf8_cont b) \<or>
                (a = 237 \<and> in_range 128 159 b) \<or> (in_range 238 239 a \<and> utf8_cont b)
             then utf8_cont c \<and> utf8_valid r3
             else (case r3 of
               d # r4 \<Rightarrow>
                 ((a = 240 \<and> in_range 144 191 b) \<or> (in_range 241 243 a \<and> utf8_cont b) \<or>
                  (a = 244 \<and> in_range 128 143 b)) \<and>
                 utf8_cont c \<and> utf8_cont d \<and> utf8_valid r4
             | [] \<Rightarrow> False)
         | [] \<Rightarrow> False)
     | [] \<Rightarrow> False)"

definition from_utf8 :: "bytes \<Rightarrow> string option" where
  "from_utf8 bs = (if utf8_valid bs then Some (bytes_str bs) else None)"

definition str_ok :: "string \<Rightarrow> bool" where
  "str_ok s \<longleftrightarrow> utf8_valid (str_bytes s)"

lemma from_utf8_str_bytes [simp]: "str_ok s \<Longrightarrow> from_utf8 (str_bytes s) = Some s"
  by (simp add: from_utf8_def str_ok_def)

lemma str_bytes_bytes_str [simp]: "str_bytes (bytes_str bs) = bs"
proof -
  have "(of_char (char_of (unat b) :: char) :: u8) = b" for b :: u8
  proof -
    have "unat b < 256" using unsigned_less[of b] by simp
    then show ?thesis
      using unat_of_char[of "char_of (unat b)"] by (simp add: word_unat_eq_iff del: unat_of_char)
  qed
  then show ?thesis by (simp add: str_bytes_def bytes_str_def comp_def)
qed

lemma from_utf8_SomeD: "from_utf8 bs = Some s \<Longrightarrow> str_ok s \<and> str_bytes s = bs"
  by (auto simp: from_utf8_def str_ok_def split: if_splits)

section \<open>Laws of the big-endian fields\<close>

lemma length_be_bytes [simp, wire_simps]: "length (be_bytes n v) = n"
  by (induction n arbitrary: v) auto

lemma be_val_Nil [simp]: "be_val [] = 0"
  by (simp add: be_val_def)

lemma be_val_snoc [simp]: "be_val (bs @ [b]) = be_val bs * 256 + unat b"
  by (simp add: be_val_def)

lemma unat_of_nat_u8 [simp]: "unat (of_nat v :: u8) = v mod 256"
  by (simp add: unat_of_nat)

lemma be_val_be_bytes [wire_simps]: "be_val (be_bytes n v) = v mod 256 ^ n"
proof (induction n arbitrary: v)
  case (Suc n)
  have "v mod (256 * 256 ^ n) = 256 * (v div 256 mod 256 ^ n) + v mod 256"
    by (rule mod_mult2_eq)
  then show ?case by (simp add: Suc mult.commute)
qed simp

lemma be_val_less: "be_val bs < 256 ^ length bs"
proof (induction bs rule: rev_induct)
  case (snoc b bs)
  have "unat b < 256" using unsigned_less[of b] by simp
  with snoc show ?case by simp
qed simp

lemma be_bytes_be_val [wire_simps]: "length bs = n \<Longrightarrow> be_bytes n (be_val bs) = bs"
proof (induction bs arbitrary: n rule: rev_induct)
  case (snoc b bs)
  have "unat b < 256" using unsigned_less[of b] by simp
  moreover have "(of_nat (be_val bs * 256 + unat b) :: u8) = b"
    unfolding word_unat_eq_iff unat_of_nat_u8 using \<open>unat b < 256\<close> by simp
  ultimately show ?case using snoc by (auto simp del: of_nat_add of_nat_mult)
qed simp

lemma length_u64_be [simp, wire_simps]: "length (u64_be v) = 8"
  by (simp add: u64_be_def)

lemma length_u32_be [simp, wire_simps]: "length (u32_be v) = 4"
  by (simp add: u32_be_def)

lemma u64_of_be_u64_be [simp, wire_simps]: "u64_of_be (u64_be v) = v"
proof -
  have "unat v < 256 ^ 8" using unsigned_less[of v] by simp
  then show ?thesis by (simp add: u64_of_be_def u64_be_def be_val_be_bytes)
qed

lemma u32_of_be_u32_be [simp, wire_simps]: "u32_of_be (u32_be v) = v"
proof -
  have "unat v < 256 ^ 4" using unsigned_less[of v] by simp
  then show ?thesis by (simp add: u32_of_be_def u32_be_def be_val_be_bytes)
qed

lemma u64_be_u64_of_be [wire_simps]: "length bs = 8 \<Longrightarrow> u64_be (u64_of_be bs) = bs"
  using be_val_less[of bs] by (simp add: u64_be_def u64_of_be_def unat_of_nat be_bytes_be_val)

lemma u64_be_inject [simp]: "u64_be v = u64_be w \<longleftrightarrow> v = w"
  by (metis u64_of_be_u64_be)

lemma u32_be_inject [simp]: "u32_be v = u32_be w \<longleftrightarrow> v = w"
  by (metis u32_of_be_u32_be)

section \<open>Laws of the hexadecimal text\<close>

lemma hex_digits_read_back: "list_all (\<lambda>n. hex_value (hex_char n) = Some n) [0..<16]"
  by code_simp

lemma hex_value_hex_char [simp]: "n < 16 \<Longrightarrow> hex_value (hex_char n) = Some n"
  using hex_digits_read_back by (auto simp: list_all_iff simp del: upt_rec_numeral)

lemma is_lower_hex_hex_char [simp]: "n < 16 \<Longrightarrow> is_lower_hex (hex_char n)"
  by (simp add: is_lower_hex_def hex_char_def del: list.set)

lemma length_hex_encode [simp, wire_simps]: "length (hex_encode bs) = 2 * length bs"
  by (induction bs) (auto simp: hex_encode_def)

lemma hex_encode_Nil [simp]: "hex_encode [] = []"
  by (simp add: hex_encode_def)

lemma hex_encode_Cons:
  "hex_encode (b # bs) = hex_char (unat b div 16) # hex_char (unat b mod 16) # hex_encode bs"
  by (simp add: hex_encode_def)

lemma unat_u8_less [simp]: "unat (b :: u8) < 256"
  using unsigned_less[of b] by simp

lemma unat_u8_div [simp]: "unat (b :: u8) div 16 < 16"
  using unat_u8_less[of b] by linarith

lemma hex_decode_encode [simp, wire_simps]: "hex_decode (hex_encode bs) = Some bs"
  by (induction bs) (auto simp: hex_encode_Cons)

lemma hex_encode_inject [simp]: "hex_encode a = hex_encode b \<longleftrightarrow> a = b"
  by (metis hex_decode_encode option.inject)

lemma hex_encode_lower: "list_all is_lower_hex (hex_encode bs)"
  by (induction bs) (auto simp: hex_encode_Cons)

section \<open>Laws of the decimal text\<close>

lemma of_char_dec_char [simp]: "n < 10 \<Longrightarrow> of_char (dec_char n) = 48 + n"
  by (simp add: dec_char_def)

lemma dec_value_dec_char [simp]: "n < 10 \<Longrightarrow> dec_value (dec_char n) = Some n"
  by (simp add: dec_value_def)

lemma dec_digits_append:
  "dec_digits acc (s @ t) = (case dec_digits acc s of None \<Rightarrow> None | Some m \<Rightarrow> dec_digits m t)"
  by (induction s arbitrary: acc) (auto split: option.splits)

lemma dec_digits_dec_string: "dec_digits 0 (dec_string n) = Some n"
proof (induction n rule: dec_string.induct)
  case (1 n)
  then show ?case
    by (subst dec_string.simps) (auto simp: dec_digits_append)
qed

lemma dec_string_chars: "list_all (\<lambda>c. 48 \<le> (of_char c :: nat) \<and> of_char c \<le> (57 :: nat)) (dec_string n)"
proof (induction n rule: dec_string.induct)
  case (1 n)
  then show ?case by (subst dec_string.simps) auto
qed

lemma dec_string_not_Nil [simp]: "dec_string n \<noteq> []"
  by (subst dec_string.simps) auto

lemma parse_u64_dec_string [wire_simps]: "parse_u64 (dec_string (unat v)) = Some v"
proof -
  obtain c r where cr: "dec_string (unat v) = c # r"
    by (metis dec_string_not_Nil neq_Nil_conv)
  have "c \<noteq> CHR ''+''"
    using dec_string_chars[of "unat v"] by (auto simp: cr)
  moreover have "unat v < 2 ^ 64" using unsigned_less[of v] by simp
  ultimately show ?thesis
    using dec_digits_dec_string[of "unat v"] by (simp add: parse_u64_def cr)
qed

section \<open>Splitting concatenations\<close>

lemma append_sep_inject:
  assumes "c \<notin> set x" "c \<notin> set y"
  shows "x @ c # a = y @ c # b \<longleftrightarrow> x = y \<and> a = b"
  using assms by (induction x arbitrary: y) (case_tac y; auto)+

lemma append_len_inject:
  "length x = length y \<Longrightarrow> x @ a = y @ b \<longleftrightarrow> x = y \<and> a = b"
  by simp

section \<open>A codec of byte fields\<close>

text \<open>
  Used to exhibit instances of properties about third-party codecs: every byte of a field is announced
  by a one, and a zero ends the field.
\<close>

definition fields_enc :: "bytes list \<Rightarrow> bytes" where
  "fields_enc fs = concat (map (\<lambda>b. concat (map (\<lambda>x. [1, x]) b) @ [0]) fs)"

fun fields_dec :: "bytes \<Rightarrow> bytes \<Rightarrow> bytes list" where
  "fields_dec acc [] = []"
| "fields_dec acc (t # r) =
    (if t = 0 then acc # fields_dec [] r else (case r of [] \<Rightarrow> [] | x # r \<Rightarrow> fields_dec (acc @ [x]) r))"

lemma fields_dec_field: "fields_dec acc (concat (map (\<lambda>x. [1, x]) b) @ 0 # r) = (acc @ b) # fields_dec [] r"
  by (induction b arbitrary: acc) simp_all

lemma fields_dec_enc [simp]: "fields_dec [] (fields_enc fs) = fs"
  by (induction fs) (simp_all add: fields_enc_def fields_dec_field)

end
