(* ===== verification/Crypto.thy ===== *)
theory Crypto
  imports Wire
begin

text \<open>
  \<open>crates/enlace/src/crypto.rs\<close>. The primitives come from third-party crates (HKDF, SHA-256,
  XChaCha20-Poly1305, Ed25519, X25519): they are the fields of the record \<open>suite\<close>, which every
  operation takes as an argument. What the code relies on is stated by \<open>hkdf_ok\<close>, \<open>aead_ok\<close>,
  \<open>aead_auth\<close>, \<open>ed_ok\<close> and \<open>dh_ok\<close>; \<open>plain_suite\<close> is a concrete suite that satisfies them.
\<close>

section \<open>Primitives\<close>

record suite =
  hkdf_expand :: "bytes option \<Rightarrow> bytes \<Rightarrow> bytes \<Rightarrow> nat \<Rightarrow> bytes"
  sha256 :: "bytes \<Rightarrow> bytes"
  aead_encrypt :: "bytes \<Rightarrow> bytes \<Rightarrow> bytes \<Rightarrow> bytes \<Rightarrow> bytes option"
  aead_decrypt :: "bytes \<Rightarrow> bytes \<Rightarrow> bytes \<Rightarrow> bytes \<Rightarrow> bytes option"
  ed_public :: "bytes \<Rightarrow> bytes"
  ed_valid :: "bytes \<Rightarrow> bool"
  ed_sign :: "bytes \<Rightarrow> bytes \<Rightarrow> bytes"
  ed_verify :: "bytes \<Rightarrow> bytes \<Rightarrow> bytes \<Rightarrow> bool"
  x_public :: "bytes \<Rightarrow> bytes"
  x_dh :: "bytes \<Rightarrow> bytes \<Rightarrow> bytes"

definition NONCE_LEN :: nat where "NONCE_LEN = 24"
definition TAG_LEN :: nat where "TAG_LEN = 16"
definition AEAD_KEY_LEN :: nat where "AEAD_KEY_LEN = 32"
definition SIG_LEN :: nat where "SIG_LEN = 64"

lemmas crypto_consts = NONCE_LEN_def TAG_LEN_def AEAD_KEY_LEN_def SIG_LEN_def

datatype crypto_error = TooShort | AeadFailed

fun crypto_error_display :: "crypto_error \<Rightarrow> string" where
  "crypto_error_display TooShort = ''sealed payload too short''"
| "crypto_error_display AeadFailed = ''AEAD authentication failed''"

section \<open>Operations\<close>

definition hkdf_sha256 :: "'z suite_scheme \<Rightarrow> bytes \<Rightarrow> bytes \<Rightarrow> bytes \<Rightarrow> nat \<Rightarrow> ('e, bytes) res" where
  "hkdf_sha256 S ikm salt info out_len =
    (let s = (if salt = [] then None else Some salt) in
     if out_len > 255 * 32 then Panic else Ok (hkdf_expand S s ikm info out_len))"

definition derive_key32 :: "'z suite_scheme \<Rightarrow> bytes \<Rightarrow> bytes \<Rightarrow> ('e, bytes) res" where
  "derive_key32 S ikm info = hkdf_sha256 S ikm [] info AEAD_KEY_LEN"

text \<open>The nonce, drawn from the operating system's generator, is an argument.\<close>

definition seal_aead :: "'z suite_scheme \<Rightarrow> bytes \<Rightarrow> bytes \<Rightarrow> bytes \<Rightarrow> bytes \<Rightarrow> ('e, bytes) res" where
  "seal_aead S nonce key aad plaintext =
    bind_res (expect (aead_encrypt S key nonce aad plaintext)) (\<lambda>ciphertext. Ok (nonce @ ciphertext))"

definition unseal_aead :: "'z suite_scheme \<Rightarrow> bytes \<Rightarrow> bytes \<Rightarrow> bytes \<Rightarrow> (crypto_error, bytes) res" where
  "unseal_aead S key aad sealed =
    (if length sealed < NONCE_LEN + TAG_LEN then Err TooShort
     else ok_or AeadFailed
            (aead_decrypt S key (take NONCE_LEN sealed) aad (drop NONCE_LEN sealed)))"

definition sign :: "'z suite_scheme \<Rightarrow> bytes \<Rightarrow> bytes \<Rightarrow> bytes" where
  "sign S sk message = ed_sign S sk message"

definition verify :: "'z suite_scheme \<Rightarrow> bytes \<Rightarrow> bytes \<Rightarrow> bytes \<Rightarrow> bool" where
  "verify S vk message signature = ed_verify S vk message signature"

section \<open>Documented behaviour of the primitives\<close>

text \<open>The largest plaintext XChaCha20-Poly1305 accepts, from the 32-bit ChaCha20 block counter.\<close>

definition aead_max :: nat where "aead_max = (2 ^ 32 - 1) * 64"

definition hkdf_ok :: "'z suite_scheme \<Rightarrow> bool" where
  "hkdf_ok S \<longleftrightarrow> (\<forall>salt ikm info n. n \<le> 255 * 32 \<longrightarrow> length (hkdf_expand S salt ikm info n) = n)"

definition aead_ok :: "'z suite_scheme \<Rightarrow> bool" where
  "aead_ok S \<longleftrightarrow>
    (\<forall>k n a m. length k = 32 \<longrightarrow> length n = 24 \<longrightarrow> length m \<le> aead_max \<longrightarrow>
      (\<exists>c. aead_encrypt S k n a m = Some c \<and> length c = length m + 16 \<and>
           aead_decrypt S k n a c = Some m))"

definition aead_auth :: "'z suite_scheme \<Rightarrow> bool" where
  "aead_auth S \<longleftrightarrow>
    (\<forall>k n a c m. aead_decrypt S k n a c = Some m \<longrightarrow> aead_encrypt S k n a m = Some c)"

definition ed_ok :: "'z suite_scheme \<Rightarrow> bool" where
  "ed_ok S \<longleftrightarrow>
    (\<forall>sk m. length sk = 32 \<longrightarrow>
      length (ed_public S sk) = 32 \<and> ed_valid S (ed_public S sk) \<and>
      length (ed_sign S sk m) = 64 \<and> ed_verify S (ed_public S sk) m (ed_sign S sk m))"

definition dh_ok :: "'z suite_scheme \<Rightarrow> bool" where
  "dh_ok S \<longleftrightarrow> (\<forall>a b. x_dh S a (x_public S b) = x_dh S b (x_public S a))"

definition plain_suite :: suite where
  "plain_suite =
    \<lparr> hkdf_expand = (\<lambda>salt ikm info n. take n (info @ replicate n 0)),
      sha256 = (\<lambda>b. take 32 (b @ replicate 32 0)),
      aead_encrypt = (\<lambda>k n a m. Some (m @ replicate 16 0)),
      aead_decrypt = (\<lambda>k n a c.
        if 16 \<le> length c \<and> drop (length c - 16) c = replicate 16 0
        then Some (take (length c - 16) c) else None),
      ed_public = (\<lambda>sk. sk),
      ed_valid = (\<lambda>vk. length vk = 32),
      ed_sign = (\<lambda>sk m. take 64 (sk @ m @ replicate 64 0)),
      ed_verify = (\<lambda>vk m s. s = take 64 (vk @ m @ replicate 64 0)),
      x_public = (\<lambda>a. a),
      x_dh = (\<lambda>a b. map2 (+) a b) \<rparr>"

section \<open>Facts\<close>

lemma derive_key32_eq [simp]: "derive_key32 S ikm info = Ok (hkdf_expand S None ikm info 32)"
  by (simp add: derive_key32_def hkdf_sha256_def crypto_consts)

lemma hkdf_sha256_panics: "hkdf_sha256 S ikm salt info n = Panic \<longleftrightarrow> 255 * 32 < n"
  by (simp add: hkdf_sha256_def Let_def)

lemma hkdf_length [simp]: "hkdf_ok S \<Longrightarrow> n \<le> 8160 \<Longrightarrow> length (hkdf_expand S salt ikm info n) = n"
  by (simp add: hkdf_ok_def)

lemma seal_aead_ok:
  assumes "aead_ok S" "length key = 32" "length nonce = 24" "length pt \<le> aead_max"
  obtains c where "aead_encrypt S key nonce aad pt = Some c" "length c = length pt + 16"
    "seal_aead S nonce key aad pt = Ok (nonce @ c)"
    "unseal_aead S key aad (nonce @ c) = Ok pt"
proof -
  from assms obtain c where "aead_encrypt S key nonce aad pt = Some c"
    and "length c = length pt + 16" and "aead_decrypt S key nonce aad c = Some pt"
    unfolding aead_ok_def by blast
  then show thesis
    using assms by (intro that[of c]) (auto simp: seal_aead_def unseal_aead_def crypto_consts)
qed

lemma unseal_aead_short: "length sealed < 40 \<Longrightarrow> unseal_aead S key aad sealed = Err TooShort"
  by (simp add: unseal_aead_def crypto_consts)

lemma unseal_aead_OkD:
  assumes "aead_auth S" "unseal_aead S key aad sealed = Ok pt"
  shows "seal_aead S (take 24 sealed) key aad pt = Ok sealed"
  using assms
  by (auto simp: unseal_aead_def seal_aead_def aead_auth_def crypto_consts res_simps split: if_splits)

lemma unseal_aead_not_Panic [simp]: "unseal_aead S key aad sealed \<noteq> Panic"
  by (simp add: unseal_aead_def)

lemma plain_suite_hkdf [simp]: "hkdf_ok plain_suite"
  by (auto simp: hkdf_ok_def plain_suite_def min_def)

lemma plain_suite_aead [simp]: "aead_ok plain_suite"
  by (simp add: aead_ok_def plain_suite_def)

lemma plain_suite_auth [simp]: "aead_auth plain_suite"
  by (simp add: aead_auth_def plain_suite_def) (metis append_take_drop_id)

lemma plain_suite_ed [simp]: "ed_ok plain_suite"
  by (auto simp: ed_ok_def plain_suite_def min_def)

lemma map2_add_commute: "map2 (+) a b = map2 (+) b (a :: bytes)"
  by (induction a b rule: list_induct2') (auto simp: add.commute)

lemma plain_suite_dh [simp]: "dh_ok plain_suite"
  unfolding dh_ok_def plain_suite_def using map2_add_commute by simp

end
