(* ===== verification/Kdf.thy ===== *)
theory Kdf
  imports Crypto
begin

text \<open>
  \<open>crates/enlace/src/kdf.rs\<close>: channel kinds and transport labels, the name rules, and the
  derivation of the channel key, the channel id of each transport and the gossip topic id.
  The lemmas show that the HKDF contexts of all derivations are pairwise different.
\<close>

section \<open>Data\<close>

definition CHANNEL_ID_LEN :: nat where "CHANNEL_ID_LEN = 16"
definition IROH_TOPIC_ID_LEN :: nat where "IROH_TOPIC_ID_LEN = 32"
definition MAX_NAME_LEN :: nat where "MAX_NAME_LEN = 64"

lemmas kdf_consts = CHANNEL_ID_LEN_def IROH_TOPIC_ID_LEN_def MAX_NAME_LEN_def

datatype channel_kind = Mailbox | Slot

fun channel_kind_str :: "channel_kind \<Rightarrow> string" where
  "channel_kind_str Mailbox = ''mailbox''"
| "channel_kind_str Slot = ''slot''"

datatype transport_kind = Http | Pkarr | Dht | Iroh

fun transport_kind_str :: "transport_kind \<Rightarrow> string" where
  "transport_kind_str Http = ''http''"
| "transport_kind_str Pkarr = ''pkarr''"
| "transport_kind_str Dht = ''dht''"
| "transport_kind_str Iroh = ''iroh''"

datatype name_error = Empty | TooLong | InvalidChar

fun name_error_display :: "name_error \<Rightarrow> string" where
  "name_error_display Empty = ''channel name is empty''"
| "name_error_display TooLong = ''channel name exceeds 64 bytes''"
| "name_error_display InvalidChar = ''channel name contains a byte outside [0-9 a-z - _ / .]''"

section \<open>Operations\<close>

definition name_byte_ok :: "char \<Rightarrow> bool" where
  "name_byte_ok c \<longleftrightarrow>
    (let b = (of_char c :: nat) in
     (48 \<le> b \<and> b \<le> 57) \<or> (97 \<le> b \<and> b \<le> 122) \<or>
     c = CHR ''-'' \<or> c = CHR ''_'' \<or> c = CHR ''/'' \<or> c = CHR ''.'')"

fun check_name_bytes :: "string \<Rightarrow> (name_error, unit) res" where
  "check_name_bytes [] = Ok ()"
| "check_name_bytes (b # bs) = (if \<not> name_byte_ok b then Err InvalidChar else check_name_bytes bs)"

definition validate_name :: "string \<Rightarrow> (name_error, unit) res" where
  "validate_name name =
    (if name = [] then Err Empty
     else if length name > MAX_NAME_LEN then Err TooLong
     else check_name_bytes name)"

definition aead_key_info :: "channel_kind \<Rightarrow> string \<Rightarrow> bytes" where
  "aead_key_info kind name =
    str_bytes (''enlace/v1/key/aead/'' @ channel_kind_str kind @ ''/'' @ name)"

definition channel_aead_key ::
  "'z suite_scheme \<Rightarrow> bytes \<Rightarrow> channel_kind \<Rightarrow> string \<Rightarrow> (name_error, bytes) res" where
  "channel_aead_key S seed kind name =
    bind_res (validate_name name) (\<lambda>_. derive_key32 S seed (aead_key_info kind name))"

definition channel_id_info :: "transport_kind \<Rightarrow> channel_kind \<Rightarrow> string \<Rightarrow> bytes" where
  "channel_id_info transport kind name =
    str_bytes (''enlace/v1/id/'' @ transport_kind_str transport @ ''/'' @ channel_kind_str kind
      @ ''/'' @ name)"

definition channel_id ::
  "'z suite_scheme \<Rightarrow> bytes \<Rightarrow> transport_kind \<Rightarrow> channel_kind \<Rightarrow> string \<Rightarrow> (name_error, bytes) res" where
  "channel_id S seed transport kind name =
    bind_res (validate_name name)
      (\<lambda>_. hkdf_sha256 S seed [] (channel_id_info transport kind name) CHANNEL_ID_LEN)"

definition iroh_topic_info :: "channel_kind \<Rightarrow> string \<Rightarrow> bytes" where
  "iroh_topic_info kind name =
    str_bytes (''enlace/v1/id/iroh-topic/'' @ channel_kind_str kind @ ''/'' @ name)"

definition iroh_topic_id ::
  "'z suite_scheme \<Rightarrow> bytes \<Rightarrow> channel_kind \<Rightarrow> string \<Rightarrow> (name_error, bytes) res" where
  "iroh_topic_id S seed kind name =
    bind_res (validate_name name)
      (\<lambda>_. hkdf_sha256 S seed [] (iroh_topic_info kind name) IROH_TOPIC_ID_LEN)"

text \<open>The derivations of the module as one type, with the HKDF context each one uses.\<close>

datatype derivation =
    AeadKey channel_kind string
  | ChannelId transport_kind channel_kind string
  | TopicId channel_kind string

fun derivation_info :: "derivation \<Rightarrow> bytes" where
  "derivation_info (AeadKey kind name) = aead_key_info kind name"
| "derivation_info (ChannelId transport kind name) = channel_id_info transport kind name"
| "derivation_info (TopicId kind name) = iroh_topic_info kind name"

section \<open>The name rules\<close>

lemma check_name_bytes_cases:
  "check_name_bytes bs = (if list_all name_byte_ok bs then Ok () else Err InvalidChar)"
  by (induction bs) auto

definition name_chars :: string where
  "name_chars = ''0123456789abcdefghijklmnopqrstuvwxyz-_/.''"

lemma name_byte_ok_chars: "name_byte_ok c \<longleftrightarrow> c \<in> set name_chars"
proof -
  have "\<forall>c. name_byte_ok c \<longleftrightarrow> c \<in> set name_chars" by code_simp
  then show ?thesis by blast
qed

definition valid_name :: "string \<Rightarrow> bool" where
  "valid_name name \<longleftrightarrow> name \<noteq> [] \<and> length name \<le> 64 \<and> list_all name_byte_ok name"

lemma validate_name_Ok_iff [res_simps]: "validate_name name = Ok u \<longleftrightarrow> valid_name name"
  by (auto simp: validate_name_def valid_name_def kdf_consts check_name_bytes_cases)

lemma validate_name_valid [simp]: "valid_name name \<Longrightarrow> validate_name name = Ok ()"
  by (simp add: validate_name_Ok_iff)

lemma validate_name_not_Panic [simp]: "validate_name name \<noteq> Panic"
  by (auto simp: validate_name_def check_name_bytes_cases)

lemma valid_name_no_nul: "valid_name name \<Longrightarrow> CHR 0x00 \<notin> set name"
  by (auto simp: valid_name_def list_all_iff name_byte_ok_def Let_def dest!: bspec)

section \<open>Derivations on valid names\<close>

lemma channel_aead_key_eq [simp]:
  "valid_name name \<Longrightarrow>
    channel_aead_key S seed kind name = Ok (hkdf_expand S None seed (aead_key_info kind name) 32)"
  by (simp add: channel_aead_key_def)

lemma channel_id_eq [simp]:
  "valid_name name \<Longrightarrow>
    channel_id S seed t kind name = Ok (hkdf_expand S None seed (channel_id_info t kind name) 16)"
  by (simp add: channel_id_def hkdf_sha256_def kdf_consts)

lemma iroh_topic_id_eq [simp]:
  "valid_name name \<Longrightarrow>
    iroh_topic_id S seed kind name = Ok (hkdf_expand S None seed (iroh_topic_info kind name) 32)"
  by (simp add: iroh_topic_id_def hkdf_sha256_def kdf_consts)

section \<open>Domain separation\<close>

lemma channel_kind_str_inject:
  "channel_kind_str k @ CHR ''/'' # a = channel_kind_str l @ CHR ''/'' # b \<longleftrightarrow> k = l \<and> a = b"
  by (cases k; cases l) auto

lemma transport_kind_str_inject:
  "transport_kind_str t @ CHR ''/'' # a = transport_kind_str u @ CHR ''/'' # b \<longleftrightarrow> t = u \<and> a = b"
  by (cases t; cases u) auto

lemma transport_kind_str_not_topic:
  "transport_kind_str t @ CHR ''/'' # a \<noteq> ''iroh-topic/'' @ b"
  by (cases t) auto

lemma derivation_info_inject [simp]: "derivation_info d = derivation_info e \<longleftrightarrow> d = e"
proof -
  have topic: "channel_id_info t k n \<noteq> iroh_topic_info l m" for t k n l m
    unfolding channel_id_info_def iroh_topic_info_def str_bytes_inject
    using transport_kind_str_not_topic[of t] by simp
  have key: "aead_key_info k n = aead_key_info l m \<longleftrightarrow> k = l \<and> n = m" for k n l m
    unfolding aead_key_info_def str_bytes_inject by (simp add: channel_kind_str_inject)
  have cid: "channel_id_info t k n = channel_id_info u l m \<longleftrightarrow> t = u \<and> k = l \<and> n = m" for t k n u l m
    unfolding channel_id_info_def str_bytes_inject
    by (simp add: transport_kind_str_inject channel_kind_str_inject)
  have tid: "iroh_topic_info k n = iroh_topic_info l m \<longleftrightarrow> k = l \<and> n = m" for k n l m
    unfolding iroh_topic_info_def str_bytes_inject by (simp add: channel_kind_str_inject)
  have "aead_key_info k n \<noteq> channel_id_info u l m" for k n u l m
    unfolding aead_key_info_def channel_id_info_def str_bytes_inject by simp
  moreover have "aead_key_info k n \<noteq> iroh_topic_info l m" for k n l m
    unfolding aead_key_info_def iroh_topic_info_def str_bytes_inject by simp
  ultimately show ?thesis
    by (cases d; cases e) (simp_all add: topic key cid tid topic[symmetric] not_sym)
qed

section \<open>Properties\<close>

text \<open>
  All HKDF contexts are different: the channel key, the channel id of each transport and the
  gossip topic id of any two channels, of any kind and under any names, are derived from contexts
  that coincide only when the derivation, the transport, the kind and the name coincide. Names may
  contain the separator, so this is not a matter of the separator alone.
\<close>

theorem hkdf_contexts_are_distinct: "inj derivation_info"
  by (rule injI) (simp only: derivation_info_inject)

text \<open>
  Name validation decides exactly the documented rule: it succeeds on names of 1 to 64 bytes
  over the allowed characters, each error is returned exactly on the names it describes, emptiness
  and length being checked before the characters, and it never panics.
\<close>

theorem validate_name_is_exact:
  "validate_name name =
    (if name = [] then Err Empty
     else if 64 < length name then Err TooLong
     else if set name \<subseteq> set name_chars then Ok ()
     else Err InvalidChar)"
  by (auto simp: validate_name_def kdf_consts check_name_bytes_cases name_byte_ok_chars list_all_iff)

end
