(* ===== verification/Errors.thy ===== *)
theory Errors
  imports Kdf
begin

text \<open>
  \<open>crates/enlace/src/error.rs\<close> and the \<open>StateError\<close> of \<open>state.rs\<close>: the error enums of the public
  interface, their conversions and their \<open>Display\<close> text. A boxed \<open>dyn Error\<close> is its text.
\<close>

section \<open>Error enums\<close>

datatype state_error = StateBackend string | StateCorrupted string | StateUnsupported string

fun state_error_display :: "state_error \<Rightarrow> string" where
  "state_error_display (StateBackend e) = ''state backend error: '' @ e"
| "state_error_display (StateCorrupted msg) = ''state corrupted: '' @ msg"
| "state_error_display (StateUnsupported msg) = ''state operation unsupported: '' @ msg"

datatype seal_error =
  SealTooShort | SealAeadFailed | MsgpackFailed | SignatureMissing | SignatureInvalid | UntrustedSigner

fun seal_error_display :: "seal_error \<Rightarrow> string" where
  "seal_error_display SealTooShort = ''sealed payload too short''"
| "seal_error_display SealAeadFailed = ''AEAD authentication failed''"
| "seal_error_display MsgpackFailed = ''malformed msgpack envelope''"
| "seal_error_display SignatureMissing = ''signature required but absent''"
| "seal_error_display SignatureInvalid = ''signature verification failed''"
| "seal_error_display UntrustedSigner = ''signer is not in the trusted set''"

fun seal_error_of_crypto :: "crypto_error \<Rightarrow> seal_error" where
  "seal_error_of_crypto TooShort = SealTooShort"
| "seal_error_of_crypto AeadFailed = SealAeadFailed"

datatype transport_error =
  Network string | Auth | Stale | BodyTooLarge | Timeout | Unsupported | Other string

fun transport_error_display :: "transport_error \<Rightarrow> string" where
  "transport_error_display (Network msg) = ''network error: '' @ msg"
| "transport_error_display Auth = ''authentication failed''"
| "transport_error_display Stale = ''slot put rejected: version is not newer''"
| "transport_error_display BodyTooLarge = ''body exceeded configured size cap''"
| "transport_error_display Timeout = ''request timed out''"
| "transport_error_display Unsupported = ''operation is not supported by this transport''"
| "transport_error_display (Other e) = e"

datatype open_error =
  NoTransport | InvalidSeed | TransportInit transport_kind string | OpenState state_error

fun open_error_display :: "open_error \<Rightarrow> string" where
  "open_error_display NoTransport = ''no transport configured''"
| "open_error_display InvalidSeed = ''seed failed validation''"
| "open_error_display (TransportInit kind e) =
    transport_kind_str kind @ '' transport failed to initialize: '' @ e"
| "open_error_display (OpenState e) = ''state store error: '' @ state_error_display e"

datatype recv_error = Closed

fun recv_error_display :: "recv_error \<Rightarrow> string" where
  "recv_error_display Closed = ''namespace closed''"

datatype send_error =
  SendAllFailed "(transport_kind \<times> transport_error) list" | SendSealing seal_error

datatype slot_error =
    SlotAllFailed "(transport_kind \<times> transport_error) list"
  | SlotSealing seal_error
  | SlotState state_error

section \<open>Failure lists\<close>

fun format_failures :: "string \<Rightarrow> (transport_kind \<times> transport_error) list \<Rightarrow> string" where
  "format_failures sep [] = ''''"
| "format_failures sep ((kind, err) # failures) =
    sep @ transport_kind_str kind @ '': '' @ transport_error_display err
      @ format_failures '', '' failures"

definition format_all_failed :: "(transport_kind \<times> transport_error) list \<Rightarrow> string" where
  "format_all_failed failures =
    ''all '' @ dec_string (length failures) @ '' transport(s) failed''
      @ format_failures '': '' failures"

fun send_error_display :: "send_error \<Rightarrow> string" where
  "send_error_display (SendAllFailed failures) = format_all_failed failures"
| "send_error_display (SendSealing e) = ''sealing failed: '' @ seal_error_display e"

fun slot_error_display :: "slot_error \<Rightarrow> string" where
  "slot_error_display (SlotAllFailed failures) = format_all_failed failures"
| "slot_error_display (SlotSealing e) = ''sealing failed: '' @ seal_error_display e"
| "slot_error_display (SlotState e) = ''state store error: '' @ state_error_display e"

end
