(* ===== verification/Dedup.thy ===== *)
theory Dedup
  imports Crypto
begin

text \<open>
  \<open>crates/enlace/src/dedup.rs\<close>: the buffer of recently seen sealed payloads. The LRU cache is
  a third-party crate; it is the record \<open>lru\<close> of its operations, and \<open>lru_ok\<close> states what its
  documentation promises, through the list of retained keys, most recently used first.
  The buffer is shown to be the window of the last distinct digests.
\<close>

section \<open>The cache\<close>

record 'c lru =
  lru_new :: "nat \<Rightarrow> 'c"
  lru_put :: "'c \<Rightarrow> bytes \<Rightarrow> 'c \<times> unit option"
  lru_len :: "'c \<Rightarrow> nat"
  lru_is_empty :: "'c \<Rightarrow> bool"
  lru_cap :: "'c \<Rightarrow> nat"
  lru_clear :: "'c \<Rightarrow> 'c"

definition lru_ok :: "'c lru \<Rightarrow> ('c \<Rightarrow> bytes list) \<Rightarrow> bool" where
  "lru_ok L keys \<longleftrightarrow>
    (\<forall>n. keys (lru_new L n) = [] \<and> lru_cap L (lru_new L n) = n) \<and>
    (\<forall>c. lru_len L c = length (keys c) \<and> lru_is_empty L c = (keys c = [])) \<and>
    (\<forall>c. keys (lru_clear L c) = [] \<and> lru_cap L (lru_clear L c) = lru_cap L c) \<and>
    (\<forall>c k. lru_cap L (fst (lru_put L c k)) = lru_cap L c \<and>
       (snd (lru_put L c k) \<noteq> None \<longleftrightarrow> k \<in> set (keys c)) \<and>
       keys (fst (lru_put L c k)) =
         (if k \<in> set (keys c) then k # remove1 k (keys c) else take (lru_cap L c) (k # keys c)))"

section \<open>The buffer\<close>

definition DEFAULT_CAPACITY :: nat where "DEFAULT_CAPACITY = 1024"

record 'c dedup =
  cache :: "'c option"

definition dedup_new :: "'c lru \<Rightarrow> nat \<Rightarrow> 'c dedup" where
  "dedup_new L capacity = \<lparr> cache = (if capacity = 0 then None else Some (lru_new L capacity)) \<rparr>"

definition digest :: "'z suite_scheme \<Rightarrow> bytes \<Rightarrow> bytes" where
  "digest S sealed = sha256 S sealed"

definition observe :: "'z suite_scheme \<Rightarrow> 'c lru \<Rightarrow> 'c dedup \<Rightarrow> bytes \<Rightarrow> 'c dedup \<times> bool" where
  "observe S L d sealed =
    (case cache d of
       None \<Rightarrow> (d, False)
     | Some c \<Rightarrow>
         (let (c', old) = lru_put L c (digest S sealed) in (d\<lparr>cache := Some c'\<rparr>, old \<noteq> None)))"

definition dedup_len :: "'c lru \<Rightarrow> 'c dedup \<Rightarrow> nat" where
  "dedup_len L d = (case cache d of None \<Rightarrow> 0 | Some c \<Rightarrow> lru_len L c)"

definition dedup_is_empty :: "'c lru \<Rightarrow> 'c dedup \<Rightarrow> bool" where
  "dedup_is_empty L d = (case cache d of None \<Rightarrow> True | Some c \<Rightarrow> lru_is_empty L c)"

definition dedup_capacity :: "'c lru \<Rightarrow> 'c dedup \<Rightarrow> nat" where
  "dedup_capacity L d = (case cache d of None \<Rightarrow> 0 | Some c \<Rightarrow> lru_cap L c)"

definition dedup_clear :: "'c lru \<Rightarrow> 'c dedup \<Rightarrow> 'c dedup" where
  "dedup_clear L d = (case cache d of None \<Rightarrow> d | Some c \<Rightarrow> d\<lparr>cache := Some (lru_clear L c)\<rparr>)"

definition dedup_default :: "'c lru \<Rightarrow> 'c dedup" where
  "dedup_default L = dedup_new L DEFAULT_CAPACITY"

text \<open>A run of observations, in order, with the answers.\<close>

fun observe_all :: "'z suite_scheme \<Rightarrow> 'c lru \<Rightarrow> 'c dedup \<Rightarrow> bytes list \<Rightarrow> 'c dedup \<times> bool list" where
  "observe_all S L d [] = (d, [])"
| "observe_all S L d (x # xs) =
    (let (d1, b) = observe S L d x; (d2, bs) = observe_all S L d1 xs in (d2, b # bs))"

text \<open>A concrete cache: its capacity and its keys.\<close>

definition list_lru :: "(nat \<times> bytes list) lru" where
  "list_lru =
    \<lparr> lru_new = (\<lambda>n. (n, [])),
      lru_put = (\<lambda>(n, ks) k.
        if k \<in> set ks then ((n, k # remove1 k ks), Some ()) else ((n, take n (k # ks)), None)),
      lru_len = (\<lambda>(n, ks). length ks),
      lru_is_empty = (\<lambda>(n, ks). ks = []),
      lru_cap = fst,
      lru_clear = (\<lambda>(n, ks). (n, [])) \<rparr>"

lemma list_lru_ok [simp]: "lru_ok list_lru snd"
  by (auto simp: lru_ok_def list_lru_def)

section \<open>The window of recent digests\<close>

text \<open>The distinct elements of a history, most recent first.\<close>

definition recent :: "'a list \<Rightarrow> 'a list" where
  "recent h = rev (remdups h)"

lemma recent_Nil [simp]: "recent [] = []"
  by (simp add: recent_def)

lemma remdups_snoc: "remdups (h @ [k]) = filter (\<lambda>x. k \<noteq> x) (remdups h) @ [k]"
  by (induction h) auto

lemma distinct_recent [simp]: "distinct (recent h)"
  by (simp add: recent_def)

lemma set_recent [simp]: "set (recent h) = set h"
  by (simp add: recent_def)

lemma recent_snoc: "recent (h @ [k]) = k # remove1 k (recent h)"
proof -
  have "recent (h @ [k]) = k # filter (\<lambda>x. k \<noteq> x) (recent h)"
    by (simp add: recent_def remdups_snoc rev_filter)
  then show ?thesis
    by (simp only: removeAll_filter_not_eq[symmetric] distinct_remove1_removeAll[OF distinct_recent])
qed

lemma take_cons_window:
  assumes "distinct M" "n > 0"
  shows "take n (k # remove1 k M) =
    (if k \<in> set (take n M) then k # remove1 k (take n M) else take n (k # take n M))"
proof -
  obtain m where n: "n = Suc m" using assms(2) gr0_conv_Suc by blast
  have in_case: "take m (remove1 k M) = remove1 k (take (Suc m) M)" if "k \<in> set (take (Suc m) M)"
    using that assms(1)
    by (induction M arbitrary: m) (auto simp: take_Cons' split: if_splits)
  have out_case: "take m (remove1 k M) = take m M" if "k \<notin> set (take (Suc m) M)"
    using that by (induction M arbitrary: m) (auto simp: take_Cons' split: if_splits)
  show ?thesis using in_case out_case by (auto simp: n)
qed

definition window :: "nat \<Rightarrow> 'a list \<Rightarrow> 'a list" where
  "window n h = take n (recent h)"

lemma window_snoc:
  assumes "n > 0"
  shows "window n (h @ [k]) =
    (if k \<in> set (window n h) then k # remove1 k (window n h) else take n (k # window n h))"
  unfolding window_def recent_snoc
  by (rule take_cons_window[OF distinct_recent assms])

section \<open>The buffer is the window\<close>

text \<open>The buffer after the digests \<open>h\<close> have been observed from a fresh one of capacity \<open>n\<close>.\<close>

definition tracks :: "'c lru \<Rightarrow> ('c \<Rightarrow> bytes list) \<Rightarrow> nat \<Rightarrow> bytes list \<Rightarrow> 'c dedup \<Rightarrow> bool" where
  "tracks L keys n h d \<longleftrightarrow>
    (if n = 0 then cache d = None
     else \<exists>c. cache d = Some c \<and> lru_cap L c = n \<and> keys c = window n h)"

lemma tracks_new: "lru_ok L keys \<Longrightarrow> tracks L keys n [] (dedup_new L n)"
  by (auto simp: tracks_def dedup_new_def lru_ok_def window_def)

lemma observe_tracks:
  assumes "lru_ok L keys" "tracks L keys n h d" "observe S L d x = (d', b)"
  shows "tracks L keys n (h @ [digest S x]) d'" "b \<longleftrightarrow> digest S x \<in> set (window n h)"
proof -
  consider "n = 0" "cache d = None"
    | c where "n > 0" "cache d = Some c" "lru_cap L c = n" "keys c = window n h"
    using assms(2) by (auto simp: tracks_def split: if_splits)
  then have "tracks L keys n (h @ [digest S x]) d' \<and> (b \<longleftrightarrow> digest S x \<in> set (window n h))"
  proof cases
    case 1
    then show ?thesis using assms(3) by (auto simp: observe_def tracks_def window_def)
  next
    case 2
    obtain c' old where put: "lru_put L c (digest S x) = (c', old)" by fastforce
    have "lru_cap L c' = n" "old \<noteq> None \<longleftrightarrow> digest S x \<in> set (window n h)"
      "keys c' = window n (h @ [digest S x])"
      using assms(1) 2 put unfolding lru_ok_def window_snoc[OF 2(1)]
      by (metis fst_conv snd_conv)+
    then show ?thesis using assms(3) 2 put by (auto simp: observe_def tracks_def)
  qed
  then show "tracks L keys n (h @ [digest S x]) d'" "b \<longleftrightarrow> digest S x \<in> set (window n h)" by auto
qed

lemma first_observed: "lru_ok L keys \<Longrightarrow> \<exists>d. observe E L (dedup_new L capacity) bs = (d, False)"
  using observe_tracks(2)[OF _ tracks_new] by (metis empty_iff list.set(1) surj_pair window_def take_Nil recent_Nil)

lemma observe_all_tracks:
  assumes "lru_ok L keys" "tracks L keys n h d" "observe_all S L d xs = (d', bs)"
  shows "tracks L keys n (h @ map (digest S) xs) d'"
  using assms(2,3)
proof (induction xs arbitrary: h d bs)
  case (Cons x xs)
  obtain d1 b where d1: "observe S L d x = (d1, b)" by fastforce
  then obtain bs2 where d2: "observe_all S L d1 xs = (d', bs2)"
    using Cons.prems(2) by (simp split: prod.splits)
  show ?case
    using Cons.IH[OF observe_tracks(1)[OF assms(1) Cons.prems(1) d1] d2] by simp
qed simp

lemma tracks_len:
  "lru_ok L keys \<Longrightarrow> tracks L keys n h d \<Longrightarrow> dedup_len L d = length (window n h)"
  by (auto simp: tracks_def dedup_len_def lru_ok_def window_def split: if_splits)

lemma length_window: "length (window n h) \<le> n"
  by (simp add: window_def)

section \<open>Properties\<close>

text \<open>
  C31: The dedup buffer is exactly a window over the history. After any sequence of observations on
  a fresh buffer of capacity n, a payload is reported as already seen if and only if its digest is
  one of the n most recent distinct digests observed, and the buffer never holds more than n
  digests; with capacity zero nothing is ever reported as seen.
\<close>

theorem dedup_is_a_window:
  assumes "lru_ok L keys" "observe_all S L (dedup_new L n) history = (d, answers)"
  shows "(snd (observe S L d x) \<longleftrightarrow> digest S x \<in> set (take n (recent (map (digest S) history)))) \<and>
    dedup_len L d = min n (card (set (map (digest S) history)))"
proof -
  have t: "tracks L keys n (map (digest S) history) d"
    using observe_all_tracks[OF assms(1) tracks_new[OF assms(1)] assms(2)] by simp
  obtain d' b where "observe S L d x = (d', b)" by fastforce
  with observe_tracks(2)[OF assms(1) t this] tracks_len[OF assms(1) t] show ?thesis
    by (simp add: window_def recent_def length_remdups_card_conv min.commute)
qed

theorem dedup_is_a_window_witness:
  "let S = plain_suite; d = fst (observe_all S list_lru (dedup_new list_lru 2) [[1], [2], [1], [3]]) in
   lru_ok list_lru snd \<and>
   (snd (observe S list_lru d [1]) \<longleftrightarrow>
     digest S [1] \<in> set (take 2 (recent (map (digest S) [[1], [2], [1], [3]])))) \<and>
   (snd (observe S list_lru d [2]) \<longleftrightarrow>
     digest S [2] \<in> set (take 2 (recent (map (digest S) [[1], [2], [1], [3]])))) \<and>
   snd (observe S list_lru d [1]) \<and> \<not> snd (observe S list_lru d [2])"
proof -
  let ?run = "observe_all plain_suite list_lru (dedup_new list_lru 2) [[1], [2], [1], [3]]"
  have run: "?run = (fst ?run, snd ?run)" by simp
  have 1: "snd (observe plain_suite list_lru (fst ?run) [1])"
    and 2: "\<not> snd (observe plain_suite list_lru (fst ?run) [2])"
    by (simp_all add: observe_def dedup_new_def list_lru_def digest_def plain_suite_def Let_def)
  show ?thesis
    unfolding Let_def using 1 2 dedup_is_a_window[OF list_lru_ok run] by (intro conjI) auto
qed

end
