(* ===== verification/Config.thy ===== *)
theory Config
  imports Errors Dedup
begin

text \<open>
  The transport traits of \<open>crates/enlace/src/transports.rs\<close> and the configuration records of
  \<open>config.rs\<close>. A transport is the record of its calls on the state \<open>'w\<close> of the network; URLs and
  socket addresses are their text.
\<close>

section \<open>Transport traits\<close>

record 'w transport =
  t_subscribe :: "'w \<Rightarrow> bytes \<Rightarrow> 'w \<times> (transport_error, unit) res"
  t_send :: "'w \<Rightarrow> bytes \<Rightarrow> bytes \<Rightarrow> 'w \<times> (transport_error, unit) res"
  t_recv :: "'w \<Rightarrow> bytes \<Rightarrow> duration \<Rightarrow> 'w \<times> (transport_error, bytes option) res"
  t_put :: "'w \<Rightarrow> bytes \<Rightarrow> u64 \<Rightarrow> bytes \<Rightarrow> 'w \<times> (transport_error, unit) res"
  t_get :: "'w \<Rightarrow> bytes \<Rightarrow> 'w \<times> (transport_error, (u64 \<times> bytes) option) res"

text \<open>The default body of \<open>MailboxTransport::subscribe\<close>.\<close>

definition default_subscribe :: "'w \<Rightarrow> bytes \<Rightarrow> 'w \<times> (transport_error, unit) res" where
  "default_subscribe w cid = (w, Err Unsupported)"

section \<open>Configuration\<close>

definition DEFAULT_MAX_PLAINTEXT_BYTES :: nat where "DEFAULT_MAX_PLAINTEXT_BYTES = 65536"
definition DEFAULT_LONG_POLL_SECS :: u32 where "DEFAULT_LONG_POLL_SECS = 25"
definition DEFAULT_REPUBLISH_INTERVAL :: duration where
  "DEFAULT_REPUBLISH_INTERVAL = from_secs (30 * 60)"
definition DEFAULT_PKARR_RELAYS :: "string list" where
  "DEFAULT_PKARR_RELAYS =
    [''https://relay.pkarr.org'', ''https://pkarr.pubky.org'', ''https://pkarr.pubky.app'']"
definition DEFAULT_PKARR_REQUEST_TIMEOUT :: duration where "DEFAULT_PKARR_REQUEST_TIMEOUT = 0"
definition DEFAULT_IROH_MAX_MESSAGE_BYTES :: nat where
  "DEFAULT_IROH_MAX_MESSAGE_BYTES = DEFAULT_MAX_PLAINTEXT_BYTES + 4096"
definition DEFAULT_IROH_MAX_STREAMS_PER_PEER :: u32 where "DEFAULT_IROH_MAX_STREAMS_PER_PEER = 32"
definition DEFAULT_IROH_MAX_CONNS_PER_PEER :: u32 where "DEFAULT_IROH_MAX_CONNS_PER_PEER = 4"

record basic_auth =
  ba_username :: string
  ba_password :: string

record http_config =
  hc_url :: string
  hc_skip_verify :: bool
  hc_auth :: "basic_auth option"
  hc_long_poll_secs :: u32

definition http_config_new :: "string \<Rightarrow> http_config" where
  "http_config_new url =
    \<lparr> hc_url = url, hc_skip_verify = False, hc_auth = None,
      hc_long_poll_secs = DEFAULT_LONG_POLL_SECS \<rparr>"

datatype pkarr_network_mode = Relays | DhtOnly | Both

record pkarr_config =
  pc_network :: pkarr_network_mode
  pc_resolvers :: "string list"
  pc_bootstrap :: "string list"
  pc_request_timeout :: duration
  pc_republish_interval :: duration

definition pkarr_config_default :: pkarr_config where
  "pkarr_config_default =
    \<lparr> pc_network = Relays, pc_resolvers = DEFAULT_PKARR_RELAYS, pc_bootstrap = [],
      pc_request_timeout = DEFAULT_PKARR_REQUEST_TIMEOUT,
      pc_republish_interval = DEFAULT_REPUBLISH_INTERVAL \<rparr>"

definition effective_resolvers :: "pkarr_config \<Rightarrow> string list" where
  "effective_resolvers c =
    (if pc_resolvers c = [] then DEFAULT_PKARR_RELAYS else pc_resolvers c)"

definition effective_bootstrap :: "pkarr_config \<Rightarrow> string list" where
  "effective_bootstrap c = pc_bootstrap c"

datatype iroh_relay_mode = RelayDefault | RelayCustom "string list" | RelayDisabled

record iroh_endpoint_addr =
  ea_endpoint_id :: bytes
  ea_relay_urls :: "string list"
  ea_direct_addrs :: "string list"

record iroh_config =
  ic_relay_mode :: iroh_relay_mode
  ic_bind_addrs :: "string list"
  ic_peers :: "iroh_endpoint_addr list"
  ic_max_message_bytes :: nat
  ic_max_streams_per_peer :: u32
  ic_max_conns_per_peer :: u32

definition iroh_config_default :: iroh_config where
  "iroh_config_default =
    \<lparr> ic_relay_mode = RelayDefault, ic_bind_addrs = [], ic_peers = [],
      ic_max_message_bytes = DEFAULT_IROH_MAX_MESSAGE_BYTES,
      ic_max_streams_per_peer = DEFAULT_IROH_MAX_STREAMS_PER_PEER,
      ic_max_conns_per_peer = DEFAULT_IROH_MAX_CONNS_PER_PEER \<rparr>"

record 'w configured_transport =
  ct_kind :: transport_kind
  ct_transport :: "'w transport"

text \<open>The handle on the state store is passed beside the configuration.\<close>

record 'w config =
  cfg_http :: "http_config option"
  cfg_pkarr :: "pkarr_config option"
  cfg_iroh :: "iroh_config option"
  cfg_signing :: "bytes option"
  cfg_trusted :: "bytes list"
  cfg_dedup_buffer :: nat
  cfg_max_plaintext_bytes :: nat
  cfg_transports :: "'w configured_transport list"

definition config_default :: "'w config" where
  "config_default =
    \<lparr> cfg_http = None, cfg_pkarr = None, cfg_iroh = None, cfg_signing = None, cfg_trusted = [],
      cfg_dedup_buffer = DEFAULT_CAPACITY, cfg_max_plaintext_bytes = DEFAULT_MAX_PLAINTEXT_BYTES,
      cfg_transports = [] \<rparr>"

definition transport_count :: "'w config \<Rightarrow> nat" where
  "transport_count c =
    length (cfg_transports c) + (if cfg_http c \<noteq> None then 1 else 0)
      + (if cfg_pkarr c \<noteq> None then 1 else 0) + (if cfg_iroh c \<noteq> None then 1 else 0)"

end
