(* ===== verification/Health.thy ===== *)
theory Health
  imports Config
begin

text \<open>
  The health tracker of \<open>crates/enlace/src/transports.rs\<close>: per transport, counters of consecutive
  outcomes, a three-state machine and a bounded log of its transitions. The machine is shown to
  compute a function of the history of outcomes alone.
\<close>

section \<open>Data\<close>

datatype health_state = Healthy | Degraded | Down

datatype health_transition_kind = BecameHealthy | BecameDegraded | BecameDown

record health_transition =
  ht_kind :: health_transition_kind
  ht_from :: health_state
  ht_to :: health_state
  ht_at :: system_time

record endpoint_health =
  eh_endpoint :: string
  eh_state :: health_state

definition endpoint_configured :: "string \<Rightarrow> endpoint_health" where
  "endpoint_configured endpoint = \<lparr> eh_endpoint = endpoint, eh_state = Healthy \<rparr>"

record transport_health =
  h_kind :: transport_kind
  h_configured :: bool
  h_state :: health_state
  h_consecutive_successes :: u32
  h_consecutive_failures :: u32
  h_last_success :: "system_time option"
  h_last_failure :: "system_time option"
  h_transitions :: "health_transition list"
  h_endpoints :: "endpoint_health list"

record tracked_transport =
  tt_health :: transport_health
  tt_poll_interval :: "duration option"
  tt_last_success_instant :: "instant option"

text \<open>The two clocks, read when an outcome is recorded.\<close>

record clock =
  ck_system :: system_time
  ck_instant :: instant

section \<open>One transport\<close>

definition tracked_new ::
  "transport_kind \<Rightarrow> duration option \<Rightarrow> endpoint_health list \<Rightarrow> tracked_transport" where
  "tracked_new kind poll_interval endpoints =
    \<lparr> tt_health =
        \<lparr> h_kind = kind, h_configured = True, h_state = Healthy, h_consecutive_successes = 0,
          h_consecutive_failures = 0, h_last_success = None, h_last_failure = None,
          h_transitions = [], h_endpoints = endpoints \<rparr>,
      tt_poll_interval = poll_interval, tt_last_success_instant = None \<rparr>"

definition duration_max :: duration where
  "duration_max = from_secs (2 ^ 64 - 1) + 999999999"

definition tracked_snapshot :: "tracked_transport \<Rightarrow> instant \<Rightarrow> transport_health" where
  "tracked_snapshot t now =
    (let health = tt_health t;
         state =
           (case tt_last_success_instant t of
              None \<Rightarrow> h_state health
            | Some last_success \<Rightarrow>
                (let age = now - last_success in
                 if age \<ge> from_secs (5 * 60) then Down
                 else if (case tt_poll_interval t of
                            None \<Rightarrow> False
                          | Some interval \<Rightarrow> age \<ge> min (interval * 2) duration_max)
                 then Degraded
                 else h_state health))
     in health\<lparr>h_state := state,
               h_endpoints := map (\<lambda>e. e\<lparr>eh_state := state\<rparr>) (h_endpoints health)\<rparr>)"

definition saturating_add1 :: "u32 \<Rightarrow> u32" where
  "saturating_add1 v = (if v = - 1 then v else v + 1)"

fun became :: "health_state \<Rightarrow> health_transition_kind" where
  "became Healthy = BecameHealthy"
| "became Degraded = BecameDegraded"
| "became Down = BecameDown"

definition transition :: "clock \<Rightarrow> health_state \<Rightarrow> transport_health \<Rightarrow> transport_health" where
  "transition ck to h =
    (if h_state h = to then h
     else
       (let old = h_state h;
            log = (if length (h_transitions h) = 64 then tl (h_transitions h) else h_transitions h)
        in h\<lparr>h_state := to,
             h_transitions :=
               log @ [\<lparr>ht_kind = became to, ht_from = old, ht_to = to, ht_at = ck_system ck\<rparr>]\<rparr>))"

definition tracked_record_success :: "clock \<Rightarrow> tracked_transport \<Rightarrow> tracked_transport" where
  "tracked_record_success ck t =
    (let h = tt_health t;
         h1 = h\<lparr>h_last_success := Some (ck_system ck),
                h_consecutive_successes := saturating_add1 (h_consecutive_successes h),
                h_consecutive_failures := 0\<rparr>;
         h2 = (case h_state h1 of
                 Down \<Rightarrow> transition ck Degraded h1
               | Degraded \<Rightarrow>
                   if h_consecutive_successes h1 \<ge> 3 then transition ck Healthy h1 else h1
               | Healthy \<Rightarrow> h1)
     in t\<lparr>tt_health := h2, tt_last_success_instant := Some (ck_instant ck)\<rparr>)"

definition tracked_record_failure :: "clock \<Rightarrow> tracked_transport \<Rightarrow> tracked_transport" where
  "tracked_record_failure ck t =
    (let h = tt_health t;
         h1 = h\<lparr>h_last_failure := Some (ck_system ck),
                h_consecutive_failures := saturating_add1 (h_consecutive_failures h),
                h_consecutive_successes := 0\<rparr>;
         h2 = (case h_state h1 of
                 Healthy \<Rightarrow> transition ck Degraded h1
               | Degraded \<Rightarrow>
                   if h_consecutive_failures h1 \<ge> 3 then transition ck Down h1 else h1
               | Down \<Rightarrow> h1)
     in t\<lparr>tt_health := h2\<rparr>)"

section \<open>The tracker\<close>

definition pkarr_health_endpoints :: "pkarr_config \<Rightarrow> endpoint_health list" where
  "pkarr_health_endpoints c =
    (if pc_network c \<in> {Relays, Both} then map endpoint_configured (effective_resolvers c) else []) @
    (if pc_network c \<in> {DhtOnly, Both} then
       (if pc_bootstrap c = [] then [endpoint_configured ''mainline-dht'']
        else map endpoint_configured (pc_bootstrap c))
     else [])"

definition iroh_health_endpoints :: "iroh_config \<Rightarrow> endpoint_health list" where
  "iroh_health_endpoints c =
    map endpoint_configured (concat (map ea_relay_urls (ic_peers c))) @
    (case ic_relay_mode c of
       RelayCustom urls \<Rightarrow> map endpoint_configured urls
     | RelayDefault \<Rightarrow> [endpoint_configured ''default'']
     | RelayDisabled \<Rightarrow> [])"

type_synonym health_tracker = "tracked_transport list"

definition health_from_config :: "'w config \<Rightarrow> health_tracker" where
  "health_from_config c =
    (case cfg_http c of
       None \<Rightarrow> []
     | Some http \<Rightarrow>
         [tracked_new Http (Some (from_secs (unat (max (hc_long_poll_secs http) 1))))
            [endpoint_configured (hc_url http)]]) @
    (case cfg_pkarr c of
       None \<Rightarrow> []
     | Some p \<Rightarrow>
         [tracked_new Pkarr (Some (pc_republish_interval p)) (pkarr_health_endpoints p)]) @
    (case cfg_iroh c of
       None \<Rightarrow> []
     | Some i \<Rightarrow> [tracked_new Iroh (Some (from_secs 30)) (iroh_health_endpoints i)]) @
    map (\<lambda>t. tracked_new (ct_kind t) None []) (cfg_transports c)"

definition health_snapshot :: "instant \<Rightarrow> health_tracker \<Rightarrow> transport_health list" where
  "health_snapshot now ht = map (\<lambda>t. tracked_snapshot t now) ht"

definition for_kind ::
  "transport_kind \<Rightarrow> (tracked_transport \<Rightarrow> tracked_transport) \<Rightarrow> health_tracker \<Rightarrow> health_tracker" where
  "for_kind kind f ht = map (\<lambda>t. if h_kind (tt_health t) = kind then f t else t) ht"

definition record_success :: "clock \<Rightarrow> transport_kind \<Rightarrow> health_tracker \<Rightarrow> health_tracker" where
  "record_success ck kind ht = for_kind kind (tracked_record_success ck) ht"

definition record_failure :: "clock \<Rightarrow> transport_kind \<Rightarrow> health_tracker \<Rightarrow> health_tracker" where
  "record_failure ck kind ht = for_kind kind (tracked_record_failure ck) ht"

section \<open>Histories of outcomes\<close>

text \<open>An outcome is \<open>True\<close> for a success; a history lists them with the clocks, oldest first.\<close>

definition record_outcome :: "tracked_transport \<Rightarrow> clock \<times> bool \<Rightarrow> tracked_transport" where
  "record_outcome t e =
    (if snd e then tracked_record_success (fst e) t else tracked_record_failure (fst e) t)"

definition run_outcomes :: "tracked_transport \<Rightarrow> (clock \<times> bool) list \<Rightarrow> tracked_transport" where
  "run_outcomes t es = foldl record_outcome t es"

text \<open>How many times \<open>b\<close> ends a history, and the state a history should lead to.\<close>

definition streak :: "bool \<Rightarrow> bool list \<Rightarrow> nat" where
  "streak b os = length (takeWhile (\<lambda>x. x = b) (rev os))"

definition health_spec :: "bool list \<Rightarrow> health_state" where
  "health_spec os =
    (if streak False os \<ge> 3 then Down
     else if False \<notin> set os \<or> streak True os \<ge> 3 then Healthy
     else Degraded)"

definition u32_sat :: "nat \<Rightarrow> u32" where
  "u32_sat n = of_nat (min n (2 ^ 32 - 1))"

text \<open>The transition log: bounded, contiguous, ending in the current state.\<close>

fun chained :: "health_transition list \<Rightarrow> bool" where
  "chained (a # b # r) \<longleftrightarrow> ht_to a = ht_from b \<and> chained (b # r)"
| "chained _ \<longleftrightarrow> True"

fun adjacent :: "health_state \<Rightarrow> health_state \<Rightarrow> bool" where
  "adjacent Healthy Degraded = True"
| "adjacent Degraded Healthy = True"
| "adjacent Degraded Down = True"
| "adjacent Down Degraded = True"
| "adjacent _ _ = False"

definition log_ok :: "transport_health \<Rightarrow> bool" where
  "log_ok h \<longleftrightarrow>
    length (h_transitions h) \<le> 64 \<and> chained (h_transitions h) \<and>
    (h_transitions h \<noteq> [] \<longrightarrow> ht_to (last (h_transitions h)) = h_state h) \<and>
    list_all (\<lambda>t. adjacent (ht_from t) (ht_to t) \<and> ht_kind t = became (ht_to t)) (h_transitions h)"

section \<open>Lemmas\<close>

lemma streak_snoc [simp]: "streak b (os @ [x]) = (if x = b then Suc (streak b os) else 0)"
  by (simp add: streak_def)

lemma streak_Nil [simp]: "streak b [] = 0"
  by (simp add: streak_def)

lemma streak_le: "streak b os \<le> length os"
  by (simp add: streak_def) (metis length_rev length_takeWhile_le)

lemma u32_sat_0 [simp]: "u32_sat 0 = 0"
  by (simp add: u32_sat_def)

lemma unat_u32_sat: "unat (u32_sat n) = min n (2 ^ 32 - 1)"
  by (simp add: u32_sat_def unat_of_nat min_def)

lemma saturating_add1_sat [simp]: "saturating_add1 (u32_sat n) = u32_sat (Suc n)"
proof (cases "n < 2 ^ 32 - 1")
  case True
  then have "unat (u32_sat n) \<noteq> unat (- 1 :: u32)"
    by (simp add: unat_u32_sat unsigned_minus_1_eq_mask mask_eq_exp_minus_1)
  then have "u32_sat n \<noteq> - 1" by auto
  then show ?thesis using True by (simp add: saturating_add1_def) (simp add: u32_sat_def min_def)
next
  case False
  then have "u32_sat n = - 1" "u32_sat (Suc n) = - 1"
    by (simp_all add: u32_sat_def min_def)
  then show ?thesis by (simp add: saturating_add1_def)
qed

lemma u32_sat_ge_3 [simp]: "3 \<le> u32_sat n \<longleftrightarrow> 3 \<le> n"
  by (simp add: word_le_nat_alt unat_u32_sat)

lemma transition_fields [simp]:
  "h_state (transition ck to h) = to"
  "h_consecutive_successes (transition ck to h) = h_consecutive_successes h"
  "h_consecutive_failures (transition ck to h) = h_consecutive_failures h"
  "h_kind (transition ck to h) = h_kind h"
  by (auto simp: transition_def Let_def)

definition follows :: "bool list \<Rightarrow> transport_health \<Rightarrow> bool" where
  "follows os h \<longleftrightarrow>
    h_consecutive_successes h = u32_sat (streak True os) \<and>
    h_consecutive_failures h = u32_sat (streak False os) \<and> h_state h = health_spec os"

lemma streak_excl: "streak b os > 0 \<Longrightarrow> streak (\<not> b) os = 0"
  by (cases os rule: rev_cases) (auto split: if_splits)

lemma streak_mem: "streak b os > 0 \<Longrightarrow> b \<in> set os"
  by (cases os rule: rev_cases) (auto split: if_splits)

lemma saturating_add1_0 [simp]: "saturating_add1 0 = u32_sat (Suc 0)"
  using saturating_add1_sat[of 0] by simp

lemma follows_record:
  assumes "follows os (tt_health t)"
  shows "follows (os @ [snd e]) (tt_health (record_outcome t e))"
proof (cases "snd e")
  case True
  then show ?thesis
    using assms streak_excl[of False os] streak_mem[of False os]
    by (auto simp: follows_def record_outcome_def tracked_record_success_def Let_def health_spec_def
        split: health_state.splits if_splits)
next
  case False
  then show ?thesis
    using assms streak_excl[of True os] streak_mem[of False os]
    by (auto simp: follows_def record_outcome_def tracked_record_failure_def Let_def health_spec_def
        split: health_state.splits if_splits)
qed

lemma follows_run:
  "follows os (tt_health t) \<Longrightarrow> follows (os @ map snd es) (tt_health (run_outcomes t es))"
proof (induction es arbitrary: os t)
  case (Cons e es)
  from Cons.IH[OF follows_record[OF Cons.prems, of e]] show ?case
    by (simp add: run_outcomes_def)
qed (simp add: run_outcomes_def)

lemma follows_new: "follows [] (tt_health (tracked_new kind pi eps))"
  by (simp add: follows_def tracked_new_def health_spec_def)

lemma chained_snoc:
  "chained (xs @ [x]) \<longleftrightarrow> chained xs \<and> (xs \<noteq> [] \<longrightarrow> ht_to (last xs) = ht_from x)"
  by (induction xs rule: chained.induct) auto

lemma chained_tl: "chained xs \<Longrightarrow> chained (tl xs)"
  by (cases xs rule: chained.cases) auto

lemma log_ok_transition:
  assumes "log_ok h" "adjacent (h_state h) to"
  shows "log_ok (transition ck to h)"
proof -
  define xs where "xs = h_transitions h"
  define ys where "ys = (if length xs = 64 then tl xs else xs)"
  have "length ys < 64" using assms(1) by (auto simp: ys_def log_ok_def xs_def)
  moreover have "chained ys" using assms(1) by (auto simp: ys_def log_ok_def xs_def chained_tl)
  moreover have "ys \<noteq> [] \<Longrightarrow> ht_to (last ys) = h_state h"
    using assms(1) by (auto simp: ys_def log_ok_def xs_def last_tl split: if_splits)
  moreover have "set ys \<subseteq> set xs" by (cases xs) (auto simp: ys_def)
  moreover have "h_state h \<noteq> to" using assms(2) by (cases "h_state h") auto
  moreover have "list_all (\<lambda>t. adjacent (ht_from t) (ht_to t) \<and> ht_kind t = became (ht_to t)) xs"
    using assms(1) by (simp add: log_ok_def xs_def)
  ultimately show ?thesis
    using assms(2) unfolding log_ok_def transition_def Let_def xs_def[symmetric] ys_def[symmetric]
    by (auto simp: chained_snoc list_all_iff)
qed

lemma log_ok_cong:
  "log_ok h \<Longrightarrow> h_state h' = h_state h \<Longrightarrow> h_transitions h' = h_transitions h \<Longrightarrow> log_ok h'"
  by (simp add: log_ok_def)

lemma log_ok_record:
  assumes "log_ok (tt_health t)"
  shows "log_ok (tt_health (record_outcome t e))"
proof (cases "snd e")
  case True
  show ?thesis
    unfolding record_outcome_def tracked_record_success_def Let_def using True
    by (auto split: health_state.splits intro!: log_ok_transition intro: log_ok_cong[OF assms])
next
  case False
  show ?thesis
    unfolding record_outcome_def tracked_record_failure_def Let_def using False
    by (auto split: health_state.splits intro!: log_ok_transition intro: log_ok_cong[OF assms])
qed

lemma log_ok_run: "log_ok (tt_health t) \<Longrightarrow> log_ok (tt_health (run_outcomes t es))"
  unfolding run_outcomes_def by (induction es arbitrary: t) (auto intro: log_ok_record)

lemma log_ok_new: "log_ok (tt_health (tracked_new kind pi eps))"
  by (simp add: log_ok_def tracked_new_def)

lemma length_health_from_config: "length (health_from_config c) = transport_count c"
  by (simp add: health_from_config_def transport_count_def split: option.splits)

section \<open>Severity\<close>

instantiation health_state :: linorder
begin

fun severity :: "health_state \<Rightarrow> nat" where
  "severity Healthy = 0"
| "severity Degraded = 1"
| "severity Down = 2"

definition less_eq_health_state :: "health_state \<Rightarrow> health_state \<Rightarrow> bool" where
  "a \<le> b \<longleftrightarrow> severity a \<le> severity b"

definition less_health_state :: "health_state \<Rightarrow> health_state \<Rightarrow> bool" where
  "a < b \<longleftrightarrow> severity a < severity b"

lemma severity_inject: "severity a = severity b \<Longrightarrow> a = b"
  by (cases a; cases b) auto

instance
  by standard (auto simp: less_eq_health_state_def less_health_state_def intro: severity_inject)

end

section \<open>Properties\<close>

text \<open>
  C32: The state of a transport after any sequence of recorded outcomes depends only on that
  sequence: Down exactly when the last three outcomes or more are failures, Healthy when no
  failure has ever been recorded or the last three outcomes or more are successes, Degraded
  otherwise. The saturating 32-bit counters do not disturb this, however long the sequence.
\<close>

theorem health_state_of_history:
  "h_state (tt_health (run_outcomes (tracked_new kind interval endpoints) es)) =
    health_spec (map snd es)"
  using follows_run[OF follows_new[of kind interval endpoints], of es] by (simp add: follows_def)

text \<open>
  The transition log of a transport never holds more than 64 entries, its entries follow one
  another without a gap, the last one leads to the current state, and every entry is a step
  between neighbouring states labelled with the state it leads to.
\<close>

theorem health_log_invariant:
  "log_ok (tt_health (run_outcomes (tracked_new kind interval endpoints) es))"
  by (rule log_ok_run[OF log_ok_new])

text \<open>
  The staleness rule of a snapshot reports a transport as less severe than it is tracked
  exactly when the transport is Down, its last success is younger than five minutes and at least
  twice its poll interval old: the snapshot then says Degraded.
\<close>

theorem snapshot_hides_down:
  "h_state (tracked_snapshot t now) < h_state (tt_health t) \<longleftrightarrow>
    h_state (tt_health t) = Down \<and>
    (\<exists>last interval. tt_last_success_instant t = Some last \<and> tt_poll_interval t = Some interval \<and>
       now - last < from_secs (5 * 60) \<and> min (interval * 2) duration_max \<le> now - last)"
  by (cases "h_state (tt_health t)")
    (auto simp: tracked_snapshot_def Let_def less_health_state_def split: option.splits)

end
