(* ===== verification/PeerCard.thy ===== *)
theory PeerCard
  imports Config
begin

text \<open>
  Peer identities and peer cards of \<open>crates/enlace/src/peer.rs\<close>: the identifiers, the card record,
  its validation, its binary and text forms with the bounds-checked \<open>CardDecoder\<close>, and the error
  enums of the peer modules. The text parsers and base64 are fields of \<open>peer_env\<close>.
\<close>

section \<open>Text formats of third-party code\<close>

record peer_env = suite +
  url_parse :: "string \<Rightarrow> string option"
  addr_parse :: "string \<Rightarrow> string option"
  b64_encode :: "bytes \<Rightarrow> string"
  b64_decode :: "string \<Rightarrow> bytes option"

definition b64_ok :: "'z peer_env_scheme \<Rightarrow> bool" where
  "b64_ok P \<longleftrightarrow> (\<forall>b. b64_decode P (b64_encode P b) = Some b)"

section \<open>Error enums\<close>

datatype peer_card_error =
    MissingPrefix | InvalidEncoding | CardUnsupportedVersion | Truncated string | TrailingBytes
  | InvalidSigningKey | InconsistentPeerId | EmptyExchangeKey | InvalidIrohEndpoint
  | InvalidUtf8 string | InvalidRelayUrl | InvalidDirectAddr | CountTooLarge string
  | FieldTooLarge string

fun peer_card_error_display :: "peer_card_error \<Rightarrow> string" where
  "peer_card_error_display MissingPrefix = ''peer card export prefix missing''"
| "peer_card_error_display InvalidEncoding = ''peer card export encoding invalid''"
| "peer_card_error_display CardUnsupportedVersion = ''peer card version unsupported''"
| "peer_card_error_display (Truncated field) = ''peer card ended inside '' @ field"
| "peer_card_error_display TrailingBytes = ''peer card has trailing bytes''"
| "peer_card_error_display InvalidSigningKey = ''peer card signing key invalid''"
| "peer_card_error_display InconsistentPeerId = ''peer card id does not match signing key''"
| "peer_card_error_display EmptyExchangeKey = ''peer card exchange key is empty''"
| "peer_card_error_display InvalidIrohEndpoint = ''peer card iroh endpoint invalid''"
| "peer_card_error_display (InvalidUtf8 field) = ''peer card '' @ field @ '' is not utf-8''"
| "peer_card_error_display InvalidRelayUrl = ''peer card relay url invalid''"
| "peer_card_error_display InvalidDirectAddr = ''peer card direct address invalid''"
| "peer_card_error_display (CountTooLarge field) = ''peer card '' @ field @ '' count too large''"
| "peer_card_error_display (FieldTooLarge field) = ''peer card '' @ field @ '' too large''"

datatype trust_error = InvalidPeerCard peer_card_error | TrustState state_error

fun trust_error_display :: "trust_error \<Rightarrow> string" where
  "trust_error_display (InvalidPeerCard err) = ''invalid peer card: '' @ peer_card_error_display err"
| "trust_error_display (TrustState err) = ''state store error: '' @ state_error_display err"

section \<open>Identities\<close>

definition peer_id_from_signing_key :: "'z suite_scheme \<Rightarrow> bytes \<Rightarrow> bytes" where
  "peer_id_from_signing_key S signing_key =
    sha256 S (str_bytes ''enlace/v1/pkey/peer-id'' @ signing_key)"

record peer_identity =
  id_signing :: bytes
  id_exchange :: bytes
  id_iroh_secret :: "bytes option"

text \<open>The 64 random bytes of \<open>PeerIdentity::generate\<close> are an argument.\<close>

definition identity_generate :: "bytes \<Rightarrow> bytes \<Rightarrow> peer_identity" where
  "identity_generate signing exchange =
    \<lparr> id_signing = signing, id_exchange = exchange, id_iroh_secret = None \<rparr>"

definition identity_from_parts :: "bytes \<Rightarrow> bytes \<Rightarrow> bytes option \<Rightarrow> peer_identity" where
  "identity_from_parts signing exchange iroh_secret =
    \<lparr> id_signing = signing, id_exchange = exchange, id_iroh_secret = iroh_secret \<rparr>"

definition identity_peer_id :: "'z suite_scheme \<Rightarrow> peer_identity \<Rightarrow> bytes" where
  "identity_peer_id S i = peer_id_from_signing_key S (ed_public S (id_signing i))"

record group_key =
  gk_id :: bytes
  gk_secret :: bytes

section \<open>Cards\<close>

record peer_card =
  card_peer_id :: bytes
  card_signing_key :: bytes
  card_exchange_key :: bytes
  card_iroh_endpoint :: "iroh_endpoint_addr option"

definition card_new ::
  "'z suite_scheme \<Rightarrow> bytes \<Rightarrow> bytes \<Rightarrow> iroh_endpoint_addr option \<Rightarrow> peer_card" where
  "card_new S signing_key exchange_key iroh_endpoint =
    \<lparr> card_peer_id = peer_id_from_signing_key S signing_key, card_signing_key = signing_key,
      card_exchange_key = exchange_key, card_iroh_endpoint = iroh_endpoint \<rparr>"

definition identity_card :: "'z suite_scheme \<Rightarrow> peer_identity \<Rightarrow> peer_card" where
  "identity_card S i = card_new S (ed_public S (id_signing i)) (x_public S (id_exchange i)) None"

definition identity_card_with_iroh_endpoint ::
  "'z suite_scheme \<Rightarrow> peer_identity \<Rightarrow> iroh_endpoint_addr \<Rightarrow> peer_card" where
  "identity_card_with_iroh_endpoint S i endpoint =
    card_new S (ed_public S (id_signing i)) (x_public S (id_exchange i)) (Some endpoint)"

definition card_is_consistent :: "'z suite_scheme \<Rightarrow> peer_card \<Rightarrow> bool" where
  "card_is_consistent S c \<longleftrightarrow> card_peer_id c = peer_id_from_signing_key S (card_signing_key c)"

definition card_validate :: "'z suite_scheme \<Rightarrow> peer_card \<Rightarrow> (peer_card_error, unit) res" where
  "card_validate S c =
    (if \<not> card_is_consistent S c then Err InconsistentPeerId
     else if list_all (\<lambda>b. b = 0) (card_exchange_key c) then Err EmptyExchangeKey
     else if (case card_iroh_endpoint c of
                None \<Rightarrow> False
              | Some endpoint \<Rightarrow> list_all (\<lambda>b. b = 0) (ea_endpoint_id endpoint))
     then Err InvalidIrohEndpoint
     else Ok ())"

record trusted_peer =
  tp_card :: peer_card

definition trusted_new :: "peer_card \<Rightarrow> trusted_peer" where
  "trusted_new c = \<lparr> tp_card = c \<rparr>"

definition try_from_card :: "'z suite_scheme \<Rightarrow> peer_card \<Rightarrow> (peer_card_error, trusted_peer) res" where
  "try_from_card S c = bind_res (card_validate S c) (\<lambda>_. Ok \<lparr> tp_card = c \<rparr>)"

definition trusted_peer_id :: "trusted_peer \<Rightarrow> bytes" where
  "trusted_peer_id p = card_peer_id (tp_card p)"

section \<open>Writing\<close>

definition u32_try_from :: "nat \<Rightarrow> u32 option" where
  "u32_try_from n = (if n < 2 ^ 32 then Some (of_nat n) else None)"

definition write_bytes :: "bytes \<Rightarrow> bytes \<Rightarrow> ('e, bytes) res" where
  "write_bytes out bs =
    bind_res (expect (u32_try_from (length bs))) (\<lambda>len. Ok (out @ u32_be len @ bs))"

fun write_strings :: "string list \<Rightarrow> u32 \<Rightarrow> bytes \<Rightarrow> ('e, bytes \<times> u32) res" where
  "write_strings [] count out = Ok (out, count)"
| "write_strings (v # vs) count out =
    bind_res (write_bytes out (str_bytes v))
      (\<lambda>out. if count = - 1 then Panic else write_strings vs (count + 1) out)"

definition write_string_list :: "bytes \<Rightarrow> string list \<Rightarrow> ('e, bytes) res" where
  "write_string_list out vs =
    (let start = length out in
     bind_res (write_strings vs 0 (out @ u32_be 0))
       (\<lambda>(buf, count). Ok (take start buf @ u32_be count @ drop (start + 4) buf)))"

definition write_endpoint :: "bytes \<Rightarrow> iroh_endpoint_addr option \<Rightarrow> ('e, bytes) res" where
  "write_endpoint out endpoint =
    (case endpoint of
       None \<Rightarrow> Ok (out @ [0])
     | Some e \<Rightarrow>
         bind_res (write_string_list (out @ [1] @ ea_endpoint_id e) (ea_relay_urls e))
           (\<lambda>buf. write_string_list buf (ea_direct_addrs e)))"

definition PEER_CARD_RECORD_VERSION :: u8 where "PEER_CARD_RECORD_VERSION = 1"

definition card_to_bytes :: "peer_card \<Rightarrow> ('e, bytes) res" where
  "card_to_bytes c =
    write_endpoint
      ([PEER_CARD_RECORD_VERSION] @ card_peer_id c @ card_signing_key c @ card_exchange_key c)
      (card_iroh_endpoint c)"

section \<open>Reading\<close>

record card_decoder =
  cd_bytes :: bytes
  cd_offset :: nat

type_synonym 'a decoded = "(peer_card_error, 'a \<times> card_decoder) res"

definition decoder_new :: "bytes \<Rightarrow> card_decoder" where
  "decoder_new bs = \<lparr> cd_bytes = bs, cd_offset = 0 \<rparr>"

text \<open>Offsets are 64-bit: an addition that overflows is \<open>FieldTooLarge\<close>.\<close>

definition decoder_take :: "string \<Rightarrow> nat \<Rightarrow> card_decoder \<Rightarrow> bytes decoded" where
  "decoder_take field len d =
    (let e = cd_offset d + len in
     if e \<ge> 2 ^ 64 then Err (FieldTooLarge field)
     else if e > length (cd_bytes d) then Err (Truncated field)
     else Ok (take len (drop (cd_offset d) (cd_bytes d)), d\<lparr>cd_offset := e\<rparr>))"

definition decoder_u8 :: "string \<Rightarrow> card_decoder \<Rightarrow> u8 decoded" where
  "decoder_u8 field d =
    bind_res (decoder_take field 1 d)
      (\<lambda>(bs, d). case bs of b # _ \<Rightarrow> Ok (b, d) | [] \<Rightarrow> Panic)"

definition decoder_array :: "string \<Rightarrow> nat \<Rightarrow> card_decoder \<Rightarrow> bytes decoded" where
  "decoder_array field n d =
    bind_res (decoder_take field n d)
      (\<lambda>(bs, d). if length bs = n then Ok (bs, d) else Err (Truncated field))"

definition decoder_u32 :: "string \<Rightarrow> card_decoder \<Rightarrow> u32 decoded" where
  "decoder_u32 field d = map_ok (\<lambda>(bs, d). (u32_of_be bs, d)) (decoder_array field 4 d)"

definition decoder_bytes :: "string \<Rightarrow> card_decoder \<Rightarrow> bytes decoded" where
  "decoder_bytes field d =
    bind_res (decoder_u32 field d) (\<lambda>(len, d). decoder_take field (unat len) d)"

definition decoder_version :: "card_decoder \<Rightarrow> unit decoded" where
  "decoder_version d =
    bind_res (decoder_u8 ''version'' d)
      (\<lambda>(v, d). if v \<noteq> PEER_CARD_RECORD_VERSION then Err CardUnsupportedVersion else Ok ((), d))"

definition decoder_finish :: "card_decoder \<Rightarrow> (peer_card_error, unit) res" where
  "decoder_finish d = (if cd_offset d = length (cd_bytes d) then Ok () else Err TrailingBytes)"

definition decoder_string :: "string \<Rightarrow> card_decoder \<Rightarrow> string decoded" where
  "decoder_string field d =
    bind_res (decoder_bytes field d)
      (\<lambda>(bs, d). bind_res (ok_or (InvalidUtf8 field) (from_utf8 bs)) (\<lambda>s. Ok (s, d)))"

fun read_many :: "(card_decoder \<Rightarrow> 'a decoded) \<Rightarrow> nat \<Rightarrow> card_decoder \<Rightarrow> 'a list decoded" where
  "read_many f 0 d = Ok ([], d)"
| "read_many f (Suc n) d =
    bind_res (f d) (\<lambda>(x, d). bind_res (read_many f n d) (\<lambda>(xs, d). Ok (x # xs, d)))"

definition read_string_list :: "string \<Rightarrow> card_decoder \<Rightarrow> string list decoded" where
  "read_string_list field d =
    bind_res (decoder_u32 field d) (\<lambda>(count, d). read_many (decoder_string field) (unat count) d)"

definition read_endpoint ::
  "'z peer_env_scheme \<Rightarrow> card_decoder \<Rightarrow> iroh_endpoint_addr option decoded" where
  "read_endpoint P d =
    bind_res (decoder_u8 ''iroh endpoint flag'' d) (\<lambda>(flag, d).
      if flag = 0 then Ok (None, d)
      else if flag = 1 then
        bind_res (decoder_array ''iroh endpoint id'' 32 d) (\<lambda>(endpoint_id, d).
        bind_res (read_string_list ''relay url'' d) (\<lambda>(raws, d).
        bind_res (traverse (\<lambda>raw. ok_or InvalidRelayUrl (url_parse P raw)) raws) (\<lambda>relay_urls.
        bind_res (read_string_list ''direct address'' d) (\<lambda>(raws, d).
        bind_res (traverse (\<lambda>raw. ok_or InvalidDirectAddr (addr_parse P raw)) raws) (\<lambda>direct_addrs.
          Ok (Some \<lparr> ea_endpoint_id = endpoint_id, ea_relay_urls = relay_urls,
                     ea_direct_addrs = direct_addrs \<rparr>, d))))))
      else Err InvalidIrohEndpoint)"

definition card_from_bytes :: "'z peer_env_scheme \<Rightarrow> bytes \<Rightarrow> (peer_card_error, peer_card) res" where
  "card_from_bytes P bs =
    bind_res (decoder_version (decoder_new bs)) (\<lambda>(_, d).
    bind_res (decoder_array ''peer id'' 32 d) (\<lambda>(peer_id, d).
    bind_res (decoder_array ''signing key'' 32 d) (\<lambda>(signing_key, d).
    bind_res (if ed_valid P signing_key then Ok () else Err InvalidSigningKey) (\<lambda>_.
    bind_res (decoder_array ''exchange key'' 32 d) (\<lambda>(exchange_key, d).
    bind_res (read_endpoint P d) (\<lambda>(iroh_endpoint, d).
    bind_res (decoder_finish d) (\<lambda>_.
      let card = \<lparr> card_peer_id = peer_id, card_signing_key = signing_key,
                   card_exchange_key = exchange_key, card_iroh_endpoint = iroh_endpoint \<rparr> in
      bind_res (card_validate P card) (\<lambda>_. Ok card))))))))"

section \<open>Text form\<close>

definition PEER_CARD_EXPORT_PREFIX :: string where
  "PEER_CARD_EXPORT_PREFIX = ''enlace-peer-card-v1:''"

definition strip_prefix :: "string \<Rightarrow> string \<Rightarrow> string option" where
  "strip_prefix p s = (if take (length p) s = p then Some (drop (length p) s) else None)"

definition export_string :: "'z peer_env_scheme \<Rightarrow> peer_card \<Rightarrow> ('e, string) res" where
  "export_string P c = map_ok (\<lambda>bs. PEER_CARD_EXPORT_PREFIX @ b64_encode P bs) (card_to_bytes c)"

definition import_string :: "'z peer_env_scheme \<Rightarrow> string \<Rightarrow> (peer_card_error, peer_card) res" where
  "import_string P exported =
    bind_res (ok_or MissingPrefix (strip_prefix PEER_CARD_EXPORT_PREFIX exported)) (\<lambda>encoded.
    bind_res (ok_or InvalidEncoding (b64_decode P encoded)) (\<lambda>bs. card_from_bytes P bs))"

section \<open>Self-delimiting fields\<close>

text \<open>A decoder that has consumed \<open>pre\<close> and still has \<open>rest\<close> to read.\<close>

definition decoder_at :: "bytes \<Rightarrow> bytes \<Rightarrow> card_decoder" where
  "decoder_at pre rest = \<lparr> cd_bytes = pre @ rest, cd_offset = length pre \<rparr>"

definition fits :: "bytes \<Rightarrow> bytes \<Rightarrow> bool" where
  "fits pre rest \<longleftrightarrow> length pre + length rest < 2 ^ 64"

lemma fits_shift [simp]: "fits pre (x @ rest) \<longleftrightarrow> fits (pre @ x) rest"
  by (simp add: fits_def add.assoc)

lemma fits_Cons [simp]: "fits pre (b # rest) \<longleftrightarrow> fits (pre @ [b]) rest"
  by (simp add: fits_def)

lemma decoder_new_at: "decoder_new bs = decoder_at [] bs"
  by (simp add: decoder_new_def decoder_at_def)

lemma decoder_finish_at [simp]: "decoder_finish (decoder_at pre []) = Ok ()"
  by (simp add: decoder_finish_def decoder_at_def)

lemma decoder_take_at:
  "length x = n \<Longrightarrow> fits (pre @ x) rest \<Longrightarrow>
    decoder_take field n (decoder_at pre (x @ rest)) = Ok (x, decoder_at (pre @ x) rest)"
  by (simp add: decoder_take_def decoder_at_def fits_def)

text \<open>
  The contract of a field: reading back an encoded value returns it and stops right after it,
  whatever precedes and follows. Sequences of such fields then read back element by element.
\<close>

locale card_field =
  fixes wf :: "'a \<Rightarrow> bool"
    and enc :: "'a \<Rightarrow> bytes"
    and dec :: "card_decoder \<Rightarrow> 'a decoded"
  assumes dec_enc: "wf x \<Longrightarrow> fits (pre @ enc x) rest \<Longrightarrow>
    dec (decoder_at pre (enc x @ rest)) = Ok (x, decoder_at (pre @ enc x) rest)"
begin

lemma read_many_enc:
  "list_all wf xs \<Longrightarrow> fits (pre @ concat (map enc xs)) rest \<Longrightarrow> n = length xs \<Longrightarrow>
    read_many dec n (decoder_at pre (concat (map enc xs) @ rest)) =
      Ok (xs, decoder_at (pre @ concat (map enc xs)) rest)"
proof (induction xs arbitrary: pre n)
  case (Cons x xs)
  then have "dec (decoder_at pre (enc x @ (concat (map enc xs) @ rest))) =
      Ok (x, decoder_at (pre @ enc x) (concat (map enc xs) @ rest))"
    by (intro dec_enc) auto
  then show ?case using Cons by simp
qed simp

end

interpretation array_field: card_field "\<lambda>x. length x = n" "\<lambda>x. x" "decoder_array field n" for field n
  by unfold_locales (simp add: decoder_array_def decoder_take_at)

interpretation u8_field: card_field "\<lambda>_. True" "\<lambda>b. [b]" "decoder_u8 field" for field
proof
  fix x :: u8 and pre rest
  assume "fits (pre @ [x]) rest"
  then show "decoder_u8 field (decoder_at pre ([x] @ rest)) = Ok (x, decoder_at (pre @ [x]) rest)"
    unfolding decoder_u8_def by (subst decoder_take_at) auto
qed

interpretation u32_field: card_field "\<lambda>_. True" u32_be "decoder_u32 field" for field
  by unfold_locales (simp add: decoder_u32_def array_field.dec_enc)

definition bytes_enc :: "bytes \<Rightarrow> bytes" where
  "bytes_enc bs = u32_be (of_nat (length bs)) @ bs"

lemma unat_of_nat_u32: "n < 2 ^ 32 \<Longrightarrow> unat (of_nat n :: u32) = n"
  by (simp add: unat_of_nat)

interpretation bytes_field: card_field "\<lambda>bs. length bs < 2 ^ 32" bytes_enc "decoder_bytes field" for field
proof
  fix bs pre rest :: bytes
  assume *: "length bs < 2 ^ 32" "fits (pre @ bytes_enc bs) rest"
  have "decoder_u32 field (decoder_at pre (u32_be (of_nat (length bs)) @ (bs @ rest))) =
      Ok (of_nat (length bs), decoder_at (pre @ u32_be (of_nat (length bs))) (bs @ rest))"
    using *(2) by (intro u32_field.dec_enc) (auto simp: bytes_enc_def)
  then show "decoder_bytes field (decoder_at pre (bytes_enc bs @ rest)) =
      Ok (bs, decoder_at (pre @ bytes_enc bs) rest)"
    using * by (simp add: decoder_bytes_def bytes_enc_def unat_of_nat_u32 decoder_take_at)
qed

definition text_ok :: "string \<Rightarrow> bool" where
  "text_ok s \<longleftrightarrow> str_ok s \<and> length s < 2 ^ 32"

interpretation string_field: card_field text_ok "\<lambda>s. bytes_enc (str_bytes s)" "decoder_string field"
  for field
  by unfold_locales (simp add: decoder_string_def text_ok_def bytes_field.dec_enc)

definition strings_enc :: "string list \<Rightarrow> bytes" where
  "strings_enc vs = u32_be (of_nat (length vs)) @ concat (map (\<lambda>s. bytes_enc (str_bytes s)) vs)"

definition texts_ok :: "string list \<Rightarrow> bool" where
  "texts_ok vs \<longleftrightarrow> list_all text_ok vs \<and> length vs < 2 ^ 32"

interpretation strings_field: card_field texts_ok strings_enc "read_string_list field" for field
proof
  fix vs and pre rest :: bytes
  assume *: "texts_ok vs" "fits (pre @ strings_enc vs) rest"
  let ?body = "concat (map (\<lambda>s. bytes_enc (str_bytes s)) vs)" and ?n = "of_nat (length vs) :: u32"
  have "decoder_u32 field (decoder_at pre (u32_be ?n @ (?body @ rest))) =
      Ok (?n, decoder_at (pre @ u32_be ?n) (?body @ rest))"
    using *(2) by (intro u32_field.dec_enc) (auto simp: strings_enc_def)
  moreover have "read_many (decoder_string field) (unat ?n) (decoder_at (pre @ u32_be ?n) (?body @ rest)) =
      Ok (vs, decoder_at ((pre @ u32_be ?n) @ ?body) rest)"
    using * by (intro string_field.read_many_enc) (auto simp: texts_ok_def unat_of_nat_u32 strings_enc_def)
  ultimately show "read_string_list field (decoder_at pre (strings_enc vs @ rest)) =
      Ok (vs, decoder_at (pre @ strings_enc vs) rest)"
    by (simp add: read_string_list_def strings_enc_def)
qed

section \<open>Encoders\<close>

lemma write_bytes_eq: "length bs < 2 ^ 32 \<Longrightarrow> write_bytes out bs = Ok (out @ bytes_enc bs)"
  by (simp add: write_bytes_def u32_try_from_def bytes_enc_def)

lemma write_strings_eq:
  "list_all text_ok vs \<Longrightarrow> n + length vs < 2 ^ 32 \<Longrightarrow>
    write_strings vs (of_nat n) out =
      Ok (out @ concat (map (\<lambda>s. bytes_enc (str_bytes s)) vs), of_nat (n + length vs))"
proof (induction vs arbitrary: n out)
  case (Cons v vs)
  have "unat (of_nat n :: u32) \<noteq> unat (- 1 :: u32)"
    using Cons.prems(2) by (simp add: unat_of_nat_u32 unsigned_minus_1_eq_mask mask_eq_exp_minus_1)
  then have "(of_nat n :: u32) \<noteq> - 1" by auto
  then show ?case
    using Cons.prems Cons.IH[of "Suc n"]
    by (auto simp: write_bytes_eq text_ok_def add.commute)
qed simp

lemma write_string_list_eq:
  "texts_ok vs \<Longrightarrow> write_string_list out vs = Ok (out @ strings_enc vs)"
  by (simp add: write_string_list_def texts_ok_def strings_enc_def Let_def
      write_strings_eq[of vs 0, simplified])

text \<open>What a \<open>Url\<close>, a \<open>SocketAddr\<close> and the fixed-size arrays of a card guarantee by type.\<close>

definition endpoint_wf :: "'z peer_env_scheme \<Rightarrow> iroh_endpoint_addr \<Rightarrow> bool" where
  "endpoint_wf P e \<longleftrightarrow>
    length (ea_endpoint_id e) = 32 \<and>
    texts_ok (ea_relay_urls e) \<and> list_all (\<lambda>u. url_parse P u = Some u) (ea_relay_urls e) \<and>
    texts_ok (ea_direct_addrs e) \<and> list_all (\<lambda>a. addr_parse P a = Some a) (ea_direct_addrs e)"

definition card_wf :: "'z peer_env_scheme \<Rightarrow> peer_card \<Rightarrow> bool" where
  "card_wf P c \<longleftrightarrow>
    length (card_peer_id c) = 32 \<and> length (card_signing_key c) = 32 \<and>
    ed_valid P (card_signing_key c) \<and> length (card_exchange_key c) = 32 \<and>
    (case card_iroh_endpoint c of None \<Rightarrow> True | Some e \<Rightarrow> endpoint_wf P e)"

definition endpoint_enc :: "iroh_endpoint_addr option \<Rightarrow> bytes" where
  "endpoint_enc endpoint =
    (case endpoint of
       None \<Rightarrow> [0]
     | Some e \<Rightarrow> [1] @ ea_endpoint_id e @ strings_enc (ea_relay_urls e)
                 @ strings_enc (ea_direct_addrs e))"

definition card_enc :: "peer_card \<Rightarrow> bytes" where
  "card_enc c =
    [PEER_CARD_RECORD_VERSION] @ card_peer_id c @ card_signing_key c @ card_exchange_key c
      @ endpoint_enc (card_iroh_endpoint c)"

lemma card_to_bytes_eq: "card_wf P c \<Longrightarrow> card_to_bytes c = Ok (card_enc c)"
  by (simp add: card_to_bytes_def write_endpoint_def card_wf_def endpoint_wf_def card_enc_def
      endpoint_enc_def write_string_list_eq split: option.splits)

lemma traverse_parse:
  "list_all (\<lambda>u. parse u = Some u) us \<Longrightarrow> traverse (\<lambda>raw. ok_or e (parse raw)) us = Ok us"
  by (induction us) auto

interpretation endpoint_field: card_field "\<lambda>e. case e of None \<Rightarrow> True | Some a \<Rightarrow> endpoint_wf P a"
    endpoint_enc "read_endpoint P" for P
proof
  fix e and pre rest :: bytes
  assume *: "case e of None \<Rightarrow> True | Some a \<Rightarrow> endpoint_wf P a" "fits (pre @ endpoint_enc e) rest"
  show "read_endpoint P (decoder_at pre (endpoint_enc e @ rest)) =
      Ok (e, decoder_at (pre @ endpoint_enc e) rest)"
  proof (cases e)
    case None
    then show ?thesis
      using * u8_field.dec_enc[of pre 0 rest] by (simp add: read_endpoint_def endpoint_enc_def)
  next
    case (Some a)
    let ?us = "strings_enc (ea_relay_urls a)" and ?ds = "strings_enc (ea_direct_addrs a)"
    have wf: "length (ea_endpoint_id a) = 32" "texts_ok (ea_relay_urls a)" "texts_ok (ea_direct_addrs a)"
      "list_all (\<lambda>u. url_parse P u = Some u) (ea_relay_urls a)"
      "list_all (\<lambda>u. addr_parse P u = Some u) (ea_direct_addrs a)"
      using *(1) Some by (auto simp: endpoint_wf_def)
    have fits: "fits ((((pre @ [1]) @ ea_endpoint_id a) @ ?us) @ ?ds) rest"
      using *(2) Some by (simp add: endpoint_enc_def)
    have flag: "decoder_u8 f (decoder_at pre (1 # ea_endpoint_id a @ ?us @ ?ds @ rest)) =
        Ok (1, decoder_at (pre @ [1]) (ea_endpoint_id a @ ?us @ ?ds @ rest))" for f
      using u8_field.dec_enc[of pre 1 "ea_endpoint_id a @ ?us @ ?ds @ rest" f] fits by simp
    have eid: "decoder_array f 32 (decoder_at (pre @ [1]) (ea_endpoint_id a @ ?us @ ?ds @ rest)) =
        Ok (ea_endpoint_id a, decoder_at ((pre @ [1]) @ ea_endpoint_id a) (?us @ ?ds @ rest))" for f
      using fits by (intro array_field.dec_enc wf) simp
    have us: "read_string_list f (decoder_at ((pre @ [1]) @ ea_endpoint_id a) (?us @ ?ds @ rest)) =
        Ok (ea_relay_urls a, decoder_at (((pre @ [1]) @ ea_endpoint_id a) @ ?us) (?ds @ rest))" for f
      using fits by (intro strings_field.dec_enc wf) simp
    have ds: "read_string_list f (decoder_at (((pre @ [1]) @ ea_endpoint_id a) @ ?us) (?ds @ rest)) =
        Ok (ea_direct_addrs a, decoder_at ((((pre @ [1]) @ ea_endpoint_id a) @ ?us) @ ?ds) rest)" for f
      using fits by (intro strings_field.dec_enc wf) simp
    from flag eid us ds wf show ?thesis
      by (simp add: read_endpoint_def endpoint_enc_def Some traverse_parse)
  qed
qed

lemma card_eta [simp]:
  "\<lparr> card_peer_id = card_peer_id c, card_signing_key = card_signing_key c,
     card_exchange_key = card_exchange_key c, card_iroh_endpoint = card_iroh_endpoint c \<rparr> = c"
  by (cases c) simp

lemma card_from_bytes_enc:
  assumes "card_wf P c" "card_validate P c = Ok ()" "length (card_enc c) < 2 ^ 64"
  shows "card_from_bytes P (card_enc c) = Ok c"
proof -
  let ?v = "[PEER_CARD_RECORD_VERSION]" and ?p = "card_peer_id c" and ?s = "card_signing_key c"
    and ?x = "card_exchange_key c" and ?e = "endpoint_enc (card_iroh_endpoint c)"
  have wf: "length ?p = 32" "length ?s = 32" "length ?x = 32" "ed_valid P ?s"
    "case card_iroh_endpoint c of None \<Rightarrow> True | Some a \<Rightarrow> endpoint_wf P a"
    using assms(1) by (auto simp: card_wf_def)
  have fits: "fits (((?v @ ?p) @ ?s) @ ?x) (?e @ [])"
    using assms(3) by (simp add: card_enc_def fits_def)
  have "decoder_version (decoder_at [] (?v @ ?p @ ?s @ ?x @ ?e)) =
      Ok ((), decoder_at ?v (?p @ ?s @ ?x @ ?e))"
    unfolding decoder_version_def using fits by (subst u8_field.dec_enc) auto
  moreover have "decoder_array f 32 (decoder_at ?v (?p @ ?s @ ?x @ ?e)) =
      Ok (?p, decoder_at (?v @ ?p) (?s @ ?x @ ?e))" for f
    using fits by (intro array_field.dec_enc wf) simp
  moreover have "decoder_array f 32 (decoder_at (?v @ ?p) (?s @ ?x @ ?e)) =
      Ok (?s, decoder_at ((?v @ ?p) @ ?s) (?x @ ?e))" for f
    using fits by (intro array_field.dec_enc wf) simp
  moreover have "decoder_array f 32 (decoder_at ((?v @ ?p) @ ?s) (?x @ ?e)) =
      Ok (?x, decoder_at (((?v @ ?p) @ ?s) @ ?x) ?e)" for f
    using fits by (intro array_field.dec_enc wf) simp
  moreover have "read_endpoint P (decoder_at (((?v @ ?p) @ ?s) @ ?x) (?e @ [])) =
      Ok (card_iroh_endpoint c, decoder_at ((((?v @ ?p) @ ?s) @ ?x) @ ?e) [])"
    using fits by (intro endpoint_field.dec_enc wf) (simp add: fits_def)
  ultimately show ?thesis
    using assms(2) wf(4) by (simp add: card_from_bytes_def decoder_new_at card_enc_def)
qed

section \<open>Decoding never panics and yields consistent cards\<close>

lemma decoder_take_not_Panic [simp]: "decoder_take f n d \<noteq> Panic"
  by (simp add: decoder_take_def Let_def)

lemma decoder_u8_not_Panic [simp]: "decoder_u8 f d \<noteq> Panic"
  by (auto simp: decoder_u8_def decoder_take_def Let_def split: list.splits)

lemma decoder_array_not_Panic [simp]: "decoder_array f n d \<noteq> Panic"
  by (auto simp: decoder_array_def res_simps)

lemma decoder_u32_not_Panic [simp]: "decoder_u32 f d \<noteq> Panic"
  unfolding decoder_u32_def by (cases "decoder_array f 4 d") auto

lemma decoder_bytes_not_Panic [simp]: "decoder_bytes f d \<noteq> Panic"
  by (auto simp: decoder_bytes_def res_simps)

lemma decoder_string_not_Panic [simp]: "decoder_string f d \<noteq> Panic"
  by (auto simp: decoder_string_def res_simps)

lemma read_many_not_Panic: "(\<And>d. g d \<noteq> Panic) \<Longrightarrow> read_many g n d \<noteq> Panic"
  by (induction n arbitrary: d) (auto simp: res_simps)

lemma read_string_list_not_Panic [simp]: "read_string_list f d \<noteq> Panic"
  by (auto simp: read_string_list_def res_simps read_many_not_Panic)

lemma traverse_ok_or_not_Panic [simp]: "traverse (\<lambda>x. ok_or e (g x)) xs \<noteq> Panic"
  by (induction xs) (auto simp: res_simps)

lemma read_endpoint_not_Panic [simp]: "read_endpoint P d \<noteq> Panic"
  by (auto simp: read_endpoint_def res_simps)

lemma decoder_version_not_Panic [simp]: "decoder_version d \<noteq> Panic"
  by (auto simp: decoder_version_def res_simps)

lemma card_validate_not_Panic [simp]: "card_validate S c \<noteq> Panic"
  by (simp add: card_validate_def)

lemma decoder_finish_not_Panic [simp]: "decoder_finish d \<noteq> Panic"
  by (simp add: decoder_finish_def)

lemma card_from_bytes_not_Panic [simp]: "card_from_bytes P bs \<noteq> Panic"
  by (auto simp: card_from_bytes_def res_simps Let_def)

lemma decoder_array_length: "decoder_array f n d = Ok (bs, d') \<Longrightarrow> length bs = n"
  by (auto simp: decoder_array_def res_simps split: if_splits)

lemma card_from_bytes_sound:
  assumes "card_from_bytes P bs = Ok c"
  shows "card_validate P c = Ok ()" "ed_valid P (card_signing_key c)"
    "length (card_peer_id c) = 32" "length (card_signing_key c) = 32" "length (card_exchange_key c) = 32"
  using assms
  by (auto simp: card_from_bytes_def res_simps Let_def dest: decoder_array_length split: if_splits)

lemma card_validate_new: 
  "card_validate S (card_new S sk ek ep) =
    (if list_all (\<lambda>b. b = 0) ek then Err EmptyExchangeKey
     else if (case ep of None \<Rightarrow> False | Some e \<Rightarrow> list_all (\<lambda>b. b = 0) (ea_endpoint_id e))
     then Err InvalidIrohEndpoint else Ok ())"
  by (simp add: card_validate_def card_new_def card_is_consistent_def)

lemma strip_prefix_append [simp]: "strip_prefix p (p @ s) = Some s"
  by (simp add: strip_prefix_def)

section \<open>Properties\<close>

text \<open>A concrete environment, used to exhibit instances of the properties.\<close>

definition plain_env :: peer_env where
  "plain_env =
    suite.extend plain_suite
      \<lparr> url_parse = (\<lambda>s. Some s), addr_parse = (\<lambda>s. Some s), b64_encode = bytes_str,
        b64_decode = (\<lambda>s. Some (str_bytes s)) \<rparr>"

lemma plain_env_sel [simp]:
  "hkdf_expand plain_env = hkdf_expand plain_suite" "sha256 plain_env = sha256 plain_suite"
  "aead_encrypt plain_env = aead_encrypt plain_suite" "aead_decrypt plain_env = aead_decrypt plain_suite"
  "ed_public plain_env = ed_public plain_suite" "ed_valid plain_env = ed_valid plain_suite"
  "ed_sign plain_env = ed_sign plain_suite" "ed_verify plain_env = ed_verify plain_suite"
  "x_public plain_env = x_public plain_suite" "x_dh plain_env = x_dh plain_suite"
  "url_parse plain_env = (\<lambda>s. Some s)" "addr_parse plain_env = (\<lambda>s. Some s)"
  "b64_encode plain_env = bytes_str" "b64_decode plain_env = (\<lambda>s. Some (str_bytes s))"
  by (simp_all add: plain_env_def suite.defs plain_suite_def)

lemma plain_env_ok [simp]:
  "hkdf_ok plain_env" "aead_ok plain_env" "aead_auth plain_env" "ed_ok plain_env" "dh_ok plain_env"
  "b64_ok plain_env"
  using plain_suite_hkdf plain_suite_aead plain_suite_auth plain_suite_ed plain_suite_dh
  by (simp_all add: hkdf_ok_def aead_ok_def aead_auth_def ed_ok_def dh_ok_def b64_ok_def)

definition sample_card :: peer_card where
  "sample_card =
    card_new plain_suite (replicate 32 7) (replicate 32 9)
      (Some \<lparr> ea_endpoint_id = replicate 32 5, ea_relay_urls = [''https://r''],
              ea_direct_addrs = [''192.0.2.1:1''] \<rparr>)"

text \<open>
  Importing an exported card gives the card back: for every card whose fields have the sizes
  and the text their Rust types guarantee and that passes validation, the exporter does not panic
  and the importer, with all its bounds checks, returns the same card.
\<close>

theorem import_export:
  assumes "b64_ok P" "card_wf P c" "card_validate P c = Ok ()" "length (card_enc c) < 2 ^ 64"
  shows "\<exists>s. export_string P c = (Ok s :: (unit, string) res) \<and> import_string P s = Ok c"
  using card_from_bytes_enc[OF assms(2-4)] assms(1)
  by (simp add: export_string_def import_string_def b64_ok_def card_to_bytes_eq[OF assms(2)])

theorem import_export_witness:
  "b64_ok plain_env \<and> card_wf plain_env sample_card \<and> card_validate plain_env sample_card = Ok () \<and>
    length (card_enc sample_card) < 2 ^ 64 \<and>
    (\<exists>s. export_string plain_env sample_card = (Ok s :: (unit, string) res) \<and>
       import_string plain_env s = Ok sample_card)"
proof -
  have 1: "card_wf plain_env sample_card"
    by (simp add: card_wf_def sample_card_def card_new_def peer_id_from_signing_key_def plain_suite_def
        endpoint_wf_def texts_ok_def text_ok_def str_ok_def str_bytes_def in_range_def)
  have 2: "card_validate plain_env sample_card = Ok ()"
    by (simp add: card_validate_def sample_card_def card_new_def card_is_consistent_def
        peer_id_from_signing_key_def list_all_iff)
  have 3: "length (card_enc sample_card) < 2 ^ 64"
    by (simp add: card_enc_def sample_card_def card_new_def endpoint_enc_def strings_enc_def
        bytes_enc_def peer_id_from_signing_key_def plain_suite_def)
  show ?thesis using 1 2 3 import_export[OF plain_env_ok(6) 1 2 3] by simp
qed

text \<open>
  The card decoder is total on arbitrary input: it never panics, and every card it accepts
  has a valid signing key, full-length fields, an identifier equal to the hash of that key, a
  non-zero exchange key and a non-zero endpoint id.
\<close>

theorem from_bytes_total_and_consistent:
  "card_from_bytes P bs \<noteq> Panic \<and>
    (case card_from_bytes P bs of
       Ok c \<Rightarrow> card_validate P c = Ok () \<and> ed_valid P (card_signing_key c) \<and>
         card_peer_id c = sha256 P (str_bytes ''enlace/v1/pkey/peer-id'' @ card_signing_key c) \<and>
         length (card_signing_key c) = 32 \<and> length (card_exchange_key c) = 32 \<and>
         card_exchange_key c \<noteq> replicate 32 0
     | _ \<Rightarrow> True)"
proof (cases "card_from_bytes P bs")
  case (Ok c)
  note sound = card_from_bytes_sound[OF Ok]
  then have "card_is_consistent P c" "\<not> list_all (\<lambda>b. b = 0) (card_exchange_key c)"
    by (auto simp: card_validate_def split: if_splits)
  then show ?thesis
    using Ok sound by (auto simp: card_is_consistent_def peer_id_from_signing_key_def list_all_iff)
qed auto

end
