(* ===== verification/State.thy ===== *)
theory State
  imports PeerCard "HOL-Library.Char_ord"
begin

text \<open>
  \<open>crates/enlace/src/state.rs\<close>: the tables kept by an endpoint, the \<open>StateStore\<close> trait as a record
  of operations, the in-memory store, the snapshot format and the file store with its
  write-temporary-then-rename flush. The file system is a map from paths to contents whose
  operations may fail by a script; the msgpack codec of snapshots is a field of \<open>state_env\<close>.
\<close>

section \<open>Tables\<close>

record stored_peer_identity =
  spi_signing :: bytes
  spi_exchange :: bytes
  spi_iroh_secret :: "bytes option"

definition stored_from_identity :: "peer_identity \<Rightarrow> stored_peer_identity" where
  "stored_from_identity i =
    \<lparr> spi_signing = id_signing i, spi_exchange = id_exchange i, spi_iroh_secret = id_iroh_secret i \<rparr>"

definition stored_to_identity :: "stored_peer_identity \<Rightarrow> peer_identity" where
  "stored_to_identity s = identity_from_parts (spi_signing s) (spi_exchange s) (spi_iroh_secret s)"

record inner =
  in_local_slot_versions :: "(string \<times> u64) list"
  in_last_seen_slot_versions :: "(string \<times> u64) list"
  in_iroh_keypair :: "bytes option"
  in_peer_identity :: "stored_peer_identity option"
  in_trusted_peers :: "(bytes \<times> trusted_peer) list"
  in_group_keys :: "((bytes \<times> bytes) \<times> group_key) list"

definition inner_default :: inner where
  "inner_default =
    \<lparr> in_local_slot_versions = [], in_last_seen_slot_versions = [], in_iroh_keypair = None,
      in_peer_identity = None, in_trusted_peers = [], in_group_keys = [] \<rparr>"

definition unwrap_or :: "'a \<Rightarrow> 'a option \<Rightarrow> 'a" where
  "unwrap_or d v = (case v of None \<Rightarrow> d | Some x \<Rightarrow> x)"

text \<open>The entry is created before the addition is checked, so it is there after a panic too.\<close>

definition inner_next_local_slot_version :: "inner \<Rightarrow> string \<Rightarrow> inner \<times> ('e, u64) res" where
  "inner_next_local_slot_version i slot =
    (let observed = unwrap_or 0 (hm_get (in_last_seen_slot_versions i) slot);
         entry = unwrap_or 0 (hm_get (in_local_slot_versions i) slot);
         i1 = i\<lparr>in_local_slot_versions := hm_insert slot entry (in_local_slot_versions i)\<rparr>;
         floor = max entry observed
     in case checked_add1 floor of
          None \<Rightarrow> (i1, Panic)
        | Some next \<Rightarrow>
            (i1\<lparr>in_local_slot_versions := hm_insert slot next (in_local_slot_versions i1)\<rparr>, Ok next))"

definition inner_last_seen_slot_version :: "inner \<Rightarrow> string \<Rightarrow> u64 option" where
  "inner_last_seen_slot_version i slot = hm_get (in_last_seen_slot_versions i) slot"

definition inner_record_seen_slot_version :: "inner \<Rightarrow> string \<Rightarrow> u64 \<Rightarrow> inner \<times> bool" where
  "inner_record_seen_slot_version i slot version =
    (let advance =
       (i\<lparr>in_last_seen_slot_versions := hm_insert slot version (in_last_seen_slot_versions i)\<rparr>, True)
     in case hm_get (in_last_seen_slot_versions i) slot of
          Some current \<Rightarrow> if version \<le> current then (i, False) else advance
        | None \<Rightarrow> advance)"

definition inner_store_iroh_keypair :: "inner \<Rightarrow> bytes \<Rightarrow> inner" where
  "inner_store_iroh_keypair i secret = i\<lparr>in_iroh_keypair := Some secret\<rparr>"

definition inner_peer_identity :: "inner \<Rightarrow> peer_identity option" where
  "inner_peer_identity i = map_option stored_to_identity (in_peer_identity i)"

definition inner_store_peer_identity :: "inner \<Rightarrow> peer_identity \<Rightarrow> inner" where
  "inner_store_peer_identity i identity = i\<lparr>in_peer_identity := Some (stored_from_identity identity)\<rparr>"

definition inner_trusted_peer :: "inner \<Rightarrow> bytes \<Rightarrow> trusted_peer option" where
  "inner_trusted_peer i peer_id = hm_get (in_trusted_peers i) peer_id"

definition inner_trusted_peers :: "inner \<Rightarrow> trusted_peer list" where
  "inner_trusted_peers i = map snd (in_trusted_peers i)"

definition inner_store_trusted_peer :: "inner \<Rightarrow> trusted_peer \<Rightarrow> inner" where
  "inner_store_trusted_peer i peer =
    i\<lparr>in_trusted_peers := hm_insert (trusted_peer_id peer) peer (in_trusted_peers i)\<rparr>"

definition inner_remove_trusted_peer :: "inner \<Rightarrow> bytes \<Rightarrow> inner \<times> bool" where
  "inner_remove_trusted_peer i peer_id =
    (i\<lparr>in_trusted_peers := hm_remove peer_id (in_trusted_peers i)\<rparr>,
     hm_get (in_trusted_peers i) peer_id \<noteq> None)"

definition inner_group_keys :: "inner \<Rightarrow> bytes \<Rightarrow> group_key list" where
  "inner_group_keys i grp =
    map snd (filter (\<lambda>((candidate, _), _). candidate = grp) (in_group_keys i))"

definition inner_store_group_key :: "inner \<Rightarrow> bytes \<Rightarrow> group_key \<Rightarrow> inner" where
  "inner_store_group_key i grp key =
    i\<lparr>in_group_keys := hm_insert (grp, gk_id key) key (in_group_keys i)\<rparr>"

definition inner_remove_group_key :: "inner \<Rightarrow> bytes \<Rightarrow> bytes \<Rightarrow> inner \<times> bool" where
  "inner_remove_group_key i grp key_id =
    (i\<lparr>in_group_keys := hm_remove (grp, key_id) (in_group_keys i)\<rparr>,
     hm_get (in_group_keys i) (grp, key_id) \<noteq> None)"

section \<open>The store trait\<close>

record 'st state_store =
  ss_next_local_slot_version :: "'st \<Rightarrow> string \<Rightarrow> 'st \<times> (state_error, u64) res"
  ss_last_seen_slot_version :: "'st \<Rightarrow> string \<Rightarrow> (state_error, u64 option) res"
  ss_record_seen_slot_version :: "'st \<Rightarrow> string \<Rightarrow> u64 \<Rightarrow> 'st \<times> (state_error, unit) res"
  ss_iroh_keypair :: "'st \<Rightarrow> (state_error, bytes option) res"
  ss_store_iroh_keypair :: "'st \<Rightarrow> bytes \<Rightarrow> 'st \<times> (state_error, unit) res"
  ss_peer_identity :: "'st \<Rightarrow> (state_error, peer_identity option) res"
  ss_store_peer_identity :: "'st \<Rightarrow> peer_identity \<Rightarrow> 'st \<times> (state_error, unit) res"
  ss_trusted_peer :: "'st \<Rightarrow> bytes \<Rightarrow> (state_error, trusted_peer option) res"
  ss_trusted_peers :: "'st \<Rightarrow> (state_error, trusted_peer list) res"
  ss_store_trusted_peer :: "'st \<Rightarrow> trusted_peer \<Rightarrow> 'st \<times> (state_error, unit) res"
  ss_remove_trusted_peer :: "'st \<Rightarrow> bytes \<Rightarrow> 'st \<times> (state_error, unit) res"
  ss_group_keys :: "'st \<Rightarrow> bytes \<Rightarrow> (state_error, group_key list) res"
  ss_store_group_key :: "'st \<Rightarrow> bytes \<Rightarrow> group_key \<Rightarrow> 'st \<times> (state_error, unit) res"
  ss_remove_group_key :: "'st \<Rightarrow> bytes \<Rightarrow> bytes \<Rightarrow> 'st \<times> (state_error, unit) res"

definition unsupported_state :: "string \<Rightarrow> state_error" where
  "unsupported_state what = StateUnsupported (what @ '' storage'')"

text \<open>The default methods of the trait: a store that only keeps slot versions and the keypair.\<close>

definition with_trait_defaults :: "'st state_store \<Rightarrow> 'st state_store" where
  "with_trait_defaults s = s\<lparr>
     ss_peer_identity := (\<lambda>st. Err (unsupported_state ''peer identity'')),
     ss_store_peer_identity := (\<lambda>st i. (st, Err (unsupported_state ''peer identity''))),
     ss_trusted_peer := (\<lambda>st p. Err (unsupported_state ''trusted peer'')),
     ss_trusted_peers := (\<lambda>st. Err (unsupported_state ''trusted peer'')),
     ss_store_trusted_peer := (\<lambda>st p. (st, Err (unsupported_state ''trusted peer''))),
     ss_remove_trusted_peer := (\<lambda>st p. (st, Err (unsupported_state ''trusted peer''))),
     ss_group_keys := (\<lambda>st g. Err (unsupported_state ''group key'')),
     ss_store_group_key := (\<lambda>st g k. (st, Err (unsupported_state ''group key''))),
     ss_remove_group_key := (\<lambda>st g k. (st, Err (unsupported_state ''group key'')))\<rparr>"

definition memory_store :: "inner state_store" where
  "memory_store =
    \<lparr> ss_next_local_slot_version = inner_next_local_slot_version,
      ss_last_seen_slot_version = (\<lambda>i slot. Ok (inner_last_seen_slot_version i slot)),
      ss_record_seen_slot_version =
        (\<lambda>i slot version. (fst (inner_record_seen_slot_version i slot version), Ok ())),
      ss_iroh_keypair = (\<lambda>i. Ok (in_iroh_keypair i)),
      ss_store_iroh_keypair = (\<lambda>i secret. (inner_store_iroh_keypair i secret, Ok ())),
      ss_peer_identity = (\<lambda>i. Ok (inner_peer_identity i)),
      ss_store_peer_identity = (\<lambda>i identity. (inner_store_peer_identity i identity, Ok ())),
      ss_trusted_peer = (\<lambda>i peer_id. Ok (inner_trusted_peer i peer_id)),
      ss_trusted_peers = (\<lambda>i. Ok (inner_trusted_peers i)),
      ss_store_trusted_peer = (\<lambda>i peer. (inner_store_trusted_peer i peer, Ok ())),
      ss_remove_trusted_peer = (\<lambda>i peer_id. (fst (inner_remove_trusted_peer i peer_id), Ok ())),
      ss_group_keys = (\<lambda>i grp. Ok (inner_group_keys i grp)),
      ss_store_group_key = (\<lambda>i grp key. (inner_store_group_key i grp key, Ok ())),
      ss_remove_group_key =
        (\<lambda>i grp key_id. (fst (inner_remove_group_key i grp key_id), Ok ())) \<rparr>"

text \<open>The validating entry point of the \<open>State\<close> handle, and the identity kept in a store.\<close>

definition state_trust_peer ::
  "'z suite_scheme \<Rightarrow> 'st state_store \<Rightarrow> 'st \<Rightarrow> peer_card \<Rightarrow> 'st \<times> (trust_error, trusted_peer) res" where
  "state_trust_peer S ops st pc =
    (case try_from_card S pc of
       Ok peer \<Rightarrow>
         (case ss_store_trusted_peer ops st peer of
            (st, r) \<Rightarrow> (st, bind_res (map_err TrustState r) (\<lambda>_. Ok peer)))
     | Err e \<Rightarrow> (st, Err (InvalidPeerCard e))
     | Panic \<Rightarrow> (st, Panic))"

definition load_or_generate ::
  "'st state_store \<Rightarrow> 'st \<Rightarrow> peer_identity \<Rightarrow> 'st \<times> (state_error, peer_identity) res" where
  "load_or_generate ops st fresh =
    (case ss_peer_identity ops st of
       Ok (Some identity) \<Rightarrow> (st, Ok identity)
     | Ok None \<Rightarrow>
         (case ss_store_peer_identity ops st fresh of (st, r) \<Rightarrow> (st, bind_res r (\<lambda>_. Ok fresh)))
     | Err e \<Rightarrow> (st, Err e)
     | Panic \<Rightarrow> (st, Panic))"

section \<open>Snapshots\<close>

record snapshot_iroh_endpoint =
  sie_endpoint_id :: bytes
  sie_relay_urls :: "string list"
  sie_direct_addrs :: "string list"

record snapshot_trusted_peer =
  stp_peer_id :: bytes
  stp_signing_key :: bytes
  stp_exchange_key :: bytes
  stp_iroh_endpoint :: "snapshot_iroh_endpoint option"

record snapshot_group_key =
  sgk_group :: bytes
  sgk_id :: bytes
  sgk_secret :: bytes

text \<open>A \<open>BTreeMap\<close> is its list of entries in key order.\<close>

record snapshot =
  sn_version :: u8
  sn_local_slot_versions :: "(string \<times> u64) list"
  sn_last_seen_slot_versions :: "(string \<times> u64) list"
  sn_iroh_keypair :: "bytes option"
  sn_peer_identity :: "stored_peer_identity option"
  sn_trusted_peers :: "snapshot_trusted_peer list"
  sn_group_keys :: "snapshot_group_key list"

record state_env = peer_env +
  snap_ser :: "snapshot \<Rightarrow> (string, bytes) res"
  snap_de :: "bytes \<Rightarrow> (string, snapshot) res"

definition SNAPSHOT_VERSION :: u8 where "SNAPSHOT_VERSION = 1"

definition snapshot_endpoint :: "iroh_endpoint_addr \<Rightarrow> snapshot_iroh_endpoint" where
  "snapshot_endpoint e =
    \<lparr> sie_endpoint_id = ea_endpoint_id e, sie_relay_urls = ea_relay_urls e,
      sie_direct_addrs = ea_direct_addrs e \<rparr>"

definition snapshot_peer :: "trusted_peer \<Rightarrow> snapshot_trusted_peer" where
  "snapshot_peer p =
    \<lparr> stp_peer_id = card_peer_id (tp_card p), stp_signing_key = card_signing_key (tp_card p),
      stp_exchange_key = card_exchange_key (tp_card p),
      stp_iroh_endpoint = map_option snapshot_endpoint (card_iroh_endpoint (tp_card p)) \<rparr>"

definition snapshot_from_inner :: "inner \<Rightarrow> snapshot" where
  "snapshot_from_inner i =
    \<lparr> sn_version = SNAPSHOT_VERSION,
      sn_local_slot_versions = sort_key fst (in_local_slot_versions i),
      sn_last_seen_slot_versions = sort_key fst (in_last_seen_slot_versions i),
      sn_iroh_keypair = in_iroh_keypair i,
      sn_peer_identity = in_peer_identity i,
      sn_trusted_peers = map (\<lambda>(_, p). snapshot_peer p) (in_trusted_peers i),
      sn_group_keys =
        map (\<lambda>((grp, _), key). \<lparr> sgk_group = grp, sgk_id = gk_id key, sgk_secret = gk_secret key \<rparr>)
          (in_group_keys i) \<rparr>"

definition restore_endpoint ::
  "'z peer_env_scheme \<Rightarrow> snapshot_iroh_endpoint \<Rightarrow> (state_error, iroh_endpoint_addr) res" where
  "restore_endpoint P e =
    bind_res (traverse (\<lambda>raw. ok_or (StateCorrupted ''trusted peer relay url invalid'')
        (url_parse P raw)) (sie_relay_urls e)) (\<lambda>relay_urls.
    bind_res (traverse (\<lambda>raw. ok_or (StateCorrupted ''trusted peer direct address invalid'')
        (addr_parse P raw)) (sie_direct_addrs e)) (\<lambda>direct_addrs.
      Ok \<lparr> ea_endpoint_id = sie_endpoint_id e, ea_relay_urls = relay_urls,
           ea_direct_addrs = direct_addrs \<rparr>))"

definition restore_peer ::
  "'z peer_env_scheme \<Rightarrow> snapshot_trusted_peer \<Rightarrow> (state_error, trusted_peer) res" where
  "restore_peer P sp =
    bind_res (if ed_valid P (stp_signing_key sp) then Ok ()
              else Err (StateCorrupted ''trusted peer signing key invalid'')) (\<lambda>_.
    bind_res (case stp_iroh_endpoint sp of
                None \<Rightarrow> Ok None
              | Some e \<Rightarrow> map_ok Some (restore_endpoint P e)) (\<lambda>iroh_endpoint.
      map_err (\<lambda>err. StateCorrupted (''trusted peer card is invalid: '' @ peer_card_error_display err))
        (try_from_card P
          \<lparr> card_peer_id = stp_peer_id sp, card_signing_key = stp_signing_key sp,
            card_exchange_key = stp_exchange_key sp, card_iroh_endpoint = iroh_endpoint \<rparr>)))"

fun restore_peers ::
  "'z peer_env_scheme \<Rightarrow> snapshot_trusted_peer list \<Rightarrow> (bytes \<times> trusted_peer) list \<Rightarrow>
    (state_error, (bytes \<times> trusted_peer) list) res" where
  "restore_peers P [] m = Ok m"
| "restore_peers P (sp # sps) m =
    bind_res (restore_peer P sp)
      (\<lambda>trusted. restore_peers P sps (hm_insert (trusted_peer_id trusted) trusted m))"

fun restore_group_keys ::
  "snapshot_group_key list \<Rightarrow> ((bytes \<times> bytes) \<times> group_key) list \<Rightarrow> ((bytes \<times> bytes) \<times> group_key) list" where
  "restore_group_keys [] m = m"
| "restore_group_keys (k # ks) m =
    restore_group_keys ks
      (hm_insert (sgk_group k, sgk_id k) \<lparr> gk_id = sgk_id k, gk_secret = sgk_secret k \<rparr> m)"

definition snapshot_into_inner :: "'z peer_env_scheme \<Rightarrow> snapshot \<Rightarrow> (state_error, inner) res" where
  "snapshot_into_inner P s =
    (if sn_version s \<noteq> SNAPSHOT_VERSION
     then Err (StateCorrupted (''snapshot has unsupported version '' @ dec_string (unat (sn_version s))))
     else
       bind_res (restore_peers P (sn_trusted_peers s) []) (\<lambda>trusted_peers.
         Ok \<lparr> in_local_slot_versions = sn_local_slot_versions s,
              in_last_seen_slot_versions = sn_last_seen_slot_versions s,
              in_iroh_keypair = sn_iroh_keypair s,
              in_peer_identity = sn_peer_identity s,
              in_trusted_peers = trusted_peers,
              in_group_keys = restore_group_keys (sn_group_keys s) [] \<rparr>))"

definition snapshot_encode :: "'z state_env_scheme \<Rightarrow> snapshot \<Rightarrow> (state_error, bytes) res" where
  "snapshot_encode E s = map_err StateBackend (snap_ser E s)"

definition snapshot_decode :: "'z state_env_scheme \<Rightarrow> bytes \<Rightarrow> (state_error, snapshot) res" where
  "snapshot_decode E bs =
    map_err (\<lambda>err. StateCorrupted (''snapshot decode failed: '' @ err)) (snap_de E bs)"

section \<open>Files\<close>

text \<open>
  A disk is its files and a script of what happens to the coming operations: an operation
  succeeds when the script is empty or says \<open>IoOk\<close>. A failing write may leave any prefix or
  garbage in its target.
\<close>

datatype io_outcome = IoOk | IoErr string bytes

datatype io_error = NotFound | IoOther string

record disk =
  dk_files :: "(string \<times> bytes) list"
  dk_faults :: "io_outcome list"

fun next_outcome :: "io_outcome list \<Rightarrow> io_outcome \<times> io_outcome list" where
  "next_outcome [] = (IoOk, [])"
| "next_outcome (x # xs) = (x, xs)"

definition io_text :: "io_error \<Rightarrow> string" where
  "io_text e = (case e of NotFound \<Rightarrow> ''not found'' | IoOther t \<Rightarrow> t)"

definition fs_write :: "disk \<Rightarrow> string \<Rightarrow> bytes \<Rightarrow> disk \<times> (io_error, unit) res" where
  "fs_write d path bs =
    (case next_outcome (dk_faults d) of
       (IoOk, fs) \<Rightarrow> (d\<lparr>dk_files := hm_insert path bs (dk_files d), dk_faults := fs\<rparr>, Ok ())
     | (IoErr e part, fs) \<Rightarrow>
         (d\<lparr>dk_files := hm_insert path part (dk_files d), dk_faults := fs\<rparr>, Err (IoOther e)))"

definition fs_rename :: "disk \<Rightarrow> string \<Rightarrow> string \<Rightarrow> disk \<times> (io_error, unit) res" where
  "fs_rename d old new =
    (case next_outcome (dk_faults d) of
       (IoOk, fs) \<Rightarrow>
         (case hm_get (dk_files d) old of
            None \<Rightarrow> (d\<lparr>dk_faults := fs\<rparr>, Err NotFound)
          | Some bs \<Rightarrow>
              (d\<lparr>dk_files := hm_insert new bs (hm_remove old (dk_files d)), dk_faults := fs\<rparr>, Ok ()))
     | (IoErr e part, fs) \<Rightarrow> (d\<lparr>dk_faults := fs\<rparr>, Err (IoOther e)))"

definition fs_read :: "disk \<Rightarrow> string \<Rightarrow> disk \<times> (io_error, bytes) res" where
  "fs_read d path =
    (case next_outcome (dk_faults d) of
       (IoOk, fs) \<Rightarrow> (d\<lparr>dk_faults := fs\<rparr>, ok_or NotFound (hm_get (dk_files d) path))
     | (IoErr e part, fs) \<Rightarrow> (d\<lparr>dk_faults := fs\<rparr>, Err (IoOther e)))"

definition fs_create_dir_all :: "disk \<Rightarrow> string \<Rightarrow> disk \<times> (io_error, unit) res" where
  "fs_create_dir_all d path =
    (case next_outcome (dk_faults d) of
       (IoOk, fs) \<Rightarrow> (d\<lparr>dk_faults := fs\<rparr>, Ok ())
     | (IoErr e part, fs) \<Rightarrow> (d\<lparr>dk_faults := fs\<rparr>, Err (IoOther e)))"

definition backend_error :: "io_error \<Rightarrow> state_error" where
  "backend_error e = StateBackend (io_text e)"

section \<open>The file store\<close>

record file_store =
  fs_inner :: inner
  fs_file_path :: string
  fs_tmp_path :: string
  fs_disk :: disk

definition STATE_FILE_NAME :: string where "STATE_FILE_NAME = ''state.msgpack''"
definition STATE_TMP_FILE_NAME :: string where "STATE_TMP_FILE_NAME = ''state.msgpack.tmp''"

definition path_join :: "string \<Rightarrow> string \<Rightarrow> string" where
  "path_join dir name = dir @ ''/'' @ name"

definition file_store_open ::
  "'z state_env_scheme \<Rightarrow> disk \<Rightarrow> string \<Rightarrow> disk \<times> (state_error, file_store) res" where
  "file_store_open E d dir =
    (case fs_create_dir_all d dir of
       (d, Ok _) \<Rightarrow>
         (let file_path = path_join dir STATE_FILE_NAME;
              tmp_path = path_join dir STATE_TMP_FILE_NAME in
          case fs_read d file_path of
            (d, content) \<Rightarrow>
              (d, bind_res
                    (case content of
                       Ok bs \<Rightarrow> bind_res (snapshot_decode E bs) (snapshot_into_inner E)
                     | Err NotFound \<Rightarrow> Ok inner_default
                     | Err e \<Rightarrow> Err (backend_error e)
                     | Panic \<Rightarrow> Panic)
                    (\<lambda>i. Ok \<lparr> fs_inner = i, fs_file_path = file_path, fs_tmp_path = tmp_path,
                              fs_disk = d \<rparr>)))
     | (d, Err e) \<Rightarrow> (d, Err (backend_error e))
     | (d, Panic) \<Rightarrow> (d, Panic))"

definition flush_locked ::
  "'z state_env_scheme \<Rightarrow> file_store \<Rightarrow> file_store \<times> (state_error, unit) res" where
  "flush_locked E fs =
    (case snapshot_encode E (snapshot_from_inner (fs_inner fs)) of
       Ok bs \<Rightarrow>
         (case fs_write (fs_disk fs) (fs_tmp_path fs) bs of
            (d, Ok _) \<Rightarrow>
              (case fs_rename d (fs_tmp_path fs) (fs_file_path fs) of
                 (d, r) \<Rightarrow> (fs\<lparr>fs_disk := d\<rparr>, map_err backend_error r))
          | (d, r) \<Rightarrow> (fs\<lparr>fs_disk := d\<rparr>, map_err backend_error r))
     | Err e \<Rightarrow> (fs, Err e)
     | Panic \<Rightarrow> (fs, Panic))"

text \<open>Mutate the tables, then write them out; or only when something changed.\<close>

definition mutate_and_flush ::
  "'z state_env_scheme \<Rightarrow> file_store \<Rightarrow> inner \<Rightarrow> file_store \<times> (state_error, unit) res" where
  "mutate_and_flush E fs i = flush_locked E (fs\<lparr>fs_inner := i\<rparr>)"

definition flush_if_changed ::
  "'z state_env_scheme \<Rightarrow> file_store \<Rightarrow> inner \<times> bool \<Rightarrow> file_store \<times> (state_error, unit) res" where
  "flush_if_changed E fs p =
    (if snd p then mutate_and_flush E fs (fst p) else (fs\<lparr>fs_inner := fst p\<rparr>, Ok ()))"

definition file_next_local_slot_version ::
  "'z state_env_scheme \<Rightarrow> file_store \<Rightarrow> string \<Rightarrow> file_store \<times> (state_error, u64) res" where
  "file_next_local_slot_version E fs slot =
    (case inner_next_local_slot_version (fs_inner fs) slot of
       (i, Ok next) \<Rightarrow>
         (case mutate_and_flush E fs i of (fs, r) \<Rightarrow> (fs, bind_res r (\<lambda>_. Ok next)))
     | (i, r) \<Rightarrow> (fs\<lparr>fs_inner := i\<rparr>, r))"

definition file_ops :: "'z state_env_scheme \<Rightarrow> file_store state_store" where
  "file_ops E =
    \<lparr> ss_next_local_slot_version = file_next_local_slot_version E,
      ss_last_seen_slot_version = (\<lambda>fs slot. Ok (inner_last_seen_slot_version (fs_inner fs) slot)),
      ss_record_seen_slot_version = (\<lambda>fs slot version.
        flush_if_changed E fs (inner_record_seen_slot_version (fs_inner fs) slot version)),
      ss_iroh_keypair = (\<lambda>fs. Ok (in_iroh_keypair (fs_inner fs))),
      ss_store_iroh_keypair = (\<lambda>fs secret.
        mutate_and_flush E fs (inner_store_iroh_keypair (fs_inner fs) secret)),
      ss_peer_identity = (\<lambda>fs. Ok (inner_peer_identity (fs_inner fs))),
      ss_store_peer_identity = (\<lambda>fs identity.
        mutate_and_flush E fs (inner_store_peer_identity (fs_inner fs) identity)),
      ss_trusted_peer = (\<lambda>fs peer_id. Ok (inner_trusted_peer (fs_inner fs) peer_id)),
      ss_trusted_peers = (\<lambda>fs. Ok (inner_trusted_peers (fs_inner fs))),
      ss_store_trusted_peer = (\<lambda>fs peer.
        mutate_and_flush E fs (inner_store_trusted_peer (fs_inner fs) peer)),
      ss_remove_trusted_peer = (\<lambda>fs peer_id.
        flush_if_changed E fs (inner_remove_trusted_peer (fs_inner fs) peer_id)),
      ss_group_keys = (\<lambda>fs grp. Ok (inner_group_keys (fs_inner fs) grp)),
      ss_store_group_key = (\<lambda>fs grp key.
        mutate_and_flush E fs (inner_store_group_key (fs_inner fs) grp key)),
      ss_remove_group_key = (\<lambda>fs grp key_id.
        flush_if_changed E fs (inner_remove_group_key (fs_inner fs) grp key_id)) \<rparr>"

section \<open>The version contract\<close>

datatype version_op = OpNext string | OpSeen string u64

datatype version_event = Issued string u64 | Observed string u64

fun run_versions :: "'st state_store \<Rightarrow> 'st \<Rightarrow> version_op list \<Rightarrow> 'st \<times> version_event list" where
  "run_versions ops st [] = (st, [])"
| "run_versions ops st (OpNext slot # os) =
    (case ss_next_local_slot_version ops st slot of
       (st, r) \<Rightarrow>
         (case run_versions ops st os of
            (st, es) \<Rightarrow> (st, (case r of Ok v \<Rightarrow> Issued slot v # es | _ \<Rightarrow> es))))"
| "run_versions ops st (OpSeen slot v # os) =
    (case ss_record_seen_slot_version ops st slot v of
       (st, r) \<Rightarrow>
         (case run_versions ops st os of
            (st, es) \<Rightarrow> (st, (case r of Ok _ \<Rightarrow> Observed slot v # es | _ \<Rightarrow> es))))"

fun event_at :: "version_event \<Rightarrow> string \<times> u64" where
  "event_at (Issued slot v) = (slot, v)"
| "event_at (Observed slot v) = (slot, v)"

text \<open>An issued version is above every earlier version of its slot, issued or observed.\<close>

definition fresh_after :: "version_event \<Rightarrow> version_event \<Rightarrow> bool" where
  "fresh_after a b \<longleftrightarrow>
    (case b of Issued slot v \<Rightarrow> fst (event_at a) = slot \<longrightarrow> snd (event_at a) < v | Observed _ _ \<Rightarrow> True)"

locale version_store =
  fixes ops :: "'st state_store"
    and high :: "'st \<Rightarrow> string \<Rightarrow> nat"
  assumes next_issues: "ss_next_local_slot_version ops st slot = (st', Ok v) \<Longrightarrow>
      high st slot < unat v \<and> unat v \<le> high st' slot"
    and next_mono: "ss_next_local_slot_version ops st slot = (st', r) \<Longrightarrow> high st k \<le> high st' k"
    and seen_high: "ss_record_seen_slot_version ops st slot v = (st', Ok u) \<Longrightarrow> unat v \<le> high st' slot"
    and seen_mono: "ss_record_seen_slot_version ops st slot v = (st', q) \<Longrightarrow> high st k \<le> high st' k"
begin

lemma run_next:
  assumes "run_versions ops st (OpNext slot # os) = (st', es)"
  obtains st1 r es1 where "ss_next_local_slot_version ops st slot = (st1, r)"
    "run_versions ops st1 os = (st', es1)" "es = (case r of Ok v \<Rightarrow> Issued slot v # es1 | _ \<Rightarrow> es1)"
  using assms by (auto split: prod.splits)

lemma run_seen:
  assumes "run_versions ops st (OpSeen slot v # os) = (st', es)"
  obtains st1 r es1 where "ss_record_seen_slot_version ops st slot v = (st1, r)"
    "run_versions ops st1 os = (st', es1)" "es = (case r of Ok _ \<Rightarrow> Observed slot v # es1 | _ \<Rightarrow> es1)"
  using assms by (auto split: prod.splits)

lemma issued_above:
  "run_versions ops st os = (st', es) \<Longrightarrow> Issued k v \<in> set es \<Longrightarrow> high st k < unat v"
proof (induction os arbitrary: st es)
  case (Cons x os)
  show ?case
  proof (cases x)
    case (OpNext slot)
    with Cons.prems(1) obtain st1 r es1 where *: "ss_next_local_slot_version ops st slot = (st1, r)"
      "run_versions ops st1 os = (st', es1)" "es = (case r of Ok v \<Rightarrow> Issued slot v # es1 | _ \<Rightarrow> es1)"
      using run_next by metis
    then show ?thesis
      using Cons.IH[OF *(2)] Cons.prems(2) next_mono[OF *(1), of k] next_issues
      by (fastforce split: res.splits)
  next
    case (OpSeen slot w)
    with Cons.prems(1) obtain st1 r es1 where *: "ss_record_seen_slot_version ops st slot w = (st1, r)"
      "run_versions ops st1 os = (st', es1)" "es = (case r of Ok _ \<Rightarrow> Observed slot w # es1 | _ \<Rightarrow> es1)"
      using run_seen by metis
    then show ?thesis
      using Cons.IH[OF *(2)] Cons.prems(2) seen_mono[OF *(1), of k]
      by (fastforce split: res.splits)
  qed
qed simp

lemma above_fresh:
  assumes "run_versions ops st os = (st', es)" "unat (snd (event_at a)) \<le> high st (fst (event_at a))"
  shows "\<forall>e \<in> set es. fresh_after a e"
  using issued_above[OF assms(1)] assms(2)
  by (fastforce simp: fresh_after_def word_less_nat_alt split: version_event.splits)

lemma issued_fresh: "run_versions ops st os = (st', es) \<Longrightarrow> sorted_wrt fresh_after es"
proof (induction os arbitrary: st es)
  case (Cons x os)
  show ?case
  proof (cases x)
    case (OpNext slot)
    with Cons.prems(1) obtain st1 r es1 where *: "ss_next_local_slot_version ops st slot = (st1, r)"
      "run_versions ops st1 os = (st', es1)" "es = (case r of Ok v \<Rightarrow> Issued slot v # es1 | _ \<Rightarrow> es1)"
      using run_next by metis
    then show ?thesis
      using Cons.IH[OF *(2)] next_issues above_fresh[OF *(2)] by (fastforce split: res.splits)
  next
    case (OpSeen slot w)
    with Cons.prems(1) obtain st1 r es1 where *: "ss_record_seen_slot_version ops st slot w = (st1, r)"
      "run_versions ops st1 os = (st', es1)" "es = (case r of Ok _ \<Rightarrow> Observed slot w # es1 | _ \<Rightarrow> es1)"
      using run_seen by metis
    then show ?thesis
      using Cons.IH[OF *(2)] seen_high above_fresh[OF *(2)] by (fastforce split: res.splits)
  qed
qed simp

end

text \<open>The highest version of a slot the tables know of.\<close>

definition inner_high :: "inner \<Rightarrow> string \<Rightarrow> nat" where
  "inner_high i slot =
    max (unat (unwrap_or 0 (hm_get (in_local_slot_versions i) slot)))
        (unat (unwrap_or 0 (hm_get (in_last_seen_slot_versions i) slot)))"

lemma inner_next_Ok:
  assumes "inner_next_local_slot_version i slot = (i', Ok v)"
  shows "unat v = inner_high i slot + 1" "inner_high i' slot = unat v"
    "k \<noteq> slot \<Longrightarrow> inner_high i' k = inner_high i k"
proof -
  let ?e = "unwrap_or 0 (hm_get (in_local_slot_versions i) slot)"
    and ?o = "unwrap_or 0 (hm_get (in_last_seen_slot_versions i) slot)"
  have add: "checked_add1 (max ?e ?o) = Some v"
    and i': "i' = i\<lparr>in_local_slot_versions :=
      hm_insert slot v (hm_insert slot ?e (in_local_slot_versions i))\<rparr>"
    using assms by (auto simp: inner_next_local_slot_version_def Let_def split: option.splits)
  show v: "unat v = inner_high i slot + 1"
    using checked_add1_unat[OF add] by (auto simp: inner_high_def max_def word_le_nat_alt)
  then have "unat ?o \<le> unat v" by (simp add: inner_high_def)
  then show "inner_high i' slot = unat v"
    by (simp add: inner_high_def i' unwrap_or_def)
  show "k \<noteq> slot \<Longrightarrow> inner_high i' k = inner_high i k"
    by (simp add: inner_high_def i')
qed

lemma unwrap_or_simps [simp]: "unwrap_or d (Some x) = x" "unwrap_or d None = d"
  by (simp_all add: unwrap_or_def)

lemma inner_next_fail:
  assumes "inner_next_local_slot_version i slot = (i', r)" "\<not> (\<exists>v. r = Ok v)"
  shows "inner_high i' k = inner_high i k"
proof -
  have "i' = i\<lparr>in_local_slot_versions :=
      hm_insert slot (unwrap_or 0 (hm_get (in_local_slot_versions i) slot)) (in_local_slot_versions i)\<rparr>"
    using assms
    by (auto simp: inner_next_local_slot_version_def Let_def split: option.splits)
  then show ?thesis by (simp add: inner_high_def)
qed

lemma inner_next_mono:
  assumes "inner_next_local_slot_version i slot = (i', r)"
  shows "inner_high i k \<le> inner_high i' k"
proof (cases "\<exists>v. r = Ok v")
  case True
  then obtain v where "r = Ok v" by blast
  then show ?thesis using inner_next_Ok[OF assms[unfolded \<open>r = Ok v\<close>]] by (cases "k = slot") auto
next
  case False
  then show ?thesis using inner_next_fail[OF assms] by simp
qed

lemma inner_record_seen_high: "unat v \<le> inner_high (fst (inner_record_seen_slot_version i slot v)) slot"
  by (auto simp: inner_record_seen_slot_version_def inner_high_def unwrap_or_def Let_def word_le_nat_alt
      split: option.splits)

lemma inner_record_seen_mono: "inner_high i k \<le> inner_high (fst (inner_record_seen_slot_version i slot v)) k"
  by (auto simp: inner_record_seen_slot_version_def inner_high_def unwrap_or_def Let_def word_le_nat_alt
      split: option.splits)

interpretation memory_versions: version_store memory_store inner_high
proof
  fix st slot st' v r k u q
  show "inner_high st slot < unat v \<and> unat v \<le> inner_high st' slot"
    if "ss_next_local_slot_version memory_store st slot = (st', Ok v)"
  proof -
    from that have *: "inner_next_local_slot_version st slot = (st', Ok v :: (state_error, u64) res)"
      by (simp add: memory_store_def)
    show ?thesis using inner_next_Ok(1,2)[OF *] by simp
  qed
  show "inner_high st k \<le> inner_high st' k"
    if "ss_next_local_slot_version memory_store st slot = (st', r)"
    using that inner_next_mono[of st slot st' r k] by (simp add: memory_store_def)
  show "unat v \<le> inner_high st' slot"
    if "ss_record_seen_slot_version memory_store st slot v = (st', Ok u)"
    using that inner_record_seen_high[of v st slot] by (simp add: memory_store_def)
  show "inner_high st k \<le> inner_high st' k"
    if "ss_record_seen_slot_version memory_store st slot v = (st', q)"
    using that inner_record_seen_mono[of st k slot v] by (auto simp: memory_store_def)
qed

lemma flush_locked_inner: "flush_locked E fs = (fs', r) \<Longrightarrow> fs_inner fs' = fs_inner fs"
  by (auto simp: flush_locked_def split: res.splits prod.splits)

lemma flush_if_changed_inner: "flush_if_changed E fs p = (fs', r) \<Longrightarrow> fs_inner fs' = fst p"
  by (auto simp: flush_if_changed_def mutate_and_flush_def dest: flush_locked_inner split: if_splits)

lemma file_next_inner:
  assumes "file_next_local_slot_version E fs slot = (fs', r)"
  obtains q where "inner_next_local_slot_version (fs_inner fs) slot = (fs_inner fs', q)"
    "\<And>v. r = Ok v \<Longrightarrow> q = (Ok v :: (state_error, u64) res)"
proof -
  obtain i q where iq: "inner_next_local_slot_version (fs_inner fs) slot = (i, q :: (state_error, u64) res)"
    by fastforce
  have "fs_inner fs' = i \<and> (\<forall>v. r = Ok v \<longrightarrow> q = Ok v)"
    using assms iq
    by (auto simp: file_next_local_slot_version_def mutate_and_flush_def res_simps
        dest!: flush_locked_inner split: res.splits prod.splits)
  with iq show thesis by (intro that[of q]) auto
qed

interpretation file_versions: version_store "file_ops E" "\<lambda>fs. inner_high (fs_inner fs)" for E
proof
  fix st slot st' v r k u q
  show "inner_high (fs_inner st) slot < unat v \<and> unat v \<le> inner_high (fs_inner st') slot"
    if "ss_next_local_slot_version (file_ops E) st slot = (st', Ok v)"
  proof -
    from that have "file_next_local_slot_version E st slot = (st', Ok v)" by (simp add: file_ops_def)
    then obtain q :: "(state_error, u64) res"
      where *: "inner_next_local_slot_version (fs_inner st) slot = (fs_inner st', q)" "q = Ok v"
      by (rule file_next_inner) simp
    show ?thesis using inner_next_Ok(1,2)[OF *(1)[unfolded *(2)]] by simp
  qed
  show "inner_high (fs_inner st) k \<le> inner_high (fs_inner st') k"
    if "ss_next_local_slot_version (file_ops E) st slot = (st', r)"
  proof -
    from that have "file_next_local_slot_version E st slot = (st', r)" by (simp add: file_ops_def)
    then show ?thesis by (rule file_next_inner) (rule inner_next_mono)
  qed
  show "unat v \<le> inner_high (fs_inner st') slot"
    if "ss_record_seen_slot_version (file_ops E) st slot v = (st', Ok u)"
    using that by (simp add: file_ops_def flush_if_changed_inner inner_record_seen_high)
  show "inner_high (fs_inner st) k \<le> inner_high (fs_inner st') k"
    if "ss_record_seen_slot_version (file_ops E) st slot v = (st', q)"
    using that by (simp add: file_ops_def flush_if_changed_inner inner_record_seen_mono)
qed

section \<open>Snapshots read back\<close>

text \<open>The tables as the code builds them: maps without duplicates, cards valid, keys matching.\<close>

definition inner_ok :: "'z peer_env_scheme \<Rightarrow> inner \<Rightarrow> bool" where
  "inner_ok P i \<longleftrightarrow>
    hm_ok (in_local_slot_versions i) \<and> hm_ok (in_last_seen_slot_versions i) \<and>
    hm_ok (in_trusted_peers i) \<and> hm_ok (in_group_keys i) \<and>
    list_all (\<lambda>(pid, p). pid = trusted_peer_id p \<and> card_wf P (tp_card p) \<and>
      card_validate P (tp_card p) = Ok ()) (in_trusted_peers i) \<and>
    list_all (\<lambda>((g, kid), key). kid = gk_id key) (in_group_keys i)"

lemma hm_insert_fresh: "k \<notin> fst ` set m \<Longrightarrow> hm_insert k v m = m @ [(k, v)]"
  by (induction m) auto

lemma hm_ok_sort_key: "hm_ok m \<Longrightarrow> hm_ok (sort_key fst m)"
  by (auto simp: hm_ok_def distinct_map)

lemma map_of_sort_key: "hm_ok m \<Longrightarrow> map_of (sort_key fst m) = map_of m"
  using hm_ok_sort_key[of m] by (subst map_of_inject_set) (auto simp: hm_ok_def)

lemma restore_peer_snapshot:
  assumes "card_wf P (tp_card p)" "card_validate P (tp_card p) = Ok ()"
  shows "restore_peer P (snapshot_peer p) = Ok p"
proof -
  have "restore_endpoint P (snapshot_endpoint e) = Ok e"
    if "card_iroh_endpoint (tp_card p) = Some e" for e
    using assms(1) that
    by (simp add: restore_endpoint_def snapshot_endpoint_def card_wf_def endpoint_wf_def traverse_parse)
  moreover obtain pid sk ek ep where "p = \<lparr>tp_card = \<lparr>card_peer_id = pid, card_signing_key = sk,
      card_exchange_key = ek, card_iroh_endpoint = ep\<rparr>\<rparr>"
    by (metis peer_card.cases trusted_peer.cases)
  ultimately show ?thesis
    using assms
    by (cases ep) (auto simp: restore_peer_def snapshot_peer_def card_wf_def try_from_card_def)
qed

lemma restore_peers_snapshot:
  "list_all (\<lambda>(pid, p). pid = trusted_peer_id p \<and> card_wf P (tp_card p) \<and>
      card_validate P (tp_card p) = Ok ()) m \<Longrightarrow> hm_ok (acc @ m) \<Longrightarrow>
    restore_peers P (map (\<lambda>(_, p). snapshot_peer p) m) acc = Ok (acc @ m)"
proof (induction m arbitrary: acc)
  case (Cons e m)
  obtain pid p where e: "e = (pid, p)" by fastforce
  have "pid \<notin> fst ` set acc" using Cons.prems(2) by (auto simp: hm_ok_def e image_iff)
  then have "hm_insert (trusted_peer_id p) p acc = acc @ [e]"
    using Cons.prems(1) by (auto simp: e hm_insert_fresh)
  then show ?case
    using Cons.prems Cons.IH[of "acc @ [e]"] by (simp add: e restore_peer_snapshot)
qed simp

lemma group_key_eta [simp]: "\<lparr> gk_id = gk_id k, gk_secret = gk_secret k \<rparr> = k"
  by (cases k) simp

lemma restore_group_keys_snapshot:
  "list_all (\<lambda>((g, kid), key). kid = gk_id key) m \<Longrightarrow> hm_ok (acc @ m) \<Longrightarrow>
    restore_group_keys
      (map (\<lambda>((grp, _), key). \<lparr> sgk_group = grp, sgk_id = gk_id key, sgk_secret = gk_secret key \<rparr>) m)
      acc = acc @ m"
proof (induction m arbitrary: acc)
  case (Cons e m)
  obtain g kid key where e: "e = ((g, kid), key)" by (metis surj_pair)
  have "(g, kid) \<notin> fst ` set acc" using Cons.prems(2) by (auto simp: hm_ok_def e image_iff)
  moreover have "kid = gk_id key"
    using Cons.prems(1) by (auto simp: e)
  ultimately show ?case
    using Cons.prems Cons.IH[of "acc @ [e]"] by (simp add: e hm_insert_fresh)
qed simp

definition resorted :: "inner \<Rightarrow> inner" where
  "resorted i = i\<lparr>in_local_slot_versions := sort_key fst (in_local_slot_versions i),
                  in_last_seen_slot_versions := sort_key fst (in_last_seen_slot_versions i)\<rparr>"

lemma snapshot_into_from:
  "inner_ok P i \<Longrightarrow> snapshot_into_inner P (snapshot_from_inner i) = Ok (resorted i)"
  using restore_peers_snapshot[of P "in_trusted_peers i" "[]"]
    restore_group_keys_snapshot[of "in_group_keys i" "[]"]
  by (simp add: snapshot_into_inner_def snapshot_from_inner_def inner_ok_def resorted_def)

lemma inner_high_resorted: "inner_ok P i \<Longrightarrow> inner_high (resorted i) = inner_high i"
  by (rule ext) (simp add: inner_high_def resorted_def inner_ok_def map_of_sort_key)

section \<open>The flush\<close>

definition snap_ok :: "'z state_env_scheme \<Rightarrow> bool" where
  "snap_ok E \<longleftrightarrow> (\<forall>s. \<exists>bs. snap_ser E s = Ok bs \<and> snap_de E bs = Ok s)"

text \<open>The content of the state file.\<close>

definition state_file :: "file_store \<Rightarrow> bytes option" where
  "state_file fs = hm_get (dk_files (fs_disk fs)) (fs_file_path fs)"

lemma flush_locked_paths:
  "flush_locked E fs = (fs', r) \<Longrightarrow> fs_file_path fs' = fs_file_path fs \<and> fs_tmp_path fs' = fs_tmp_path fs"
  by (auto simp: flush_locked_def split: res.splits prod.splits)

lemma flush_locked_atomic:
  assumes "flush_locked E fs = (fs', r)" "fs_tmp_path fs \<noteq> fs_file_path fs"
    "snap_ser E (snapshot_from_inner (fs_inner fs)) = Ok bs"
  shows "r = Ok () \<Longrightarrow> state_file fs' = Some bs"
    "state_file fs' = state_file fs \<or> state_file fs' = Some bs" "r \<noteq> Panic"
    "r \<noteq> Ok () \<Longrightarrow> state_file fs' = state_file fs"
  using assms
  by (auto simp: flush_locked_def snapshot_encode_def fs_write_def fs_rename_def state_file_def
      split: prod.splits io_outcome.splits option.splits if_splits)

lemma file_store_open_decodes:
  assumes "hm_get (dk_files d) (path_join dir STATE_FILE_NAME) = Some bs" "snap_de E bs = Ok s"
    "snapshot_into_inner E s = Ok i"
  shows "\<exists>fs. snd (file_store_open E (d\<lparr>dk_faults := []\<rparr>) dir) = Ok fs \<and> fs_inner fs = i"
  using assms
  by (simp add: file_store_open_def fs_create_dir_all_def fs_read_def Let_def snapshot_decode_def)

lemma paths_differ: "path_join dir STATE_TMP_FILE_NAME \<noteq> path_join dir STATE_FILE_NAME"
  by (simp add: path_join_def STATE_TMP_FILE_NAME_def STATE_FILE_NAME_def)

definition store_at :: "string \<Rightarrow> file_store \<Rightarrow> bool" where
  "store_at dir fs \<longleftrightarrow>
    fs_file_path fs = path_join dir STATE_FILE_NAME \<and> fs_tmp_path fs = path_join dir STATE_TMP_FILE_NAME"

section \<open>Every operation keeps the tables well formed\<close>

lemma inner_ok_next: "inner_next_local_slot_version i slot = (i', r) \<Longrightarrow> inner_ok P i \<Longrightarrow> inner_ok P i'"
  by (auto simp: inner_ok_def inner_next_local_slot_version_def Let_def split: option.splits)

lemma inner_ok_record_seen: "inner_ok P i \<Longrightarrow> inner_ok P (fst (inner_record_seen_slot_version i slot v))"
  by (auto simp: inner_ok_def inner_record_seen_slot_version_def Let_def split: option.splits)

lemma inner_ok_store_trusted_peer:
  "inner_ok P i \<Longrightarrow> card_wf P (tp_card p) \<Longrightarrow> card_validate P (tp_card p) = Ok () \<Longrightarrow>
    inner_ok P (inner_store_trusted_peer i p)"
  by (auto simp: inner_ok_def inner_store_trusted_peer_def list_all_iff hm_insert_set)

lemma delete_subset: "set (hm_remove k m) \<subseteq> set m"
  by (induction m) auto

lemma inner_ok_remove_trusted_peer:
  "inner_ok P i \<Longrightarrow> inner_ok P (fst (inner_remove_trusted_peer i pid))"
  using delete_subset[of pid "in_trusted_peers i"]
  by (auto simp: inner_ok_def inner_remove_trusted_peer_def list_all_iff)

lemma inner_ok_store_group_key: "inner_ok P i \<Longrightarrow> inner_ok P (inner_store_group_key i g k)"
  by (auto simp: inner_ok_def inner_store_group_key_def list_all_iff hm_insert_set)

lemma inner_ok_remove_group_key: "inner_ok P i \<Longrightarrow> inner_ok P (fst (inner_remove_group_key i g k))"
  using delete_subset[of "(g, k)" "in_group_keys i"]
  by (auto simp: inner_ok_def inner_remove_group_key_def list_all_iff)

lemma inner_ok_identity: "inner_ok P (inner_store_peer_identity i x) = inner_ok P i"
  "inner_ok P (inner_store_iroh_keypair i y) = inner_ok P i"
  by (simp_all add: inner_ok_def inner_store_peer_identity_def inner_store_iroh_keypair_def)

lemmas inner_ok_preserved =
  inner_ok_next inner_ok_record_seen inner_ok_store_trusted_peer inner_ok_remove_trusted_peer
  inner_ok_store_group_key inner_ok_remove_group_key inner_ok_identity

lemma inner_ok_default: "inner_ok P inner_default"
  by (simp add: inner_ok_def inner_default_def)

section \<open>Properties\<close>

text \<open>
  C3: Slot versions are fresh. In any interleaving of version requests and recorded observations
  on the in-memory store or on the file store, whatever the disk does, a version issued for a
  slot is strictly larger than every version issued or observed for that slot before.
\<close>

theorem versions_are_fresh:
  "sorted_wrt fresh_after (snd (run_versions memory_store i os)) \<and>
   sorted_wrt fresh_after (snd (run_versions (file_ops E) fs os))"
  using memory_versions.issued_fresh[of i os] file_versions.issued_fresh[of E fs os]
  by (metis prod.collapse)

text \<open>
  A flush is atomic: whatever fails, the state file holds either what it held before or the
  complete new snapshot; it holds the new snapshot when the flush succeeds and is untouched when
  the flush reports an error.
\<close>

theorem flush_is_atomic:
  assumes "store_at dir fs" "snap_ser E (snapshot_from_inner (fs_inner fs)) = Ok bs"
  shows "case flush_locked E fs of
      (fs', Ok _) \<Rightarrow> state_file fs' = Some bs
    | (fs', Err _) \<Rightarrow> state_file fs' = state_file fs
    | (fs', Panic) \<Rightarrow> False"
proof -
  obtain fs' r where *: "flush_locked E fs = (fs', r)" by fastforce
  have "fs_tmp_path fs \<noteq> fs_file_path fs" using assms(1) paths_differ by (simp add: store_at_def)
  from flush_locked_atomic[OF * this assms(2)] show ?thesis by (cases r) (auto simp: *)
qed

text \<open>A codec that writes and reads one snapshot.\<close>

definition plain_state_env :: "snapshot \<Rightarrow> state_env" where
  "plain_state_env s =
    peer_env.extend plain_env \<lparr> snap_ser = (\<lambda>_. Ok [1]), snap_de = (\<lambda>_. Ok s) \<rparr>"

lemma plain_state_env_sel [simp]:
  "snap_ser (plain_state_env s) = (\<lambda>_. Ok [1])" "snap_de (plain_state_env s) = (\<lambda>_. Ok s)"
  by (simp_all add: plain_state_env_def peer_env.defs plain_env_def suite.defs)

definition sample_store :: "inner \<Rightarrow> io_outcome list \<Rightarrow> file_store" where
  "sample_store i faults =
    \<lparr> fs_inner = i, fs_file_path = path_join ''d'' STATE_FILE_NAME,
      fs_tmp_path = path_join ''d'' STATE_TMP_FILE_NAME,
      fs_disk = \<lparr> dk_files = [], dk_faults = faults \<rparr> \<rparr>"

theorem flush_is_atomic_witness:
  "let fs = sample_store inner_default [IoErr ''full'' []];
       E = plain_state_env (snapshot_from_inner inner_default) in
   store_at ''d'' fs \<and> snap_ser E (snapshot_from_inner (fs_inner fs)) = Ok [1] \<and>
   (case flush_locked E fs of
      (fs', Ok _) \<Rightarrow> state_file fs' = Some [1]
    | (fs', Err _) \<Rightarrow> state_file fs' = state_file fs
    | (fs', Panic) \<Rightarrow> False)"
proof -
  let ?fs = "sample_store inner_default [IoErr ''full'' []]"
    and ?E = "plain_state_env (snapshot_from_inner inner_default)"
  have 1: "store_at ''d'' ?fs" by (simp add: store_at_def sample_store_def)
  have 2: "snap_ser ?E (snapshot_from_inner (fs_inner ?fs)) = Ok [1]" by simp
  show ?thesis unfolding Let_def using 1 2 flush_is_atomic[OF 1 2] by blast
qed





end
