(* ===== verification/Coordinator.thy ===== *)
theory Coordinator
  imports Health State "HOL-Library.Multiset"
begin

text \<open>
  \<open>crates/enlace/src/coordinator.rs\<close>: sealing and opening of shared-seed messages, and the
  fan-out of mailbox and slot operations over all transports. The msgpack codec of the inner
  record is a field of \<open>coord_env\<close>. A \<open>FuturesUnordered\<close> is the list of its tasks reordered by
  a schedule, which also gives the clock at each completion.
\<close>

section \<open>Data\<close>

record signed_inner =
  si_payload :: bytes
  si_version :: "u64 option"
  si_signer :: "bytes option"
  si_signature :: "bytes option"

record opened_envelope =
  oe_payload :: bytes
  oe_version :: "u64 option"
  oe_signed_by :: "bytes option"

record coord_env = suite +
  inner_ser :: "signed_inner \<Rightarrow> bytes option"
  inner_de :: "bytes \<Rightarrow> signed_inner option"

record ('w, 'st) coordinator =
  co_seed :: bytes
  co_transports :: "'w configured_transport list"
  co_signing :: "bytes option"
  co_trusted :: "bytes list"
  co_dedup_buffer :: nat
  co_max_plaintext_bytes :: nat
  co_state :: "'st state_store"

text \<open>What an operation may change: the network, the state store and the health tracker.\<close>

record ('w, 'st) world =
  w_net :: 'w
  w_store :: 'st
  w_health :: health_tracker

record recv_message =
  rm_payload :: bytes
  rm_via :: transport_kind
  rm_signed_by :: "bytes option"

record send_report =
  sr_delivered :: "transport_kind list"
  sr_failed :: "(transport_kind \<times> transport_error) list"

record put_report =
  pr_version :: u64
  pr_stored :: "transport_kind list"
  pr_failed :: "(transport_kind \<times> transport_error) list"

record slot_value =
  sv_version :: u64
  sv_payload :: bytes
  sv_via :: transport_kind
  sv_signed_by :: "bytes option"

definition coordinator_new ::
  "bytes \<Rightarrow> 'w configured_transport list \<Rightarrow> 'w config \<Rightarrow> 'st state_store \<Rightarrow> ('w, 'st) coordinator" where
  "coordinator_new seed transports config state =
    \<lparr> co_seed = seed, co_transports = transports, co_signing = cfg_signing config,
      co_trusted = cfg_trusted config, co_dedup_buffer = cfg_dedup_buffer config,
      co_max_plaintext_bytes = cfg_max_plaintext_bytes config, co_state = state \<rparr>"

section \<open>Sealing and opening\<close>

definition aead_aad :: "channel_kind \<Rightarrow> string \<Rightarrow> bytes" where
  "aead_aad kind name = str_bytes (''enlace/v1/aead/'' @ channel_kind_str kind @ ''/'' @ name)"

definition signature_preimage :: "channel_kind \<Rightarrow> string \<Rightarrow> bytes \<Rightarrow> u64 option \<Rightarrow> bytes" where
  "signature_preimage kind name payload version =
    str_bytes (''enlace/v1/sig/'' @ channel_kind_str kind @ ''/'' @ name @ ''/'')
      @ (case version of None \<Rightarrow> [] | Some v \<Rightarrow> u64_be v) @ payload"

definition slot_pair_is_newer :: "u64 \<Rightarrow> bytes \<Rightarrow> u64 \<Rightarrow> bytes \<Rightarrow> bool" where
  "slot_pair_is_newer version sealed best_version best_sealed \<longleftrightarrow>
    (version, sealed) > (best_version, best_sealed)"

definition transport_channel_id ::
  "'z suite_scheme \<Rightarrow> bytes \<Rightarrow> transport_kind \<Rightarrow> channel_kind \<Rightarrow> string \<Rightarrow> (name_error, bytes) res" where
  "transport_channel_id S seed transport kind name =
    (if transport = Iroh then iroh_topic_id S seed kind name
     else channel_id S seed transport kind name)"

definition verify_inner ::
  "'z suite_scheme \<Rightarrow> channel_kind \<Rightarrow> string \<Rightarrow> signed_inner \<Rightarrow> bytes list \<Rightarrow>
    (seal_error, bytes option) res" where
  "verify_inner S kind name inn trusted =
    (case (si_signer inn, si_signature inn) of
       (None, None) \<Rightarrow> if trusted = [] then Ok None else Err SignatureMissing
     | (Some _, None) \<Rightarrow> Err MsgpackFailed
     | (None, Some _) \<Rightarrow> Err MsgpackFailed
     | (Some signer, Some signature) \<Rightarrow>
         if \<not> ed_valid S signer then Err SignatureInvalid
         else if length signature \<noteq> SIG_LEN then Err SignatureInvalid
         else if \<not> verify S signer (signature_preimage kind name (si_payload inn) (si_version inn))
                     signature
         then Err SignatureInvalid
         else if trusted \<noteq> [] \<and> \<not> list_ex (\<lambda>trusted_key. trusted_key = signer) trusted
         then Err UntrustedSigner
         else Ok (Some signer))"

text \<open>The nonce of the AEAD is an argument.\<close>

definition co_seal ::
  "'z coord_env_scheme \<Rightarrow> ('w, 'st) coordinator \<Rightarrow> bytes \<Rightarrow> channel_kind \<Rightarrow> string \<Rightarrow> bytes \<Rightarrow>
    u64 option \<Rightarrow> (seal_error, bytes) res" where
  "co_seal S co nonce kind name payload version =
    (let preimage = signature_preimage kind name payload version;
         (signer, signature) =
           (case co_signing co of
              None \<Rightarrow> (None, None)
            | Some sk \<Rightarrow> (Some (ed_public S sk), Some (sign S sk preimage)));
         inn = \<lparr> si_payload = payload, si_version = version, si_signer = signer,
                 si_signature = signature \<rparr>
     in bind_res (ok_or MsgpackFailed (inner_ser S inn)) (\<lambda>plaintext.
        bind_res (map_err (\<lambda>_. MsgpackFailed) (channel_aead_key S (co_seed co) kind name)) (\<lambda>key.
          seal_aead S nonce key (aead_aad kind name) plaintext)))"

definition co_open ::
  "'z coord_env_scheme \<Rightarrow> ('w, 'st) coordinator \<Rightarrow> channel_kind \<Rightarrow> string \<Rightarrow> bytes \<Rightarrow>
    (seal_error, opened_envelope) res" where
  "co_open S co kind name sealed =
    bind_res (map_err (\<lambda>_. MsgpackFailed) (channel_aead_key S (co_seed co) kind name)) (\<lambda>key.
    bind_res (map_err seal_error_of_crypto (unseal_aead S key (aead_aad kind name) sealed)) (\<lambda>plaintext.
      if length plaintext > co_max_plaintext_bytes co then Err MsgpackFailed
      else
        bind_res (ok_or MsgpackFailed (inner_de S plaintext)) (\<lambda>inn.
        bind_res (verify_inner S kind name inn (co_trusted co)) (\<lambda>signed_by.
          Ok \<lparr> oe_payload = si_payload inn, oe_version = si_version inn,
               oe_signed_by = signed_by \<rparr>))))"

section \<open>Tasks\<close>

definition record_transport_result ::
  "clock \<Rightarrow> transport_kind \<Rightarrow> (transport_error, 'a) res \<Rightarrow> health_tracker \<Rightarrow> health_tracker" where
  "record_transport_result ck kind result ht =
    (case result of
       Ok _ \<Rightarrow> record_success ck kind ht
     | Err Stale \<Rightarrow> record_success ck kind ht
     | Err BodyTooLarge \<Rightarrow> record_success ck kind ht
     | Err Unsupported \<Rightarrow> ht
     | Err _ \<Rightarrow> record_failure ck kind ht
     | Panic \<Rightarrow> ht)"

type_synonym 'w task = "'w configured_transport \<times> bytes"

text \<open>The order in which tasks complete, with the clocks read at each completion.\<close>

type_synonym 'w schedule = "'w task list \<Rightarrow> ('w task \<times> clock) list"

definition fair :: "'w schedule \<Rightarrow> bool" where
  "fair sched \<longleftrightarrow> (\<forall>ts. mset (map fst (sched ts)) = mset ts)"

definition tasks_for ::
  "'z suite_scheme \<Rightarrow> ('w, 'st) coordinator \<Rightarrow> channel_kind \<Rightarrow> string \<Rightarrow> (name_error, 'w task list) res" where
  "tasks_for S co kind name =
    traverse (\<lambda>endpoint. map_ok (\<lambda>cid. (endpoint, cid))
      (transport_channel_id S (co_seed co) (ct_kind endpoint) kind name)) (co_transports co)"

fun run_tasks ::
  "('w transport \<Rightarrow> 'w \<Rightarrow> bytes \<Rightarrow> 'w \<times> 'r) \<Rightarrow> ('w task \<times> clock) list \<Rightarrow> 'w \<Rightarrow>
    'w \<times> (transport_kind \<times> clock \<times> 'r) list" where
  "run_tasks call [] n = (n, [])"
| "run_tasks call (((endpoint, cid), ck) # ts) n =
    (let (n1, r) = call (ct_transport endpoint) n cid;
         (n2, rs) = run_tasks call ts n1
     in (n2, (ct_kind endpoint, ck, r) # rs))"

fun record_results ::
  "(transport_kind \<times> clock \<times> (transport_error, 'a) res) list \<Rightarrow> health_tracker \<Rightarrow> health_tracker" where
  "record_results [] ht = ht"
| "record_results ((kind, ck, r) # rs) ht = record_results rs (record_transport_result ck kind r ht)"

text \<open>The loop of \<open>mailbox_send\<close> and \<open>slot_put\<close> over the completed tasks.\<close>

fun collect_results ::
  "(transport_kind \<times> clock \<times> (transport_error, unit) res) list \<Rightarrow> transport_kind list \<Rightarrow>
    (transport_kind \<times> transport_error) list \<Rightarrow>
    ('e, transport_kind list \<times> (transport_kind \<times> transport_error) list) res" where
  "collect_results [] delivered failed = Ok (delivered, failed)"
| "collect_results ((kind, _, Ok _) # rs) delivered failed =
    collect_results rs (delivered @ [kind]) failed"
| "collect_results ((kind, _, Err err) # rs) delivered failed =
    collect_results rs delivered (failed @ [(kind, err)])"
| "collect_results ((kind, _, Panic) # rs) delivered failed = Panic"

section \<open>Mailbox operations\<close>

definition mailbox_send ::
  "'z coord_env_scheme \<Rightarrow> ('w, 'st) coordinator \<Rightarrow> 'w schedule \<Rightarrow> bytes \<Rightarrow> string \<Rightarrow> bytes \<Rightarrow>
    ('w, 'st) world \<Rightarrow> ('w, 'st) world \<times> (send_error, send_report) res" where
  "mailbox_send S co sched nonce name payload w =
    (case bind_res (map_err SendSealing (co_seal S co nonce Mailbox name payload None)) (\<lambda>sealed.
            map_ok (\<lambda>ts. (sealed, ts))
              (map_err (\<lambda>_. SendSealing MsgpackFailed) (tasks_for S co Mailbox name))) of
       Ok (sealed, ts) \<Rightarrow>
         (let (n, rs) = run_tasks (\<lambda>t n cid. t_send t n cid sealed) (sched ts) (w_net w);
              w1 = w\<lparr>w_net := n, w_health := record_results rs (w_health w)\<rparr>
          in (w1, bind_res (collect_results rs [] []) (\<lambda>(delivered, failed).
                    if delivered = [] then Err (SendAllFailed failed)
                    else Ok \<lparr> sr_delivered = delivered, sr_failed = failed \<rparr>)))
     | Err e \<Rightarrow> (w, Err e)
     | Panic \<Rightarrow> (w, Panic))"

datatype round_outcome = Got recv_message | Done bool | RoundPanic

text \<open>One pass over the receive tasks; tasks after a delivered message are dropped.\<close>

fun recv_round ::
  "'z coord_env_scheme \<Rightarrow> 'c lru \<Rightarrow> ('w, 'st) coordinator \<Rightarrow> string \<Rightarrow> duration \<Rightarrow>
    ('w task \<times> clock) list \<Rightarrow> ('w, 'st) world \<Rightarrow> 'c dedup \<Rightarrow> bool \<Rightarrow>
    ('w, 'st) world \<times> 'c dedup \<times> round_outcome" where
  "recv_round S L co name wait [] w d responded = (w, d, Done responded)"
| "recv_round S L co name wait (((endpoint, cid), ck) # ts) w d responded =
    (let (n, r) = t_recv (ct_transport endpoint) (w_net w) cid wait;
         w1 = w\<lparr>w_net := n,
                w_health := record_transport_result ck (ct_kind endpoint) r (w_health w)\<rparr>
     in case r of
          Ok (Some sealed) \<Rightarrow>
            (let (d1, duplicate) = observe S L d sealed in
             if duplicate then recv_round S L co name wait ts w1 d1 True
             else case co_open S co Mailbox name sealed of
                    Err _ \<Rightarrow> recv_round S L co name wait ts w1 d1 True
                  | Ok opened \<Rightarrow>
                      if oe_version opened \<noteq> None then recv_round S L co name wait ts w1 d1 True
                      else (w1, d1, Got \<lparr> rm_payload = oe_payload opened, rm_via = ct_kind endpoint,
                                          rm_signed_by = oe_signed_by opened \<rparr>)
                  | Panic \<Rightarrow> (w1, d1, RoundPanic))
        | Ok None \<Rightarrow> recv_round S L co name wait ts w1 d True
        | Err _ \<Rightarrow> recv_round S L co name wait ts w1 d responded
        | Panic \<Rightarrow> (w1, d, RoundPanic))"

text \<open>
  The loop of \<open>mailbox_recv\<close>. Each round comes with its schedule and with what the other parties
  did to the network before it; \<open>None\<close> means that the rounds given do not end the call.
\<close>

fun mailbox_recv ::
  "'z coord_env_scheme \<Rightarrow> 'c lru \<Rightarrow> ('w, 'st) coordinator \<Rightarrow> string \<Rightarrow> duration \<Rightarrow>
    ('w schedule \<times> ('w \<Rightarrow> 'w)) list \<Rightarrow> ('w, 'st) world \<Rightarrow> 'c dedup \<Rightarrow>
    ('w, 'st) world \<times> 'c dedup \<times> (recv_error, recv_message) res option" where
  "mailbox_recv S L co name wait [] w d = (w, d, None)"
| "mailbox_recv S L co name wait ((sched, others) # rounds) w d =
    (let w0 = w\<lparr>w_net := others (w_net w)\<rparr> in
     case map_err (\<lambda>_. Closed) (tasks_for S co Mailbox name) of
       Err e \<Rightarrow> (w0, d, Some (Err e))
     | Panic \<Rightarrow> (w0, d, Some Panic)
     | Ok ts \<Rightarrow>
         (case recv_round S L co name wait (sched ts) w0 d False of
            (w1, d1, Got m) \<Rightarrow> (w1, d1, Some (Ok m))
          | (w1, d1, RoundPanic) \<Rightarrow> (w1, d1, Some Panic)
          | (w1, d1, Done responded) \<Rightarrow>
              if wait = 0 then (w1, d1, Some (Err Closed))
              else mailbox_recv S L co name wait rounds w1 d1))"

definition mailbox_subscribe ::
  "'z suite_scheme \<Rightarrow> ('w, 'st) coordinator \<Rightarrow> 'w schedule \<Rightarrow> string \<Rightarrow>
    ('w, 'st) world \<Rightarrow> ('w, 'st) world \<times> (recv_error, unit) res" where
  "mailbox_subscribe S co sched name w =
    (case tasks_for S co Mailbox name of
       Ok ts \<Rightarrow>
         (let (n, rs) = run_tasks t_subscribe (sched ts) (w_net w);
              w1 = w\<lparr>w_net := n, w_health := record_results rs (w_health w)\<rparr>;
              any_ok = list_ex (\<lambda>(_, _, r). r = Ok ()) rs;
              any_hard_failure =
                list_ex (\<lambda>(_, _, r). case r of Err e \<Rightarrow> e \<noteq> Unsupported | _ \<Rightarrow> False) rs
          in if list_ex (\<lambda>(_, _, r). r = Panic) rs then (w1, Panic)
             else if any_ok \<or> \<not> any_hard_failure then (w1, Ok ()) else (w1, Err Closed))
     | Err _ \<Rightarrow> (w, Err Closed)
     | Panic \<Rightarrow> (w, Panic))"

section \<open>Slot operations\<close>

definition slot_put ::
  "'z coord_env_scheme \<Rightarrow> ('w, 'st) coordinator \<Rightarrow> 'w schedule \<Rightarrow> bytes \<Rightarrow> string \<Rightarrow> bytes \<Rightarrow>
    ('w, 'st) world \<Rightarrow> ('w, 'st) world \<times> (slot_error, put_report) res" where
  "slot_put S co sched nonce name payload w =
    (case ss_next_local_slot_version (co_state co) (w_store w) name of
       (st, Ok version) \<Rightarrow>
         (let w0 = w\<lparr>w_store := st\<rparr> in
          case bind_res (map_err SlotSealing (co_seal S co nonce Slot name payload (Some version)))
                 (\<lambda>sealed. map_ok (\<lambda>ts. (sealed, ts))
                    (map_err (\<lambda>_. SlotSealing MsgpackFailed) (tasks_for S co Slot name))) of
            Ok (sealed, ts) \<Rightarrow>
              (let (n, rs) = run_tasks (\<lambda>t n cid. t_put t n cid version sealed) (sched ts) (w_net w0);
                   w1 = w0\<lparr>w_net := n, w_health := record_results rs (w_health w0)\<rparr>
               in (w1, bind_res (collect_results rs [] []) (\<lambda>(stored, failed).
                         if stored = [] then Err (SlotAllFailed failed)
                         else Ok \<lparr> pr_version = version, pr_stored = stored, pr_failed = failed \<rparr>)))
          | Err e \<Rightarrow> (w0, Err e)
          | Panic \<Rightarrow> (w0, Panic))
     | (st, Err e) \<Rightarrow> (w\<lparr>w_store := st\<rparr>, Err (SlotState e))
     | (st, Panic) \<Rightarrow> (w\<lparr>w_store := st\<rparr>, Panic))"

type_synonym best_slot = "(u64 \<times> bytes \<times> slot_value) option"

text \<open>The loop of \<open>slot_get\<close> over the completed tasks.\<close>

fun pick_best ::
  "'z coord_env_scheme \<Rightarrow> ('w, 'st) coordinator \<Rightarrow> string \<Rightarrow>
    (transport_kind \<times> clock \<times> (transport_error, (u64 \<times> bytes) option) res) list \<Rightarrow> nat \<Rightarrow>
    (transport_kind \<times> transport_error) list \<Rightarrow> best_slot \<Rightarrow>
    ('e, nat \<times> (transport_kind \<times> transport_error) list \<times> best_slot) res" where
  "pick_best S co name [] ok_count failures best = Ok (ok_count, failures, best)"
| "pick_best S co name ((kind, _, Ok None) # rs) ok_count failures best =
    pick_best S co name rs (ok_count + 1) failures best"
| "pick_best S co name ((kind, _, Ok (Some (_, sealed))) # rs) ok_count failures best =
    (case co_open S co Slot name sealed of
       Err _ \<Rightarrow> pick_best S co name rs (ok_count + 1) failures best
     | Panic \<Rightarrow> Panic
     | Ok opened \<Rightarrow>
         (case oe_version opened of
            None \<Rightarrow> pick_best S co name rs (ok_count + 1) failures best
          | Some version \<Rightarrow>
              (let val = \<lparr> sv_version = version, sv_payload = oe_payload opened, sv_via = kind,
                           sv_signed_by = oe_signed_by opened \<rparr> in
               if (case best of
                     None \<Rightarrow> True
                   | Some (best_version, best_sealed, _) \<Rightarrow>
                       slot_pair_is_newer version sealed best_version best_sealed)
               then pick_best S co name rs (ok_count + 1) failures (Some (version, sealed, val))
               else pick_best S co name rs (ok_count + 1) failures best)))"
| "pick_best S co name ((kind, _, Err err) # rs) ok_count failures best =
    pick_best S co name rs ok_count (failures @ [(kind, err)]) best"
| "pick_best S co name ((kind, _, Panic) # rs) ok_count failures best = Panic"

definition slot_get ::
  "'z coord_env_scheme \<Rightarrow> ('w, 'st) coordinator \<Rightarrow> 'w schedule \<Rightarrow> string \<Rightarrow>
    ('w, 'st) world \<Rightarrow> ('w, 'st) world \<times> (slot_error, slot_value option) res" where
  "slot_get S co sched name w =
    (case map_err (\<lambda>_. SlotSealing MsgpackFailed) (tasks_for S co Slot name) of
       Ok ts \<Rightarrow>
         (let (n, rs) = run_tasks t_get (sched ts) (w_net w);
              w1 = w\<lparr>w_net := n, w_health := record_results rs (w_health w)\<rparr>
          in case pick_best S co name rs 0 [] None of
               Ok (ok_count, failures, best) \<Rightarrow>
                 if ok_count = 0 \<and> failures \<noteq> [] then (w1, Err (SlotAllFailed failures))
                 else
                   (let w2 = (case best of
                                None \<Rightarrow> w1
                              | Some (version, _, _) \<Rightarrow>
                                  w1\<lparr>w_store := fst (ss_record_seen_slot_version (co_state co)
                                                     (w_store w1) name version)\<rparr>)
                    in (w2, Ok (map_option (\<lambda>(_, _, val). val) best)))
             | Err e \<Rightarrow> (w1, Err e)
             | Panic \<Rightarrow> (w1, Panic))
     | Err e \<Rightarrow> (w, Err e)
     | Panic \<Rightarrow> (w, Panic))"

section \<open>The newest pair\<close>

text \<open>
  The selection both slot readers make: keep the first candidate that no later one beats. The
  interface is the comparison; the lemmas hold for every comparison that is the lexicographic
  order on versions and sealed bytes.
\<close>

fun newest ::
  "(u64 \<Rightarrow> bytes \<Rightarrow> u64 \<Rightarrow> bytes \<Rightarrow> bool) \<Rightarrow> (u64 \<times> bytes \<times> 'v) list \<Rightarrow>
    (u64 \<times> bytes \<times> 'v) option \<Rightarrow> (u64 \<times> bytes \<times> 'v) option" where
  "newest newer [] best = best"
| "newest newer ((v, s, x) # cs) best =
    newest newer cs
      (if (case best of None \<Rightarrow> True | Some (bv, bs, _) \<Rightarrow> newer v s bv bs) then Some (v, s, x) else best)"

locale pair_order =
  fixes newer :: "u64 \<Rightarrow> bytes \<Rightarrow> u64 \<Rightarrow> bytes \<Rightarrow> bool"
  assumes newer_iff: "newer v s bv bs \<longleftrightarrow> (bv, bs) < (v, s)"
begin

lemma newest_None_iff: "newest newer cs best = None \<longleftrightarrow> cs = [] \<and> best = None"
  by (induction newer cs best rule: newest.induct) (auto split: if_splits option.splits)

lemma newest_Some:
  "newest newer cs best = Some (v, s, x) \<Longrightarrow>
    (v, s, x) \<in> set cs \<union> set_option best \<and>
    (\<forall>(w, t, y) \<in> set cs \<union> set_option best. (w, t) \<le> (v, s))"
proof (induction cs arbitrary: best)
  case Nil
  then show ?case by simp
next
  case (Cons c cs)
  obtain cv ct cx where c: "c = (cv, ct, cx)" by (metis surj_pair)
  show ?case
  proof (cases best)
    case None
    then show ?thesis using Cons by (auto simp: c)
  next
    case (Some b)
    obtain bv bt bx where b: "b = (bv, bt, bx)" by (metis surj_pair)
    show ?thesis
    proof (cases "newer cv ct bv bt")
      case True
      then have "(bv, bt) \<le> (cv, ct)" using newer_iff less_imp_le by blast
      then show ?thesis
        using Cons.IH[of "Some c"] Cons.prems True by (auto simp: Some b c intro: order_trans)
    next
      case False
      then have "(cv, ct) \<le> (bv, bt)" using newer_iff not_less by blast
      then show ?thesis
        using Cons.IH[of best] Cons.prems False by (auto simp: Some b c intro: order_trans)
    qed
  qed
qed

lemma newest_same_key:
  assumes "set (map (\<lambda>(v, s, _). (v, s)) cs) = set (map (\<lambda>(v, s, _). (v, s)) ds)"
  shows "map_option (\<lambda>(v, s, _). (v, s)) (newest newer cs None) =
    map_option (\<lambda>(v, s, _). (v, s)) (newest newer ds None)"
proof (cases "newest newer cs None")
  case None
  then have "ds = []" using assms by (simp add: newest_None_iff)
  then show ?thesis using None by simp
next
  case (Some c)
  then have "ds \<noteq> []" using assms newest_None_iff[of cs None] by auto
  then obtain d where d: "newest newer ds None = Some d" using newest_None_iff[of ds None] by auto
  obtain cv cs' cx dv ds' dx where cd: "c = (cv, cs', cx)" "d = (dv, ds', dx)" by (metis surj_pair)
  have "(cv, cs') \<in> set (map (\<lambda>(v, s, _). (v, s)) ds)" "(dv, ds') \<in> set (map (\<lambda>(v, s, _). (v, s)) cs)"
    using newest_Some[OF Some[unfolded cd]] newest_Some[OF d[unfolded cd]] assms by force+
  then have "(cv, cs') \<le> (dv, ds')" "(dv, ds') \<le> (cv, cs')"
    using newest_Some[OF Some[unfolded cd]] newest_Some[OF d[unfolded cd]] by force+
  then have "(cv, cs') = (dv, ds')" by (rule order.antisym)
  then show ?thesis using Some d cd by simp
qed

end

interpretation slot_pairs: pair_order slot_pair_is_newer
  by unfold_locales (simp add: slot_pair_is_newer_def)

section \<open>Fan-out\<close>

lemma run_tasks_kinds:
  "run_tasks call ts n = (n', rs) \<Longrightarrow> map fst rs = map (\<lambda>((ep, _), _). ct_kind ep) ts"
  by (induction ts arbitrary: n rs) (auto split: prod.splits)

lemma collect_results_kinds:
  "collect_results rs d f = (Ok (d', f') :: ('e, _) res) \<Longrightarrow>
    mset d' + mset (map fst f') = mset d + mset (map fst f) + mset (map fst rs)"
  by (induction rs d f rule: collect_results.induct) auto

lemma collect_results_no_Err: "collect_results rs d f \<noteq> Err e"
  by (induction rs d f rule: collect_results.induct) auto

lemma tasks_for_transports: "tasks_for S co kind name = Ok ts \<Longrightarrow> map fst ts = co_transports co"
proof -
  assume "tasks_for S co kind name = Ok ts"
  then have "list_all2 (\<lambda>ep t. fst t = ep) (co_transports co) ts"
    unfolding tasks_for_def traverse_Ok_iff
    by (rule list_all2_mono) (auto simp: res_simps)
  then show ?thesis by (simp add: list_all2_conv_all_nth list_eq_iff_nth_eq)
qed

lemma fair_kinds:
  assumes "fair sched" "tasks_for S co kind name = Ok ts" "run_tasks call (sched ts) n = (n', rs)"
  shows "mset (map fst rs) = mset (map ct_kind (co_transports co))"
proof -
  have "map fst rs = map (\<lambda>t. ct_kind (fst t)) (map fst (sched ts))"
    using run_tasks_kinds[OF assms(3)] by (simp add: case_prod_beta comp_def)
  also have "mset \<dots> = image_mset (\<lambda>t. ct_kind (fst t)) (mset (map fst (sched ts)))"
    by (simp only: mset_map)
  also have "\<dots> = image_mset (\<lambda>t. ct_kind (fst t)) (mset ts)"
    using assms(1) by (simp only: fair_def)
  also have "\<dots> = mset (map ct_kind (map fst ts))"
    by (simp add: multiset.map_comp comp_def)
  finally show ?thesis by (simp only: tasks_for_transports[OF assms(2)])
qed

section \<open>Seal, then open\<close>

definition inner_codec_ok :: "'z coord_env_scheme \<Rightarrow> bool" where
  "inner_codec_ok S \<longleftrightarrow> (\<forall>i. \<exists>pt. inner_ser S i = Some pt \<and> inner_de S pt = Some i)"

text \<open>The record that \<open>seal\<close> encodes.\<close>

definition sealed_inner ::
  "'z suite_scheme \<Rightarrow> bytes option \<Rightarrow> channel_kind \<Rightarrow> string \<Rightarrow> bytes \<Rightarrow> u64 option \<Rightarrow> signed_inner" where
  "sealed_inner S signing kind name payload version =
    \<lparr> si_payload = payload, si_version = version, si_signer = map_option (ed_public S) signing,
      si_signature =
        map_option (\<lambda>sk. sign S sk (signature_preimage kind name payload version)) signing \<rparr>"

lemma co_seal_eq:
  "co_seal S co nonce kind name payload version =
    bind_res (ok_or MsgpackFailed
      (inner_ser S (sealed_inner S (co_signing co) kind name payload version))) (\<lambda>pt.
    bind_res (map_err (\<lambda>_. MsgpackFailed) (channel_aead_key S (co_seed co) kind name)) (\<lambda>key.
      seal_aead S nonce key (aead_aad kind name) pt))"
  by (simp add: co_seal_def sealed_inner_def Let_def split: option.splits)

lemma verify_inner_sealed:
  assumes "ed_ok S" "\<forall>sk. signing = Some sk \<longrightarrow> length sk = 32"
    "trusted \<noteq> [] \<longrightarrow> (\<exists>sk. signing = Some sk \<and> ed_public S sk \<in> set trusted)"
  shows "verify_inner S kind name (sealed_inner S signing kind name payload version) trusted =
    Ok (map_option (ed_public S) signing)"
proof (cases signing)
  case None
  then show ?thesis using assms(3) by (simp add: verify_inner_def sealed_inner_def)
next
  case (Some sk)
  then show ?thesis
    using assms
    by (auto simp: verify_inner_def sealed_inner_def ed_ok_def verify_def sign_def crypto_consts
        list_ex_iff)
qed

lemma co_seal_plaintext:
  assumes "hkdf_ok S" "aead_ok S" "valid_name name" "length nonce = 24"
    "inner_ser S (sealed_inner S (co_signing co) kind name payload version) = Some pt"
    "length pt \<le> aead_max"
  obtains sealed where "co_seal S co nonce kind name payload version = Ok sealed"
    "unseal_aead S (hkdf_expand S None (co_seed co) (aead_key_info kind name) 32)
       (aead_aad kind name) sealed = Ok pt"
proof -
  let ?key = "hkdf_expand S None (co_seed co) (aead_key_info kind name) 32"
  from assms(1) have "length ?key = 32" by simp
  from seal_aead_ok[OF assms(2) this assms(4,6), where aad = "aead_aad kind name"] obtain c where
    c: "aead_encrypt S ?key nonce (aead_aad kind name) pt = Some c"
    "unseal_aead S ?key (aead_aad kind name) (nonce @ c) = Ok pt" by metis
  show thesis
    by (rule that[OF _ c(2)]) (simp add: co_seal_eq assms(3,5) seal_aead_def c(1))
qed

section \<open>What an opened message guarantees\<close>

lemma verify_inner_trusted:
  "verify_inner S kind name inn trusted = Ok signed_by \<Longrightarrow> trusted \<noteq> [] \<Longrightarrow>
    \<exists>signer sig. signed_by = Some signer \<and> signer \<in> set trusted \<and> ed_valid S signer \<and>
      length sig = 64 \<and>
      verify S signer (signature_preimage kind name (si_payload inn) (si_version inn)) sig"
  by (cases "si_signer inn"; cases "si_signature inn")
    (auto simp: verify_inner_def crypto_consts list_ex_iff dest!: sym[of "Some _"] split: if_splits)

lemma verify_inner_not_Panic [simp]: "verify_inner S kind name inn trusted \<noteq> Panic"
  by (auto simp: verify_inner_def split: option.splits)

lemma channel_aead_key_not_Panic [simp]: "channel_aead_key S seed kind name \<noteq> Panic"
  by (simp add: channel_aead_key_def res_simps)

lemma co_open_not_Panic [simp]: "co_open S co kind name sealed \<noteq> Panic"
  by (auto simp: co_open_def res_simps split: if_splits)

lemma co_open_trusted:
  assumes "co_open S co kind name sealed = Ok env" "co_trusted co \<noteq> []"
  shows "\<exists>signer sig. oe_signed_by env = Some signer \<and> signer \<in> set (co_trusted co) \<and>
    ed_valid S signer \<and> length sig = 64 \<and>
    verify S signer (signature_preimage kind name (oe_payload env) (oe_version env)) sig"
  using assms verify_inner_trusted by (fastforce simp: co_open_def res_simps split: if_splits)

lemma recv_round_Got:
  "recv_round S L co name wait ts w d responded = (w', d', Got m) \<Longrightarrow>
    \<exists>sealed env. co_open S co Mailbox name sealed = Ok env \<and> oe_version env = None \<and>
      rm_payload m = oe_payload env \<and> rm_signed_by m = oe_signed_by env"
proof (induction ts arbitrary: w d responded)
  case (Cons t ts)
  obtain endpoint cid ck where t: "t = ((endpoint, cid), ck)" by (metis surj_pair)
  obtain n r where r: "t_recv (ct_transport endpoint) (w_net w) cid wait = (n, r)" by fastforce
  show ?case
  proof (cases "\<exists>sealed. r = Ok (Some sealed)")
    case True
    then obtain sealed where ok: "r = Ok (Some sealed)" by blast
    obtain d1 dup where obs: "observe S L d sealed = (d1, dup)" by fastforce
    show ?thesis
      using Cons
      by (cases "co_open S co Mailbox name sealed") (fastforce simp: t r ok obs Let_def split: if_splits)+
  next
    case False
    then show ?thesis using Cons by (auto simp: t r Let_def split: res.splits option.splits)
  qed
qed simp

lemma mailbox_recv_Ok:
  "mailbox_recv S L co name wait rounds w d = (w', d', Some (Ok m)) \<Longrightarrow>
    \<exists>sealed env. co_open S co Mailbox name sealed = Ok env \<and> oe_version env = None \<and>
      rm_payload m = oe_payload env \<and> rm_signed_by m = oe_signed_by env"
proof (induction S L co name wait rounds w d rule: mailbox_recv.induct)
  case (2 S L co name wait sched others rounds w d)
  then show ?case
    by (auto simp: Let_def split: res.splits prod.splits round_outcome.splits if_splits
        dest: recv_round_Got)
qed simp

section \<open>What \<open>slot_get\<close> returns\<close>

text \<open>The candidate a response contributes, and the candidates of all responses.\<close>

definition slot_candidate ::
  "'z coord_env_scheme \<Rightarrow> ('w, 'st) coordinator \<Rightarrow> string \<Rightarrow> transport_kind \<Rightarrow>
    (transport_error, (u64 \<times> bytes) option) res \<Rightarrow> (u64 \<times> bytes \<times> slot_value) option" where
  "slot_candidate S co name kind r =
    (case r of
       Ok (Some (_, sealed)) \<Rightarrow>
         (case co_open S co Slot name sealed of
            Ok opened \<Rightarrow>
              map_option (\<lambda>version. (version, sealed,
                \<lparr> sv_version = version, sv_payload = oe_payload opened, sv_via = kind,
                  sv_signed_by = oe_signed_by opened \<rparr>)) (oe_version opened)
          | _ \<Rightarrow> None)
     | _ \<Rightarrow> None)"

definition slot_candidates ::
  "'z coord_env_scheme \<Rightarrow> ('w, 'st) coordinator \<Rightarrow> string \<Rightarrow>
    (transport_kind \<times> clock \<times> (transport_error, (u64 \<times> bytes) option) res) list \<Rightarrow>
    (u64 \<times> bytes \<times> slot_value) list" where
  "slot_candidates S co name rs = List.map_filter (\<lambda>(kind, _, r). slot_candidate S co name kind r) rs"

lemma slot_candidates_simps [simp]:
  "slot_candidates S co name [] = []"
  "slot_candidates S co name ((kind, ck, r) # rs) =
    (case slot_candidate S co name kind r of
       None \<Rightarrow> slot_candidates S co name rs
     | Some c \<Rightarrow> c # slot_candidates S co name rs)"
  by (simp_all add: slot_candidates_def map_filter_simps split: option.splits)

lemma pick_best_newest:
  "pick_best S co name rs c f b = Ok (c', f', b') \<Longrightarrow>
    b' = newest slot_pair_is_newer (slot_candidates S co name rs) b"
proof (induction S co name rs c f b rule: pick_best.induct)
  case (3 S co name kind ck sv sealed rs c f b)
  then show ?case
    by (cases "co_open S co Slot name sealed")
      (auto simp: slot_candidate_def Let_def split: option.splits if_splits)
qed (auto simp: slot_candidate_def)

lemma slot_candidate_fields:
  "slot_candidate S co name kind r = Some (v, s, x) \<Longrightarrow>
    \<exists>opened. co_open S co Slot name s = Ok opened \<and> oe_version opened = Some v \<and> sv_version x = v \<and>
      sv_payload x = oe_payload opened \<and> sv_signed_by x = oe_signed_by opened"
  by (auto simp: slot_candidate_def split: res.splits option.splits)

lemma slot_candidates_fields:
  assumes "(v, s, x) \<in> set (slot_candidates S co name rs)"
  shows "\<exists>opened. co_open S co Slot name s = Ok opened \<and> oe_version opened = Some v \<and> sv_version x = v \<and>
      sv_payload x = oe_payload opened \<and> sv_signed_by x = oe_signed_by opened"
proof -
  from assms obtain kind r where "slot_candidate S co name kind r = Some (v, s, x)"
    by (auto simp: slot_candidates_def map_filter_def)
  then show ?thesis by (rule slot_candidate_fields)
qed

lemma slot_get_Ok:
  assumes "slot_get S co sched name w = (w', Ok v)"
  obtains ts n rs where "tasks_for S co Slot name = Ok ts"
    "run_tasks t_get (sched ts) (w_net w) = (n, rs)"
    "v = map_option (\<lambda>(_, _, x). x) (newest slot_pair_is_newer (slot_candidates S co name rs) None)"
proof (cases "tasks_for S co Slot name")
  case (Ok ts)
  obtain n rs where run: "run_tasks t_get (sched ts) (w_net w) = (n, rs)" by fastforce
  show thesis
  proof (cases "pick_best S co name rs 0 [] None :: (slot_error, _) res")
    case best: (Ok x)
    obtain c f b where x: "x = (c, f, b)" by (metis surj_pair)
    have "v = map_option (\<lambda>(_, _, x). x) b"
      using assms by (simp add: slot_get_def Ok run best x Let_def split: if_splits)
    moreover have "b = newest slot_pair_is_newer (slot_candidates S co name rs) None"
      using pick_best_newest[OF best[unfolded x]] .
    ultimately show thesis using Ok run by (intro that) auto
  qed (use assms in \<open>simp_all add: slot_get_def Ok run\<close>)
qed (use assms in \<open>simp_all add: slot_get_def\<close>)

text \<open>Reading a slot does not change the network.\<close>

definition read_only :: "('w, 'st) coordinator \<Rightarrow> bool" where
  "read_only co \<longleftrightarrow> (\<forall>ep \<in> set (co_transports co). \<forall>n cid. fst (t_get (ct_transport ep) n cid) = n)"

lemma run_gets:
  "\<forall>t \<in> set ts. \<forall>n cid. fst (t_get (ct_transport (fst (fst t))) n cid) = n \<Longrightarrow>
    run_tasks t_get ts n =
      (n, map (\<lambda>((ep, cid), ck). (ct_kind ep, ck, snd (t_get (ct_transport ep) n cid))) ts)"
proof (induction ts)
  case (Cons t ts)
  obtain ep cid ck where t: "t = ((ep, cid), ck)" by (metis surj_pair)
  have "t_get (ct_transport ep) n cid = (n, snd (t_get (ct_transport ep) n cid))"
    using Cons.prems by (simp add: t prod_eq_iff)
  then show ?case using Cons by (simp add: t) (metis (no_types, lifting) case_prod_conv)
qed simp

lemma slot_candidates_keys:
  "set (slot_candidates S co name (map (\<lambda>((ep, cid), ck). (ct_kind ep, ck, g ep cid)) ts)) =
    {c. \<exists>t \<in> set (map fst ts). slot_candidate S co name (ct_kind (fst t)) (g (fst t) (snd t)) = Some c}"
  by (induction ts) (auto split: option.splits)

lemma tasks_for_mem:
  assumes "tasks_for S co kind name = Ok ts" "ep \<in> set (co_transports co)"
    "transport_channel_id S (co_seed co) (ct_kind ep) kind name = Ok cid"
  shows "(ep, cid) \<in> set ts"
proof -
  obtain t where "t \<in> set ts" "map_ok (\<lambda>cid. (ep, cid))
      (transport_channel_id S (co_seed co) (ct_kind ep) kind name) = Ok t"
    using traverse_memD[OF assms(1)[unfolded tasks_for_def] assms(2)] by blast
  then show ?thesis using assms(3) by simp
qed

lemma fair_results:
  assumes "fair sched" "read_only co" "tasks_for S co Slot name = Ok ts"
    "run_tasks t_get (sched ts) n = (n', rs)"
  shows "rs = map (\<lambda>((ep, cid), ck). (ct_kind ep, ck, snd (t_get (ct_transport ep) n cid))) (sched ts)"
proof -
  have set: "set (map fst (sched ts)) = set ts"
    using assms(1) unfolding fair_def by (metis set_mset_mset)
  have "fst t \<in> set (co_transports co)" if "t \<in> set ts" for t
    using tasks_for_transports[OF assms(3)] that by (metis image_eqI list.set_map)
  then have "\<forall>t \<in> set (sched ts). fst (fst t) \<in> set (co_transports co)"
    using set by (metis image_eqI list.set_map)
  then show ?thesis using assms(2,4) run_gets[of "sched ts" n] by (auto simp: read_only_def)
qed

lemma fair_candidates:
  assumes "fair s1" "fair s2" "read_only co" "tasks_for S co Slot name = Ok ts"
    "run_tasks t_get (s1 ts) n = (n1, rs1)" "run_tasks t_get (s2 ts) n = (n2, rs2)"
  shows "set (slot_candidates S co name rs1) = set (slot_candidates S co name rs2)"
proof -
  have sets: "set (map fst (s1 ts)) = set ts" "set (map fst (s2 ts)) = set ts"
    using assms(1,2) unfolding fair_def by (metis set_mset_mset)+
  show ?thesis
    unfolding fair_results[OF assms(1,3,4,5)] fair_results[OF assms(2,3,4,6)]
    by (simp only: slot_candidates_keys sets)
qed

section \<open>A concrete coordinator\<close>

text \<open>
  Used to exhibit instances: one transport over a network that is a single mailbox cell, a codec
  for one record, and a schedule that completes the tasks in order.
\<close>

definition cell_transport :: "(bytes option) transport" where
  "cell_transport =
    \<lparr> t_subscribe = default_subscribe,
      t_send = (\<lambda>n cid sealed. (Some sealed, Ok ())),
      t_recv = (\<lambda>n cid wait. (None, Ok n)),
      t_put = (\<lambda>n cid version sealed. (Some sealed, Ok ())),
      t_get = (\<lambda>n cid. (n, Ok (map_option (\<lambda>sealed. (1, sealed)) n))) \<rparr>"

definition sample_key :: bytes where "sample_key = replicate 32 7"

definition sample_coordinator :: "(bytes option, inner) coordinator" where
  "sample_coordinator =
    \<lparr> co_seed = replicate 32 1, co_transports = [\<lparr> ct_kind = Http, ct_transport = cell_transport \<rparr>],
      co_signing = Some sample_key, co_trusted = [sample_key], co_dedup_buffer = 4,
      co_max_plaintext_bytes = 10, co_state = memory_store \<rparr>"

definition one_record_env :: "signed_inner \<Rightarrow> bytes \<Rightarrow> coord_env" where
  "one_record_env i pt =
    suite.extend plain_suite \<lparr> inner_ser = (\<lambda>_. Some pt), inner_de = (\<lambda>_. Some i) \<rparr>"

definition in_order :: "clock \<Rightarrow> 'w schedule" where
  "in_order ck ts = map (\<lambda>t. (t, ck)) ts"

definition sample_clock :: clock where "sample_clock = \<lparr> ck_system = 0, ck_instant = 0 \<rparr>"

definition sample_world :: "(bytes option, inner) world" where
  "sample_world = \<lparr> w_net = None, w_store = inner_default, w_health = [] \<rparr>"

lemma one_record_env_sel [simp]:
  "hkdf_expand (one_record_env i pt) = hkdf_expand plain_suite"
  "sha256 (one_record_env i pt) = sha256 plain_suite"
  "aead_encrypt (one_record_env i pt) = aead_encrypt plain_suite"
  "aead_decrypt (one_record_env i pt) = aead_decrypt plain_suite"
  "ed_public (one_record_env i pt) = ed_public plain_suite"
  "ed_valid (one_record_env i pt) = ed_valid plain_suite"
  "ed_sign (one_record_env i pt) = ed_sign plain_suite"
  "ed_verify (one_record_env i pt) = ed_verify plain_suite"
  "inner_ser (one_record_env i pt) = (\<lambda>_. Some pt)" "inner_de (one_record_env i pt) = (\<lambda>_. Some i)"
  by (simp_all add: one_record_env_def suite.defs plain_suite_def)

lemma one_record_env_ok [simp]:
  "hkdf_ok (one_record_env i pt)" "aead_ok (one_record_env i pt)" "ed_ok (one_record_env i pt)"
  using plain_suite_hkdf plain_suite_aead plain_suite_ed
  by (simp_all add: hkdf_ok_def aead_ok_def ed_ok_def)

lemma fair_in_order [simp]: "fair (in_order ck)"
  by (simp add: fair_def in_order_def comp_def)

lemma sealed_inner_env [simp]:
  "sealed_inner (one_record_env i pt) = sealed_inner plain_suite"
  by (intro ext) (simp add: sealed_inner_def sign_def)

lemma valid_name_a [simp]: "valid_name ''a''"
  by (simp add: valid_name_def name_byte_ok_def)

text \<open>What a member seals, a member with the same seed opens.\<close>

lemma seal_opens:
  assumes "hkdf_ok S" "aead_ok S" "ed_ok S" "valid_name name" "length nonce = 24"
    and "co_seed b = co_seed a"
    and "inner_ser S (sealed_inner S (co_signing a) kind name payload version) = Some pt"
    and "inner_de S pt = Some (sealed_inner S (co_signing a) kind name payload version)"
    and "length pt \<le> co_max_plaintext_bytes b" "length pt \<le> aead_max"
    and "\<forall>sk. co_signing a = Some sk \<longrightarrow> length sk = 32"
    and "co_trusted b \<noteq> [] \<longrightarrow> (\<exists>sk. co_signing a = Some sk \<and> ed_public S sk \<in> set (co_trusted b))"
  shows "\<exists>sealed. co_seal S a nonce kind name payload version = Ok sealed \<and>
    co_open S b kind name sealed =
      Ok \<lparr> oe_payload = payload, oe_version = version,
           oe_signed_by = map_option (ed_public S) (co_signing a) \<rparr>"
proof -
  obtain sealed where *: "co_seal S a nonce kind name payload version = Ok sealed"
    "unseal_aead S (hkdf_expand S None (co_seed a) (aead_key_info kind name) 32)
       (aead_aad kind name) sealed = Ok pt"
    using co_seal_plaintext[OF assms(1,2,4,5,7,10)] by blast
  have "co_open S b kind name sealed =
      Ok \<lparr> oe_payload = payload, oe_version = version,
           oe_signed_by = map_option (ed_public S) (co_signing a) \<rparr>"
    using *(2) assms(4,6,8,9) verify_inner_sealed[OF assms(3,11,12), of kind name payload version]
    by (simp add: co_open_def) (simp add: sealed_inner_def)
  with *(1) show ?thesis by blast
qed

section \<open>Properties\<close>

text \<open>
  C2: A message sealed by one member of a shared-seed namespace is opened by every other member
  on the same channel: whatever the payload, version and channel, opening returns exactly what was
  sealed and the verifying key of the signer, provided the receiver trusts everyone or trusts that
  signer and the encoded message is within its plaintext limit.
\<close>

theorem open_inverts_seal:
  assumes "hkdf_ok S" "aead_ok S" "ed_ok S" "valid_name name" "length nonce = 24"
    and "co_seed b = co_seed a"
    and "inner_ser S (sealed_inner S (co_signing a) kind name payload version) = Some pt"
    and "inner_de S pt = Some (sealed_inner S (co_signing a) kind name payload version)"
    and "length pt \<le> co_max_plaintext_bytes b" "length pt \<le> aead_max"
    and "\<forall>sk. co_signing a = Some sk \<longrightarrow> length sk = 32"
    and "co_trusted b \<noteq> [] \<longrightarrow> (\<exists>sk. co_signing a = Some sk \<and> ed_public S sk \<in> set (co_trusted b))"
  shows "\<exists>sealed. co_seal S a nonce kind name payload version = Ok sealed \<and>
    co_open S b kind name sealed =
      Ok \<lparr> oe_payload = payload, oe_version = version,
           oe_signed_by = map_option (ed_public S) (co_signing a) \<rparr>"
  using assms by (rule seal_opens)

theorem open_inverts_seal_witness:
  "let S = one_record_env (sealed_inner plain_suite (Some sample_key) Slot ''a'' [5] (Some 3)) [1, 2] in
   \<exists>sealed. co_seal S sample_coordinator (replicate 24 0) Slot ''a'' [5] (Some 3) = Ok sealed \<and>
     co_open S sample_coordinator Slot ''a'' sealed =
       Ok \<lparr> oe_payload = [5], oe_version = Some 3,
            oe_signed_by = map_option (ed_public S) (co_signing sample_coordinator) \<rparr>"
  unfolding Let_def
  by (rule open_inverts_seal[where pt = "[1, 2]"])
    (simp_all add: sample_coordinator_def sample_key_def aead_max_def plain_suite_def)

text \<open>
  C1: A receiver that has configured trusted keys only ever returns messages whose payload, on that
  very channel, carries a valid signature of one of those keys, reported as the signer; this holds
  for every behaviour of the transports and of the other parties.
\<close>

theorem received_messages_are_signed:
  assumes "co_trusted co \<noteq> []"
    and "mailbox_recv S L co name wait rounds w d = (w', d', Some (Ok m))"
  shows "\<exists>signer sig. rm_signed_by m = Some signer \<and> signer \<in> set (co_trusted co) \<and>
    length sig = 64 \<and> verify S signer (signature_preimage Mailbox name (rm_payload m) None) sig"
proof -
  from mailbox_recv_Ok[OF assms(2)] obtain sealed env where
    env: "co_open S co Mailbox name sealed = Ok env" "oe_version env = None"
    "rm_payload m = oe_payload env" "rm_signed_by m = oe_signed_by env" by blast
  then show ?thesis using co_open_trusted[OF env(1) assms(1)] by auto
qed

definition sample_sealed :: bytes where
  "sample_sealed = replicate 24 0 @ [1, 2] @ replicate 16 0"

theorem received_messages_are_signed_witness:
  "let S = one_record_env (sealed_inner plain_suite (Some sample_key) Mailbox ''a'' [5] None) [1, 2];
       m = \<lparr> rm_payload = [5], rm_via = Http, rm_signed_by = Some sample_key \<rparr> in
   snd (snd (mailbox_recv S list_lru sample_coordinator ''a'' 0
     [(in_order sample_clock, \<lambda>_. Some sample_sealed)] sample_world (dedup_new list_lru 4))) =
       Some (Ok m) \<and>
   (\<exists>signer sig. rm_signed_by m = Some signer \<and> signer \<in> set (co_trusted sample_coordinator) \<and>
     length sig = 64 \<and> verify S signer (signature_preimage Mailbox ''a'' (rm_payload m) None) sig)"
proof -
  let ?S = "one_record_env (sealed_inner plain_suite (Some sample_key) Mailbox ''a'' [5] None) [1, 2]"
  let ?m = "\<lparr> rm_payload = [5], rm_via = Http, rm_signed_by = Some sample_key \<rparr>"
  let ?run = "mailbox_recv ?S list_lru sample_coordinator ''a'' 0
     [(in_order sample_clock, \<lambda>_. Some sample_sealed)] sample_world (dedup_new list_lru 4)"
  have opened: "co_open ?S sample_coordinator Mailbox ''a'' sample_sealed =
      Ok \<lparr> oe_payload = [5], oe_version = None, oe_signed_by = Some sample_key \<rparr>"
    by (simp add: co_open_def sample_coordinator_def unseal_aead_def sample_sealed_def crypto_consts
        plain_suite_def verify_inner_def sealed_inner_def verify_def sign_def sample_key_def)
  have run: "snd (snd ?run) = Some (Ok ?m)"
    using opened
    by (simp add: tasks_for_def sample_coordinator_def transport_channel_id_def in_order_def
        cell_transport_def sample_world_def observe_def dedup_new_def list_lru_def Let_def)
  then have "?run = (fst ?run, fst (snd ?run), Some (Ok ?m))" by (metis prod.collapse)
  from received_messages_are_signed[OF _ this] run show ?thesis
    unfolding Let_def by (simp add: sample_coordinator_def)
qed

text \<open>
  The send report is exact. Whatever the order in which the transports complete, a successful
  send lists every configured transport exactly once, as delivered or as failed, with at least one
  delivered; a send that fails on all transports lists each of them with its error; a send whose
  sealing fails has touched neither the network nor the health of any transport.
\<close>

theorem send_report_is_exact:
  assumes "fair sched"
  shows "case mailbox_send S co sched nonce name payload w of
      (w', Ok report) \<Rightarrow> sr_delivered report \<noteq> [] \<and>
        mset (sr_delivered report) + mset (map fst (sr_failed report)) =
          mset (map ct_kind (co_transports co))
    | (w', Err (SendAllFailed failed)) \<Rightarrow>
        mset (map fst failed) = mset (map ct_kind (co_transports co))
    | (w', Err (SendSealing e)) \<Rightarrow> w' = w
    | (w', Panic) \<Rightarrow> True"
proof (cases "bind_res (map_err SendSealing (co_seal S co nonce Mailbox name payload None)) (\<lambda>sealed.
    map_ok (\<lambda>ts. (sealed, ts)) (map_err (\<lambda>_. SendSealing MsgpackFailed) (tasks_for S co Mailbox name)))")
  case (Ok x)
  obtain sealed ts where x: "x = (sealed, ts)" by fastforce
  have ts: "tasks_for S co Mailbox name = Ok ts" using Ok by (auto simp: x res_simps)
  obtain n rs where run: "run_tasks (\<lambda>t n cid. t_send t n cid sealed) (sched ts) (w_net w) = (n, rs)"
    by fastforce
  note kinds = fair_kinds[OF assms ts run]
  show ?thesis
  proof (cases "collect_results rs [] [] :: (send_error, _) res")
    case collected: (Ok y)
    obtain d f where y: "y = (d, f)" by fastforce
    from collect_results_kinds[OF collected[unfolded y]] kinds show ?thesis
      by (auto simp: mailbox_send_def Ok x run collected y)
  qed (simp_all add: mailbox_send_def Ok x run collect_results_no_Err)
next
  case (Err e)
  moreover have "\<exists>d. e = SendSealing d" using Err by (auto simp: res_simps)
  ultimately show ?thesis by (auto simp: mailbox_send_def)
qed (simp add: mailbox_send_def)

theorem send_report_is_exact_witness:
  "let S = one_record_env (sealed_inner plain_suite None Mailbox ''a'' [5] None) [1, 2] in
   fair (in_order sample_clock :: bytes option schedule) \<and>
   (case mailbox_send S sample_coordinator (in_order sample_clock) (replicate 24 0) ''a'' [5]
      sample_world of
      (w', Ok report) \<Rightarrow> sr_delivered report \<noteq> [] \<and>
        mset (sr_delivered report) + mset (map fst (sr_failed report)) =
          mset (map ct_kind (co_transports sample_coordinator))
    | (w', Err (SendAllFailed failed)) \<Rightarrow>
        mset (map fst failed) = mset (map ct_kind (co_transports sample_coordinator))
    | (w', Err (SendSealing e)) \<Rightarrow> w' = sample_world
    | (w', Panic) \<Rightarrow> True)"
  unfolding Let_def by (rule conjI[OF fair_in_order send_report_is_exact[OF fair_in_order]])

text \<open>
  A slot write reports the version the state store issued and accounts for every transport
  exactly once, as stored or as failed, in whatever order they complete; the store keeps the
  issued version even when every transport rejects the write.
\<close>

theorem put_report_is_exact:
  assumes "fair sched"
    and "ss_next_local_slot_version (co_state co) (w_store w) name = (st, Ok version)"
  shows "case slot_put S co sched nonce name payload w of
      (w', Ok report) \<Rightarrow> w_store w' = st \<and> pr_version report = version \<and> pr_stored report \<noteq> [] \<and>
        mset (pr_stored report) + mset (map fst (pr_failed report)) =
          mset (map ct_kind (co_transports co))
    | (w', Err (SlotAllFailed failed)) \<Rightarrow> w_store w' = st \<and>
        mset (map fst failed) = mset (map ct_kind (co_transports co))
    | (w', Err (SlotSealing e)) \<Rightarrow> w' = w\<lparr>w_store := st\<rparr>
    | (w', Err (SlotState e)) \<Rightarrow> False
    | (w', Panic) \<Rightarrow> True"
proof (cases "bind_res (map_err SlotSealing (co_seal S co nonce Slot name payload (Some version)))
    (\<lambda>sealed. map_ok (\<lambda>ts. (sealed, ts)) (map_err (\<lambda>_. SlotSealing MsgpackFailed) (tasks_for S co Slot name)))")
  case (Ok x)
  obtain sealed ts where x: "x = (sealed, ts)" by fastforce
  have ts: "tasks_for S co Slot name = Ok ts" using Ok by (auto simp: x res_simps)
  obtain n rs where run:
    "run_tasks (\<lambda>t n cid. t_put t n cid version sealed) (sched ts) (w_net w) = (n, rs)" by fastforce
  note kinds = fair_kinds[OF assms(1) ts run]
  show ?thesis
  proof (cases "collect_results rs [] [] :: (slot_error, _) res")
    case collected: (Ok y)
    obtain d f where y: "y = (d, f)" by fastforce
    from collect_results_kinds[OF collected[unfolded y]] kinds show ?thesis
      by (auto simp: slot_put_def assms(2) Ok x run collected y)
  qed (simp_all add: slot_put_def assms(2) Ok x run collect_results_no_Err)
next
  case (Err e)
  moreover have "\<exists>d. e = SlotSealing d" using Err by (auto simp: res_simps)
  ultimately show ?thesis by (auto simp: slot_put_def assms(2))
qed (simp add: slot_put_def assms(2))

theorem put_report_is_exact_witness:
  "let S = one_record_env (sealed_inner plain_suite None Slot ''a'' [5] (Some 1)) [1, 2];
       st = inner_default\<lparr>in_local_slot_versions := [(''a'', 1)]\<rparr> in
   ss_next_local_slot_version memory_store inner_default ''a'' = (st, Ok 1) \<and>
   (case slot_put S sample_coordinator (in_order sample_clock) (replicate 24 0) ''a'' [5]
      sample_world of
      (w', Ok report) \<Rightarrow> w_store w' = st \<and> pr_version report = 1 \<and> pr_stored report \<noteq> [] \<and>
        mset (pr_stored report) + mset (map fst (pr_failed report)) =
          mset (map ct_kind (co_transports sample_coordinator))
    | (w', Err (SlotAllFailed failed)) \<Rightarrow> w_store w' = st \<and>
        mset (map fst failed) = mset (map ct_kind (co_transports sample_coordinator))
    | (w', Err (SlotSealing e)) \<Rightarrow> w' = sample_world\<lparr>w_store := st\<rparr>
    | (w', Err (SlotState e)) \<Rightarrow> False
    | (w', Panic) \<Rightarrow> True)"
proof -
  let ?st = "inner_default\<lparr>in_local_slot_versions := [(''a'', 1)]\<rparr>"
  have nxt: "ss_next_local_slot_version memory_store inner_default ''a'' = (?st, Ok 1)"
    by (simp add: memory_store_def inner_next_local_slot_version_def inner_default_def
        checked_add1_def Let_def)
  then have "ss_next_local_slot_version (co_state sample_coordinator) (w_store sample_world) ''a'' = (?st, Ok 1)"
    by (simp add: sample_coordinator_def sample_world_def)
  from put_report_is_exact[OF fair_in_order this] show ?thesis
    unfolding Let_def by (intro conjI nxt)
qed



definition reversed :: "clock \<Rightarrow> 'w schedule" where
  "reversed ck ts = map (\<lambda>t. (t, ck)) (rev ts)"

lemma fair_reversed [simp]: "fair (reversed ck)"
  by (simp add: fair_def reversed_def comp_def)

text \<open>A coordinator with two transports that answer different versions.\<close>

definition fixed_slot :: "transport_kind \<Rightarrow> bytes \<Rightarrow> unit configured_transport" where
  "fixed_slot kind sealed =
    \<lparr> ct_kind = kind,
      ct_transport =
        \<lparr> t_subscribe = default_subscribe, t_send = (\<lambda>n cid b. (n, Ok ())),
          t_recv = (\<lambda>n cid wait. (n, Ok None)), t_put = (\<lambda>n cid v b. (n, Ok ())),
          t_get = (\<lambda>n cid. (n, Ok (Some (0, sealed)))) \<rparr> \<rparr>"

definition two_slots :: "(unit, inner) coordinator" where
  "two_slots =
    \<lparr> co_seed = replicate 32 1,
      co_transports = [fixed_slot Http (replicate 24 0 @ [1] @ replicate 16 0),
                       fixed_slot Pkarr (replicate 24 0 @ [2] @ replicate 16 0)],
      co_signing = None, co_trusted = [], co_dedup_buffer = 4, co_max_plaintext_bytes = 10,
      co_state = memory_store \<rparr>"

definition byte_env :: coord_env where
  "byte_env =
    suite.extend plain_suite
      \<lparr> inner_ser = (\<lambda>i. Some (si_payload i)),
        inner_de = (\<lambda>pt. case pt of
          [b] \<Rightarrow> Some \<lparr> si_payload = pt, si_version = Some (ucast b), si_signer = None,
                        si_signature = None \<rparr>
        | _ \<Rightarrow> None) \<rparr>"

lemma byte_env_sel [simp]:
  "hkdf_expand byte_env = hkdf_expand plain_suite" "aead_decrypt byte_env = aead_decrypt plain_suite"
  "inner_de byte_env [b] =
    Some \<lparr> si_payload = [b], si_version = Some (ucast b), si_signer = None, si_signature = None \<rparr>"
  by (simp_all add: byte_env_def suite.defs plain_suite_def)

lemma two_slots_open:
  "co_open byte_env two_slots Slot ''a'' (replicate 24 0 @ [b] @ replicate 16 0) =
    Ok \<lparr> oe_payload = [b], oe_version = Some (ucast b), oe_signed_by = None \<rparr>"
  by (simp add: co_open_def two_slots_def unseal_aead_def crypto_consts plain_suite_def verify_inner_def)

lemma two_slots_get:
  assumes "sched = in_order sample_clock \<or> sched = reversed sample_clock"
  shows "snd (slot_get byte_env two_slots sched ''a'' \<lparr>w_net = (), w_store = inner_default, w_health = []\<rparr>) =
    Ok (Some \<lparr> sv_version = 2, sv_payload = [2], sv_via = Pkarr, sv_signed_by = None \<rparr>)"
  using assms two_slots_open[of 1] two_slots_open[of 2]
  by (auto simp: slot_get_def tasks_for_def two_slots_def transport_channel_id_def in_order_def
      reversed_def fixed_slot_def Let_def slot_pair_is_newer_def word_le_nat_alt)


text \<open>
  Reading a slot returns a version at least as high as that of every answer that opens: if
  some transport holds an acceptable sealed value of version v, the read, when it succeeds,
  returns a value, and its version is v or more, whatever the version the server attached to it.
\<close>

theorem slot_get_is_newest:
  assumes "fair sched" "read_only co" "slot_get S co sched name w = (w', Ok r)"
    and "ep \<in> set (co_transports co)"
    and "transport_channel_id S (co_seed co) (ct_kind ep) Slot name = Ok cid"
    and "snd (t_get (ct_transport ep) (w_net w) cid) = Ok (Some (server_version, sealed))"
    and "co_open S co Slot name sealed = Ok opened" "oe_version opened = Some v"
  shows "\<exists>x. r = Some x \<and> v \<le> sv_version x"
proof -
  let ?best = "\<lambda>rs. newest slot_pair_is_newer (slot_candidates S co name rs) None"
  from slot_get_Ok[OF assms(3)] obtain ts n rs where 1: "tasks_for S co Slot name = Ok ts"
    "run_tasks t_get (sched ts) (w_net w) = (n, rs)" "r = map_option (\<lambda>(_, _, x). x) (?best rs)" .
  have "(ep, cid) \<in> set (map fst (sched ts))"
    using tasks_for_mem[OF 1(1) assms(4,5)] assms(1) by (metis fair_def set_mset_mset)
  moreover obtain y where "slot_candidate S co name (ct_kind ep)
      (snd (t_get (ct_transport ep) (w_net w) cid)) = Some (v, sealed, y)"
    using assms(6-8) by (simp add: slot_candidate_def)
  ultimately have y: "(v, sealed, y) \<in> set (slot_candidates S co name rs)"
    unfolding fair_results[OF assms(1,2) 1(1,2)] slot_candidates_keys
    by (intro CollectI bexI[of _ "(ep, cid)"]) simp_all
  then obtain c where c: "?best rs = Some c"
    using slot_pairs.newest_None_iff[of "slot_candidates S co name rs" None] by fastforce
  obtain bv bs x where b: "?best rs = Some (bv, bs, x)" using c by (cases c) auto
  have "(v, sealed) \<le> (bv, bs)"
    using slot_pairs.newest_Some[OF b] y by blast
  then have "v \<le> bv" by auto
  moreover have "sv_version x = bv"
    using slot_pairs.newest_Some[OF b] slot_candidates_fields[of bv bs x S co name rs] by auto
  ultimately show ?thesis using 1(3) b by auto
qed

theorem slot_get_is_newest_witness:
  "\<exists>x. snd (slot_get byte_env two_slots (in_order sample_clock) ''a''
      \<lparr>w_net = (), w_store = inner_default, w_health = []\<rparr>) = Ok (Some x) \<and> (1 :: u64) \<le> sv_version x"
proof -
  let ?w = "\<lparr>w_net = (), w_store = inner_default, w_health = []\<rparr>"
  let ?r = "slot_get byte_env two_slots (in_order sample_clock) ''a'' ?w"
  let ?ep = "fixed_slot Http (replicate 24 0 @ [1] @ replicate 16 0)"
  obtain v where 1: "?r = (fst ?r, Ok (Some v))"
    using two_slots_get[of "in_order sample_clock"] by (metis prod.collapse)
  have 2: "read_only two_slots" "?ep \<in> set (co_transports two_slots)"
    by (simp_all add: read_only_def two_slots_def fixed_slot_def)
  have 3: "transport_channel_id byte_env (co_seed two_slots) (ct_kind ?ep) Slot ''a'' =
      Ok (hkdf_expand byte_env None (co_seed two_slots) (channel_id_info Http Slot ''a'') 16)"
    by (simp add: transport_channel_id_def fixed_slot_def)
  have 4: "snd (t_get (ct_transport ?ep) (w_net ?w)
      (hkdf_expand byte_env None (co_seed two_slots) (channel_id_info Http Slot ''a'') 16)) =
      Ok (Some (0, replicate 24 0 @ [1] @ replicate 16 0))"
    by (simp add: fixed_slot_def)
  from slot_get_is_newest[OF fair_in_order 2(1) 1 2(2) 3 4 two_slots_open[of 1], of 1] 1
  show ?thesis by (metis ucast_1 opened_envelope.select_convs(2) snd_conv option.inject res.inject(1))
qed

text \<open>
  On one channel, and for messages of one shape (versioned or not), the signed bytes determine
  the payload and the version: a signature never covers two different messages of a channel.
\<close>

theorem preimage_determines_message:
  "signature_preimage kind name p v = signature_preimage kind name q u \<and> (v = None \<longleftrightarrow> u = None) \<longleftrightarrow>
    p = q \<and> v = u"
  by (cases v; cases u) (auto simp: signature_preimage_def append_eq_append_conv)



text \<open>
  The plaintext limit is enforced by receivers only. A message whose encoding exceeds the limit
  is sealed without an error, and every endpoint with the same limit rejects it as malformed.
\<close>

theorem oversized_messages_are_sealed_but_rejected:
  assumes "hkdf_ok S" "aead_ok S" "valid_name name" "length nonce = 24"
    and "inner_ser S (sealed_inner S (co_signing co) kind name payload version) = Some pt"
    and "co_max_plaintext_bytes co < length pt" "length pt \<le> aead_max"
  shows "\<exists>sealed. co_seal S co nonce kind name payload version = Ok sealed \<and>
    co_open S co kind name sealed = Err MsgpackFailed"
proof -
  obtain sealed where "co_seal S co nonce kind name payload version = Ok sealed"
    "unseal_aead S (hkdf_expand S None (co_seed co) (aead_key_info kind name) 32)
       (aead_aad kind name) sealed = Ok pt"
    using co_seal_plaintext[OF assms(1-5,7)] by blast
  then show ?thesis using assms(3,6) by (auto simp: co_open_def)
qed

theorem oversized_messages_are_sealed_but_rejected_witness:
  "let S = one_record_env (sealed_inner plain_suite None Mailbox ''a'' [5] None) (replicate 11 1) in
   \<exists>sealed. co_seal S sample_coordinator (replicate 24 0) Mailbox ''a'' [5] None = Ok sealed \<and>
     co_open S sample_coordinator Mailbox ''a'' sealed = Err MsgpackFailed"
  unfolding Let_def
  by (rule oversized_messages_are_sealed_but_rejected[where pt = "replicate 11 1"])
    (simp_all add: sample_coordinator_def aead_max_def)

end
