(* ===== verification/WatchMachine.thy ===== *)
theory WatchMachine
  imports Prelude "HOL-Library.Multiset"
begin

text \<open>
  What the two slot watches have in common, as an interface. Several tasks share the best value so
  far and a channel to a consumer. Every step of the system either moves values that are under way
  towards the consumer, or drops them, or accepts a value whose key is greater than the best key.
  From these laws alone it follows that keys are accepted in ascending order and that the consumer
  receives accepted values only, each at most once.
\<close>

lemma sorted_wrt_snoc_last:
  assumes "sorted_wrt (<) (xs :: 'a :: order list)" "xs \<noteq> [] \<Longrightarrow> last xs < x"
  shows "sorted_wrt (<) (xs @ [x])"
proof (cases xs rule: rev_cases)
  case (snoc ys y)
  with assms have "\<forall>z \<in> set ys. z < y" "y < x" by (simp_all add: sorted_wrt_append)
  then have "\<forall>z \<in> set ys. z < x" using less_trans by blast
  with assms(1) snoc \<open>y < x\<close> show ?thesis by (simp add: sorted_wrt_append)
qed simp

text \<open>The values of a list of tasks, when one task changes.\<close>

lemma concat_map_update:
  assumes "i < length ts"
  shows "mset (concat (map f (ts[i := t']))) + mset (f (ts ! i)) = mset (concat (map f ts)) + mset (f t')"
proof -
  have "concat (map f (ts[i := t'])) = concat (map f (take i ts)) @ f t' @ concat (map f (drop (Suc i) ts))"
    using assms by (simp add: upd_conv_take_nth_drop)
  moreover have "concat (map f ts) = concat (map f (take i ts)) @ f (ts ! i) @ concat (map f (drop (Suc i) ts))"
    using arg_cong[OF id_take_nth_drop[OF assms], of "\<lambda>ts. concat (map f ts)"] by simp
  ultimately show ?thesis by (simp add: union_ac)
qed

lemma moved_values:
  assumes "i < length ts" "mset queue' + mset (f t') \<subseteq># mset queue + mset (f (ts ! i))"
  shows "mset queue' + mset (concat (map f (ts[i := t']))) \<subseteq># mset queue + mset (concat (map f ts))"
proof (rule mset_subset_eqI)
  fix x
  have "count (mset queue') x + count (mset (f t')) x \<le> count (mset queue) x + count (mset (f (ts ! i))) x"
    using mset_subset_eq_count[OF assms(2), of x] by simp
  moreover have "count (mset (concat (map f (ts[i := t'])))) x + count (mset (f (ts ! i))) x
      = count (mset (concat (map f ts))) x + count (mset (f t')) x"
    using arg_cong[OF concat_map_update[OF assms(1), of f t'], of "\<lambda>m. count m x"] by simp
  ultimately show "count (mset queue' + mset (concat (map f (ts[i := t'])))) x \<le> count (mset queue + mset (concat (map f ts))) x"
    unfolding count_union by linarith
qed

locale watch_machine =
  fixes queue :: "'s \<Rightarrow> 'v list"
    and under_way :: "'s \<Rightarrow> 'v multiset"
    and best :: "'s \<Rightarrow> 'k :: linorder option"
    and accepted :: "'s \<Rightarrow> ('k \<times> 'v) list"
    and step :: "'s \<Rightarrow> 'e \<Rightarrow> 's"
  assumes step_effect:
    "(mset (queue (step s e)) + under_way (step s e) \<subseteq># mset (queue s) + under_way s
        \<and> accepted (step s e) = accepted s \<and> best (step s e) = best s)
      \<or> (\<exists>k v. (\<forall>b. best s = Some b \<longrightarrow> b < k) \<and> queue (step s e) = queue s \<and> under_way (step s e) = under_way s + {#v#}
          \<and> accepted (step s e) = accepted s @ [(k, v)] \<and> best (step s e) = Some k)"
begin

lemma step_once:
  assumes "sorted_wrt (<) (map fst (accepted s))" "best s = (if accepted s = [] then None else Some (fst (last (accepted s))))"
    and "mset (queue s) + under_way s \<subseteq># mset (map snd (accepted s))"
  shows "sorted_wrt (<) (map fst (accepted (step s e)))
    \<and> best (step s e) = (if accepted (step s e) = [] then None else Some (fst (last (accepted (step s e)))))
    \<and> mset (queue (step s e)) + under_way (step s e) \<subseteq># mset (map snd (accepted (step s e)))"
  using step_effect[of s e]
proof (elim disjE exE conjE)
  assume "mset (queue (step s e)) + under_way (step s e) \<subseteq># mset (queue s) + under_way s"
    and "accepted (step s e) = accepted s" "best (step s e) = best s"
  with assms show ?thesis by (auto intro: subset_mset.order_trans)
next
  fix k v
  assume new: "\<forall>b. best s = Some b \<longrightarrow> b < k" "queue (step s e) = queue s" "under_way (step s e) = under_way s + {#v#}"
    "accepted (step s e) = accepted s @ [(k, v)]" "best (step s e) = Some k"
  have "map fst (accepted s) \<noteq> [] \<Longrightarrow> last (map fst (accepted s)) < k" using new(1) assms(2) by (simp add: last_map)
  then have "sorted_wrt (<) (map fst (accepted s) @ [k])" by (rule sorted_wrt_snoc_last[OF assms(1)])
  with assms(3) new(2-5) show ?thesis by simp
qed

lemma run_once:
  assumes "accepted s = []" "best s = None" "queue s = []" "under_way s = {#}"
  shows "sorted_wrt (<) (map fst (accepted (foldl step s es))) \<and> mset (queue (foldl step s es)) \<subseteq># mset (map snd (accepted (foldl step s es)))"
proof -
  let ?I = "\<lambda>s. sorted_wrt (<) (map fst (accepted s)) \<and> best s = (if accepted s = [] then None else Some (fst (last (accepted s))))
    \<and> mset (queue s) + under_way s \<subseteq># mset (map snd (accepted s))"
  have "?I s" using assms by simp
  then have "?I (foldl step s es)"
  proof (induction es arbitrary: s)
    case (Cons e es)
    then have "?I (step s e)" using step_once[of s e] by blast
    then show ?case using Cons.IH by simp
  qed simp
  then show ?thesis by (meson mset_subset_eq_add_left subset_mset.order_trans)
qed

end

end
