(* ===== verification/SlotWatch.thy ===== *)
theory SlotWatch
  imports Coordinator WatchMachine "HOL-Library.Sublist"
begin

text \<open>
  \<open>Coordinator::slot_watch\<close> of \<open>crates/enlace/src/coordinator.rs\<close> and \<open>SlotWatch\<close> of \<open>slot.rs\<close>: one
  task per transport reads that transport's stream; the tasks share the best value so far, the dedup
  buffer and the channel to the consumer. A step is what one task does between two points where it can
  be suspended; a run is any interleaving of steps. What a transport's stream yields is its list of
  items.
\<close>

section \<open>Tasks and shared state\<close>

datatype watch_pc =
    Waiting
  | Holding bytes
  | Opened u64 bytes opened_envelope
  | Chosen slot_value
  | Delivering slot_value
  | Stopped

record watch_task =
  wt_kind :: transport_kind
  wt_stream :: "(transport_error, u64 \<times> bytes) res list"
  wt_pc :: watch_pc

text \<open>
  \<open>ws_accepted\<close> is a log, not part of the code: the values that replaced the best one, in order.
\<close>

record ('c, 'st) watch_state =
  ws_tasks :: "watch_task list"
  ws_best :: "(u64 \<times> bytes) option"
  ws_dedup :: "'c dedup"
  ws_store :: 'st
  ws_health :: health_tracker
  ws_queue :: "slot_value list"
  ws_receiver :: bool
  ws_accepted :: "((u64 \<times> bytes) \<times> slot_value) list"

definition watch_tasks ::
  "'z suite_scheme \<Rightarrow> ('w, 'st) coordinator \<Rightarrow> string \<Rightarrow>
    ('w configured_transport \<Rightarrow> bytes \<Rightarrow> u64 \<Rightarrow> (transport_error, u64 \<times> bytes) res list) \<Rightarrow> watch_task list" where
  "watch_tasks S co name watch =
    List.map_filter (\<lambda>endpoint.
      case transport_channel_id S (co_seed co) (ct_kind endpoint) Slot name of
        Ok cid \<Rightarrow> Some \<lparr> wt_kind = ct_kind endpoint, wt_stream = watch endpoint cid 0, wt_pc = Waiting \<rparr>
      | _ \<Rightarrow> None) (co_transports co)"

definition slot_watch ::
  "'z suite_scheme \<Rightarrow> 'c lru \<Rightarrow> ('w, 'st) coordinator \<Rightarrow> string \<Rightarrow>
    ('w configured_transport \<Rightarrow> bytes \<Rightarrow> u64 \<Rightarrow> (transport_error, u64 \<times> bytes) res list) \<Rightarrow> 'st \<Rightarrow> health_tracker \<Rightarrow>
    ('c, 'st) watch_state" where
  "slot_watch S L co name watch st ht =
    \<lparr> ws_tasks = watch_tasks S co name watch, ws_best = None, ws_dedup = dedup_new L (co_dedup_buffer co),
      ws_store = st, ws_health = ht, ws_queue = [], ws_receiver = True, ws_accepted = [] \<rparr>"

text \<open>One step of one task, on the shared state and the task.\<close>

fun task_step ::
  "'z coord_env_scheme \<Rightarrow> 'c lru \<Rightarrow> ('w, 'st) coordinator \<Rightarrow> string \<Rightarrow> clock \<Rightarrow>
    ('c, 'st) watch_state \<Rightarrow> watch_task \<Rightarrow> watch_pc \<Rightarrow> ('c, 'st) watch_state \<times> watch_task" where
  "task_step S L co name ck st t Waiting =
    (case wt_stream t of
       [] \<Rightarrow> (st, t\<lparr>wt_pc := Stopped\<rparr>)
     | item # rest \<Rightarrow>
         (let st = st\<lparr>ws_health := record_transport_result ck (wt_kind t) item (ws_health st)\<rparr>;
              t = t\<lparr>wt_stream := rest\<rparr>
          in case item of Ok (_, sealed) \<Rightarrow> (st, t\<lparr>wt_pc := Holding sealed\<rparr>) | _ \<Rightarrow> (st, t)))"
| "task_step S L co name ck st t (Holding sealed) =
    (case observe S L (ws_dedup st) sealed of
       (d, duplicate) \<Rightarrow>
         (let st = st\<lparr>ws_dedup := d\<rparr> in
          if duplicate then (st, t\<lparr>wt_pc := Waiting\<rparr>)
          else case co_open S co Slot name sealed of
                 Ok opened \<Rightarrow>
                   (case oe_version opened of
                      None \<Rightarrow> (st, t\<lparr>wt_pc := Waiting\<rparr>)
                    | Some version \<Rightarrow> (st, t\<lparr>wt_pc := Opened version sealed opened\<rparr>))
               | _ \<Rightarrow> (st, t\<lparr>wt_pc := Waiting\<rparr>)))"
| "task_step S L co name ck st t (Opened version sealed opened) =
    (if (case ws_best st of
           None \<Rightarrow> False
         | Some (best_version, best_sealed) \<Rightarrow>
             \<not> slot_pair_is_newer version sealed best_version best_sealed)
     then (st, t\<lparr>wt_pc := Waiting\<rparr>)
     else
       (let val = \<lparr> sv_version = version, sv_payload = oe_payload opened, sv_via = wt_kind t,
                    sv_signed_by = oe_signed_by opened \<rparr>
        in (st\<lparr>ws_best := Some (version, sealed),
               ws_accepted := ws_accepted st @ [((version, sealed), val)]\<rparr>, t\<lparr>wt_pc := Chosen val\<rparr>)))"
| "task_step S L co name ck st t (Chosen val) =
    (case ss_record_seen_slot_version (co_state co) (ws_store st) name (sv_version val) of
       (store, _) \<Rightarrow> (st\<lparr>ws_store := store\<rparr>, t\<lparr>wt_pc := Delivering val\<rparr>))"
| "task_step S L co name ck st t (Delivering val) =
    (if ws_receiver st then (st\<lparr>ws_queue := ws_queue st @ [val]\<rparr>, t\<lparr>wt_pc := Waiting\<rparr>)
     else (st, t\<lparr>wt_pc := Stopped\<rparr>))"
| "task_step S L co name ck st t Stopped = (st, t)"

text \<open>The scheduler runs some task at some time, or the consumer drops its handle.\<close>

datatype watch_event = Run nat clock | DropReceiver

fun watch_step ::
  "'z coord_env_scheme \<Rightarrow> 'c lru \<Rightarrow> ('w, 'st) coordinator \<Rightarrow> string \<Rightarrow>
    ('c, 'st) watch_state \<Rightarrow> watch_event \<Rightarrow> ('c, 'st) watch_state" where
  "watch_step S L co name st (Run i ck) =
    (if i < length (ws_tasks st)
     then (let t = ws_tasks st ! i; (st', t') = task_step S L co name ck st t (wt_pc t)
           in st'\<lparr>ws_tasks := (ws_tasks st)[i := t']\<rparr>)
     else st)"
| "watch_step S L co name st DropReceiver = st\<lparr>ws_receiver := False\<rparr>"

definition watch_run ::
  "'z coord_env_scheme \<Rightarrow> 'c lru \<Rightarrow> ('w, 'st) coordinator \<Rightarrow> string \<Rightarrow> watch_event list \<Rightarrow>
    ('c, 'st) watch_state \<Rightarrow> ('c, 'st) watch_state" where
  "watch_run S L co name events st = foldl (watch_step S L co name) st events"

section \<open>Invariant\<close>

text \<open>The value a task is about to hand to the consumer.\<close>

definition pending :: "watch_task \<Rightarrow> slot_value list" where
  "pending t = (case wt_pc t of Chosen val \<Rightarrow> [val] | Delivering val \<Rightarrow> [val] | _ \<Rightarrow> [])"

definition opens_to ::
  "'z coord_env_scheme \<Rightarrow> ('w, 'st) coordinator \<Rightarrow> string \<Rightarrow> u64 \<Rightarrow> bytes \<Rightarrow> opened_envelope \<Rightarrow> bool" where
  "opens_to S co name version sealed opened \<longleftrightarrow>
    co_open S co Slot name sealed = Ok opened \<and> oe_version opened = Some version"

definition accepted_ok ::
  "'z coord_env_scheme \<Rightarrow> ('w, 'st) coordinator \<Rightarrow> string \<Rightarrow> (u64 \<times> bytes) \<times> slot_value \<Rightarrow> bool" where
  "accepted_ok S co name a =
    (case a of ((version, sealed), val) \<Rightarrow>
       opens_to S co name version sealed
         \<lparr> oe_payload = sv_payload val, oe_version = Some version, oe_signed_by = sv_signed_by val \<rparr>
       \<and> sv_version val = version)"

definition watch_inv ::
  "'z coord_env_scheme \<Rightarrow> ('w, 'st) coordinator \<Rightarrow> string \<Rightarrow> ('c, 'st) watch_state \<Rightarrow> bool" where
  "watch_inv S co name st \<longleftrightarrow>
    list_all (accepted_ok S co name) (ws_accepted st)
    \<and> (\<forall>t \<in> set (ws_tasks st). \<forall>v s e. wt_pc t = Opened v s e \<longrightarrow> opens_to S co name v s e)"

lemma task_step_frame [simp]: "ws_tasks (fst (task_step S L co name ck st t pc)) = ws_tasks st"
  by (cases pc) (auto simp: Let_def split: list.split res.split prod.split option.split)

text \<open>A step either moves a value along, or accepts a new one that beats the best.\<close>

lemma task_step_effect:
  assumes "task_step S L co name ck st t (wt_pc t) = (st', t')"
  shows "(mset (ws_queue st') + mset (pending t') \<subseteq># mset (ws_queue st) + mset (pending t)
      \<and> ws_accepted st' = ws_accepted st \<and> ws_best st' = ws_best st)
    \<or> (\<exists>version sealed opened val. wt_pc t = Opened version sealed opened
      \<and> \<not> (case ws_best st of None \<Rightarrow> False | Some (bv, bs) \<Rightarrow> \<not> slot_pair_is_newer version sealed bv bs)
      \<and> val = \<lparr> sv_version = version, sv_payload = oe_payload opened, sv_via = wt_kind t, sv_signed_by = oe_signed_by opened \<rparr>
      \<and> wt_pc t' = Chosen val \<and> ws_queue st' = ws_queue st
      \<and> ws_accepted st' = ws_accepted st @ [((version, sealed), val)] \<and> ws_best st' = Some (version, sealed))"
proof (cases "wt_pc t")
  case (Opened version sealed opened)
  then show ?thesis
    using assms by (cases "case ws_best st of None \<Rightarrow> False | Some (bv, bs) \<Rightarrow> \<not> slot_pair_is_newer version sealed bv bs")
      (auto simp: pending_def Let_def)
qed (use assms in \<open>auto simp: pending_def Let_def split: list.splits res.splits prod.splits option.splits if_splits\<close>)

lemma task_step_opened:
  assumes "task_step S L co name ck st t (wt_pc t) = (st', t')" "wt_pc t' = Opened v s e"
  shows "opens_to S co name v s e"
  using assms
  by (cases "wt_pc t")
    (auto simp: opens_to_def Let_def split: list.splits res.splits prod.splits option.splits if_splits)

lemma opened_envelope_eta: "\<lparr> oe_payload = oe_payload e, oe_version = oe_version e, oe_signed_by = oe_signed_by e \<rparr> = e"
  by simp

interpretation slot_machine: watch_machine ws_queue "\<lambda>st. mset (concat (map pending (ws_tasks st)))" ws_best ws_accepted "watch_step S L co name"
  for S :: "'z coord_env_scheme" and L :: "'c lru" and co :: "('w, 'st) coordinator" and name
proof
  fix st :: "('c, 'st) watch_state" and ev
  show "(mset (ws_queue (watch_step S L co name st ev)) + mset (concat (map pending (ws_tasks (watch_step S L co name st ev))))
        \<subseteq># mset (ws_queue st) + mset (concat (map pending (ws_tasks st)))
      \<and> ws_accepted (watch_step S L co name st ev) = ws_accepted st \<and> ws_best (watch_step S L co name st ev) = ws_best st)
    \<or> (\<exists>k v. (\<forall>b. ws_best st = Some b \<longrightarrow> b < k) \<and> ws_queue (watch_step S L co name st ev) = ws_queue st
        \<and> mset (concat (map pending (ws_tasks (watch_step S L co name st ev)))) = mset (concat (map pending (ws_tasks st))) + {#v#}
        \<and> ws_accepted (watch_step S L co name st ev) = ws_accepted st @ [(k, v)] \<and> ws_best (watch_step S L co name st ev) = Some k)"
  proof (cases "\<exists>i ck. ev = Run i ck \<and> i < length (ws_tasks st)")
    case True
    then obtain i ck where ev: "ev = Run i ck" "i < length (ws_tasks st)" by blast
    let ?t = "ws_tasks st ! i"
    obtain st' t' where step: "task_step S L co name ck st ?t (wt_pc ?t) = (st', t')" by fastforce
    have new: "watch_step S L co name st ev = st'\<lparr>ws_tasks := (ws_tasks st)[i := t']\<rparr>" using ev step by simp
    from task_step_effect[OF step] show ?thesis
    proof (elim disjE exE conjE)
      assume "mset (ws_queue st') + mset (pending t') \<subseteq># mset (ws_queue st) + mset (pending ?t)"
        and "ws_accepted st' = ws_accepted st" "ws_best st' = ws_best st"
      then show ?thesis using moved_values[OF ev(2)] unfolding new by simp
    next
      fix version sealed e val
      assume pc: "wt_pc ?t = Opened version sealed e"
        and newer: "\<not> (case ws_best st of None \<Rightarrow> False | Some (bv, bs) \<Rightarrow> \<not> slot_pair_is_newer version sealed bv bs)"
        and eff: "wt_pc t' = Chosen val" "ws_queue st' = ws_queue st"
          "ws_accepted st' = ws_accepted st @ [((version, sealed), val)]" "ws_best st' = Some (version, sealed)"
      have "mset (concat (map pending ((ws_tasks st)[i := t']))) = mset (concat (map pending (ws_tasks st))) + {#val#}"
        using concat_map_update[OF ev(2), of pending t'] pc eff(1) by (simp add: pending_def)
      moreover have "\<forall>b. ws_best st = Some b \<longrightarrow> b < (version, sealed)"
        using newer by (auto simp: slot_pair_is_newer_def simp del: less_prod_simp split: prod.splits)
      ultimately show ?thesis unfolding new using eff by simp
    qed
  next
    case False
    then show ?thesis by (cases ev) auto
  qed
qed

lemma watch_step_inv:
  assumes inv: "watch_inv S co name st"
  shows "watch_inv S co name (watch_step S L co name st ev)"
proof (cases "\<exists>i ck. ev = Run i ck \<and> i < length (ws_tasks st)")
  case False
  with inv show ?thesis by (cases ev) (auto simp: watch_inv_def)
next
  case True
  then obtain i ck where ev: "ev = Run i ck" "i < length (ws_tasks st)" by blast
  let ?t = "ws_tasks st ! i"
  obtain st' t' where step: "task_step S L co name ck st ?t (wt_pc ?t) = (st', t')" by fastforce
  have new: "watch_step S L co name st ev = st'\<lparr>ws_tasks := (ws_tasks st)[i := t']\<rparr>" using ev step by simp
  have opened: "\<forall>t \<in> set ((ws_tasks st)[i := t']). \<forall>v s e. wt_pc t = Opened v s e \<longrightarrow> opens_to S co name v s e"
    using inv task_step_opened[OF step] by (auto simp: watch_inv_def dest!: subsetD[OF set_update_subset_insert])
  from task_step_effect[OF step] show ?thesis
  proof (elim disjE exE conjE)
    assume "ws_accepted st' = ws_accepted st"
    then show ?thesis using inv opened unfolding new watch_inv_def by simp
  next
    fix version sealed e val
    assume pc: "wt_pc ?t = Opened version sealed e"
      and val: "val = \<lparr> sv_version = version, sv_payload = oe_payload e, sv_via = wt_kind ?t, sv_signed_by = oe_signed_by e \<rparr>"
      and acc: "ws_accepted st' = ws_accepted st @ [((version, sealed), val)]"
    have "opens_to S co name version sealed e" using inv pc nth_mem[OF ev(2)] unfolding watch_inv_def by blast
    then have "accepted_ok S co name ((version, sealed), val)"
      using opened_envelope_eta[of e] val by (auto simp: accepted_ok_def opens_to_def)
    then show ?thesis using inv acc opened unfolding new watch_inv_def by simp
  qed
qed

lemma watch_run_inv: "watch_inv S co name st \<Longrightarrow> watch_inv S co name (watch_run S L co name events st)"
  unfolding watch_run_def by (induction events arbitrary: st) (auto intro: watch_step_inv)

lemma watch_tasks_waiting: "t \<in> set (watch_tasks S co name watch) \<Longrightarrow> wt_pc t = Waiting"
  by (auto simp: watch_tasks_def List.map_filter_def split: res.splits)

lemma slot_watch_inv: "watch_inv S co name (slot_watch S L co name watch st ht)"
  by (auto simp: watch_inv_def slot_watch_def dest: watch_tasks_waiting)

lemma slot_watch_once:
  "sorted_wrt (<) (map fst (ws_accepted (watch_run S L co name events (slot_watch S L co name watch st ht))))
    \<and> mset (ws_queue (watch_run S L co name events (slot_watch S L co name watch st ht)))
      \<subseteq># mset (map snd (ws_accepted (watch_run S L co name events (slot_watch S L co name watch st ht))))"
  unfolding watch_run_def
  by (rule slot_machine.run_once) (use watch_tasks_waiting in \<open>force simp: slot_watch_def pending_def\<close>)+

section \<open>One transport\<close>

text \<open>With a single task nothing overtakes: what the consumer got, then what is under way, is the log.\<close>

definition in_step :: "('c, 'st) watch_state \<Rightarrow> bool" where
  "in_step st \<longleftrightarrow>
    (case ws_tasks st of
       [] \<Rightarrow> ws_queue st = []
     | [t] \<Rightarrow> if wt_pc t = Stopped then prefix (ws_queue st) (map snd (ws_accepted st))
              else ws_queue st @ pending t = map snd (ws_accepted st)
     | _ \<Rightarrow> False)"

lemma watch_step_in_step:
  assumes "in_step st"
  shows "in_step (watch_step S L co name st ev)"
proof (cases "\<exists>ck t. ev = Run 0 ck \<and> ws_tasks st = [t]")
  case False
  with assms show ?thesis
    by (cases ev) (auto simp: in_step_def split: list.splits)
next
  case True
  then obtain ck t where ev: "ev = Run 0 ck" "ws_tasks st = [t]" by blast
  obtain st' t' where step: "task_step S L co name ck st t (wt_pc t) = (st', t')" by fastforce
  have st: "if wt_pc t = Stopped then prefix (ws_queue st) (map snd (ws_accepted st))
    else map snd (ws_accepted st) = ws_queue st @ pending t"
    using assms ev(2) by (auto simp: in_step_def)
  have "if wt_pc t' = Stopped then prefix (ws_queue st') (map snd (ws_accepted st'))
    else ws_queue st' @ pending t' = map snd (ws_accepted st')"
    using step st
    by (cases "wt_pc t")
      (auto simp: pending_def Let_def split: list.splits res.splits prod.splits option.splits if_splits)
  with ev step show ?thesis by (simp add: in_step_def)
qed

lemma watch_run_in_step: "in_step st \<Longrightarrow> in_step (watch_run S L co name events st)"
  unfolding watch_run_def by (induction events arbitrary: st) (auto intro: watch_step_in_step)

lemma slot_watch_in_step:
  assumes "length (co_transports co) \<le> 1"
  shows "in_step (slot_watch S L co name watch st ht)"
proof -
  have "co_transports co = [] \<or> (\<exists>e. co_transports co = [e])"
    using assms by (cases "co_transports co") auto
  then show ?thesis
    by (auto simp: in_step_def slot_watch_def watch_tasks_def List.map_filter_def pending_def split: res.splits)
qed

lemma in_step_prefix: "in_step st \<Longrightarrow> prefix (ws_queue st) (map snd (ws_accepted st))"
  by (auto simp: in_step_def split: list.splits if_splits) (metis prefixI)

lemma accepted_versions_sorted:
  assumes "watch_inv S co name st" "sorted_wrt (<) (map fst (ws_accepted st))"
  shows "sorted (map sv_version (map snd (ws_accepted st)))"
proof -
  have eq: "map sv_version (map snd (ws_accepted st)) = map fst (map fst (ws_accepted st))"
    using assms(1) by (auto simp: watch_inv_def accepted_ok_def list_all_iff)
  have "sorted_wrt (\<lambda>x y. fst x \<le> fst y) (map fst (ws_accepted st))"
    using assms(2) by (auto intro!: sorted_wrt_mono_rel[of _ "(<)" "\<lambda>x y. fst x \<le> fst y"])
  then show ?thesis unfolding eq by (simp add: sorted_map sorted_wrt_map)
qed

section \<open>Properties\<close>

text \<open>
  C25: A slot watch delivers only values it accepted, each at most once, and accepts only values that open.
  Under every interleaving of the transport tasks, the accepted (version, sealed) pairs strictly increase,
  the values handed to the consumer are a sub-multiset of the accepted ones, and every accepted value is
  what its sealed bytes open to under the slot's key and trust rules.
\<close>

theorem slot_watch_delivers_accepted_once:
  "let st = watch_run S L co name events (slot_watch S L co name watch store ht) in
   sorted_wrt (<) (map fst (ws_accepted st))
   \<and> mset (ws_queue st) \<subseteq># mset (map snd (ws_accepted st))
   \<and> list_all (accepted_ok S co name) (ws_accepted st)"
proof -
  have "watch_inv S co name (watch_run S L co name events (slot_watch S L co name watch store ht))"
    by (rule watch_run_inv[OF slot_watch_inv])
  then show ?thesis using slot_watch_once[of S L co name events watch store ht] by (simp add: Let_def watch_inv_def)
qed

text \<open>
  With one transport a slot watch never goes back: the versions the consumer receives are in ascending
  order, whatever the transport's stream yields.
\<close>

theorem single_transport_watch_is_ordered:
  assumes "length (co_transports co) \<le> 1"
  shows "sorted (map sv_version (ws_queue (watch_run S L co name events (slot_watch S L co name watch store ht))))"
proof -
  let ?st = "watch_run S L co name events (slot_watch S L co name watch store ht)"
  have "prefix (ws_queue ?st) (map snd (ws_accepted ?st))"
    by (rule in_step_prefix[OF watch_run_in_step[OF slot_watch_in_step[OF assms]]])
  then obtain rest where "map snd (ws_accepted ?st) = ws_queue ?st @ rest" by (auto simp: prefix_def)
  with accepted_versions_sorted[OF watch_run_inv[OF slot_watch_inv] conjunct1[OF slot_watch_once]] show ?thesis
    by (metis map_append sorted_append)
qed

definition watched :: "unit configured_transport \<Rightarrow> bytes \<Rightarrow> u64 \<Rightarrow> (transport_error, u64 \<times> bytes) res list" where
  "watched endpoint cid since =
    [Ok (0, replicate 24 0 @ [if ct_kind endpoint = Http then 1 else 2] @ replicate 16 0)]"

theorem single_transport_watch_is_ordered_witness:
  "sorted (map sv_version (ws_queue (watch_run byte_env list_lru (two_slots\<lparr>co_transports := [fixed_slot Http []]\<rparr>) ''a''
     (replicate 5 (Run 0 sample_clock))
     (slot_watch byte_env list_lru (two_slots\<lparr>co_transports := [fixed_slot Http []]\<rparr>) ''a'' watched inner_default []))))"
  by (rule single_transport_watch_is_ordered) simp

text \<open>
  With two transports a slot watch may go back. A task gives up the lock on the best value before it
  hands the value over, so another task can accept and deliver a newer one in between: a consumer of this
  watch receives version 2 and then version 1.
\<close>

theorem slot_watch_may_go_back:
  "map sv_version (ws_queue (watch_run byte_env list_lru two_slots ''a''
     (map (\<lambda>i. Run i sample_clock) [0, 0, 0, 1, 1, 1, 1, 1, 0, 0])
     (slot_watch byte_env list_lru two_slots ''a'' watched inner_default []))) = [2, 1]"
  by code_simp

end
