(* ===== verification/PeerEnvelope.thy ===== *)
theory PeerEnvelope
  imports PeerCard
begin

text \<open>
  The public-key envelopes of \<open>crates/enlace/src/peer.rs\<close>: pairwise envelopes with one ciphertext per
  recipient, group envelopes with one ciphertext per group key, their key derivation, their signatures
  and their wire records, and the payload of a peer slot. The msgpack codecs are fields of
  \<open>envelope_env\<close>; the nonces are an argument, one per entry.
\<close>

section \<open>Errors\<close>

datatype peer_envelope_error =
    PeName name_error | NoRecipients | InvalidRecipient peer_card_error | PeMsgpackFailed
  | PeUnsupportedVersion | NotAddressed | PeAeadFailed | PeSignatureInvalid | PeUntrustedSender
  | PeWrongChannel

fun peer_envelope_error_display :: "peer_envelope_error \<Rightarrow> string" where
  "peer_envelope_error_display (PeName err) = ''channel name invalid: '' @ name_error_display err"
| "peer_envelope_error_display NoRecipients = ''peer envelope has no recipients''"
| "peer_envelope_error_display (InvalidRecipient err) =
    ''peer envelope recipient invalid: '' @ peer_card_error_display err"
| "peer_envelope_error_display PeMsgpackFailed = ''peer envelope is malformed''"
| "peer_envelope_error_display PeUnsupportedVersion = ''peer envelope version unsupported''"
| "peer_envelope_error_display NotAddressed = ''peer envelope is not addressed to this peer''"
| "peer_envelope_error_display PeAeadFailed = ''peer envelope authentication failed''"
| "peer_envelope_error_display PeSignatureInvalid = ''peer envelope signature invalid''"
| "peer_envelope_error_display PeUntrustedSender = ''peer envelope sender is not trusted''"
| "peer_envelope_error_display PeWrongChannel = ''peer envelope channel mismatch''"

datatype group_envelope_error =
    GeName name_error | NoGroupKeys | GeMsgpackFailed | GeUnsupportedVersion | MissingGroupKey
  | GeAeadFailed | GeSignatureInvalid | GeUntrustedSender | GeWrongChannel

fun group_envelope_error_display :: "group_envelope_error \<Rightarrow> string" where
  "group_envelope_error_display (GeName err) = ''channel name invalid: '' @ name_error_display err"
| "group_envelope_error_display NoGroupKeys = ''group envelope has no keys''"
| "group_envelope_error_display GeMsgpackFailed = ''group envelope is malformed''"
| "group_envelope_error_display GeUnsupportedVersion = ''group envelope version unsupported''"
| "group_envelope_error_display MissingGroupKey = ''group envelope key is missing''"
| "group_envelope_error_display GeAeadFailed = ''group envelope authentication failed''"
| "group_envelope_error_display GeSignatureInvalid = ''group envelope signature invalid''"
| "group_envelope_error_display GeUntrustedSender = ''group envelope sender is not trusted''"
| "group_envelope_error_display GeWrongChannel = ''group envelope channel mismatch''"

datatype peer_send_error =
    SendPeerEnvelope peer_envelope_error
  | SendGroupEnvelope group_envelope_error
  | PeerSendAllFailed "(transport_kind \<times> transport_error) list"

fun peer_send_error_display :: "peer_send_error \<Rightarrow> string" where
  "peer_send_error_display (SendPeerEnvelope err) = ''peer envelope failed: '' @ peer_envelope_error_display err"
| "peer_send_error_display (SendGroupEnvelope err) = ''group envelope failed: '' @ group_envelope_error_display err"
| "peer_send_error_display (PeerSendAllFailed failures) = format_all_failed failures"

datatype peer_slot_error =
    SlotPeerEnvelope peer_envelope_error
  | SlotGroupEnvelope group_envelope_error
  | SlotMsgpackFailed
  | PeerSlotState state_error
  | PeerSlotAllFailed "(transport_kind \<times> transport_error) list"

fun peer_slot_error_display :: "peer_slot_error \<Rightarrow> string" where
  "peer_slot_error_display (SlotPeerEnvelope err) = ''peer envelope failed: '' @ peer_envelope_error_display err"
| "peer_slot_error_display (SlotGroupEnvelope err) = ''group envelope failed: '' @ group_envelope_error_display err"
| "peer_slot_error_display SlotMsgpackFailed = ''peer slot payload is malformed''"
| "peer_slot_error_display (PeerSlotState err) = ''state store error: '' @ state_error_display err"
| "peer_slot_error_display (PeerSlotAllFailed failures) = format_all_failed failures"

datatype group_key_error = GroupKeyState state_error

fun group_key_error_display :: "group_key_error \<Rightarrow> string" where
  "group_key_error_display (GroupKeyState err) = ''state store error: '' @ state_error_display err"

section \<open>Records\<close>

definition PEER_ENVELOPE_RECORD_VERSION :: u8 where "PEER_ENVELOPE_RECORD_VERSION = 1"
definition GROUP_ENVELOPE_RECORD_VERSION :: u8 where "GROUP_ENVELOPE_RECORD_VERSION = 1"
definition PEER_SLOT_INNER_VERSION :: u8 where "PEER_SLOT_INNER_VERSION = 1"

record peer_recipient_envelope =
  pr_recipient :: bytes
  pr_nonce :: bytes
  pr_ciphertext :: bytes

record peer_envelope =
  pe_sender :: bytes
  pe_kind :: channel_kind
  pe_name :: string
  pe_recipients :: "peer_recipient_envelope list"
  pe_signature :: bytes

record peer_envelope_message =
  pem_sender :: bytes
  pem_signed_by :: bytes
  pem_payload :: bytes

record group_envelope_entry =
  ge_group :: bytes
  ge_key_id :: bytes
  ge_nonce :: bytes
  ge_ciphertext :: bytes

record group_envelope =
  gv_sender :: bytes
  gv_kind :: channel_kind
  gv_name :: string
  gv_entries :: "group_envelope_entry list"
  gv_signature :: bytes

record group_envelope_message =
  gem_sender :: bytes
  gem_signed_by :: bytes
  gem_group :: bytes
  gem_key_id :: bytes
  gem_payload :: bytes

record peer_envelope_wire =
  pw_version :: u8
  pw_sender_peer_id :: bytes
  pw_channel_kind :: u8
  pw_channel_name :: string
  pw_recipients :: "peer_recipient_envelope list"
  pw_signature :: bytes

record group_envelope_wire =
  gw_version :: u8
  gw_sender_peer_id :: bytes
  gw_channel_kind :: u8
  gw_channel_name :: string
  gw_entries :: "group_envelope_entry list"
  gw_signature :: bytes

record peer_slot_inner =
  psi_version :: u8
  psi_slot_version :: u64
  psi_payload :: bytes

record envelope_env = peer_env +
  peer_ser :: "peer_envelope_wire \<Rightarrow> bytes option"
  peer_de :: "bytes \<Rightarrow> peer_envelope_wire option"
  group_ser :: "group_envelope_wire \<Rightarrow> bytes option"
  group_de :: "bytes \<Rightarrow> group_envelope_wire option"
  slot_ser :: "peer_slot_inner \<Rightarrow> bytes option"
  slot_de :: "bytes \<Rightarrow> peer_slot_inner option"

section \<open>Fields\<close>

fun channel_kind_code :: "channel_kind \<Rightarrow> u8" where
  "channel_kind_code Mailbox = 0"
| "channel_kind_code Slot = 1"

definition channel_kind_from_code :: "u8 \<Rightarrow> (peer_envelope_error, channel_kind) res" where
  "channel_kind_from_code code =
    (if code = 0 then Ok Mailbox else if code = 1 then Ok Slot else Err PeMsgpackFailed)"

definition group_channel_kind_from_code :: "u8 \<Rightarrow> (group_envelope_error, channel_kind) res" where
  "group_channel_kind_from_code code =
    (if code = 0 then Ok Mailbox else if code = 1 then Ok Slot else Err GeMsgpackFailed)"

definition write_len_prefixed :: "bytes \<Rightarrow> bytes \<Rightarrow> ('e, bytes) res" where
  "write_len_prefixed out bs =
    bind_res (expect (u32_try_from (length bs))) (\<lambda>len. Ok (out @ u32_be len @ bs))"

definition peer_envelope_aad :: "bytes \<Rightarrow> bytes \<Rightarrow> channel_kind \<Rightarrow> string \<Rightarrow> bytes \<Rightarrow> bytes" where
  "peer_envelope_aad sender recipient kind name nonce =
    str_bytes ''enlace/v1/pkey/aead/'' @ sender @ recipient @ str_bytes (channel_kind_str kind)
      @ str_bytes name @ nonce"

definition group_envelope_aad ::
  "bytes \<Rightarrow> bytes \<Rightarrow> bytes \<Rightarrow> channel_kind \<Rightarrow> string \<Rightarrow> bytes \<Rightarrow> bytes" where
  "group_envelope_aad sender grp key_id kind name nonce =
    str_bytes ''enlace/v1/pkey/group/aead/'' @ sender @ grp @ key_id @ str_bytes (channel_kind_str kind)
      @ str_bytes name @ nonce"

definition pairwise_message_key ::
  "'z suite_scheme \<Rightarrow> bytes \<Rightarrow> bytes \<Rightarrow> channel_kind \<Rightarrow> string \<Rightarrow> bytes \<Rightarrow> ('e, bytes) res" where
  "pairwise_message_key S secret public kind name nonce =
    (let shared = x_dh S secret public;
         info = str_bytes ''enlace/v1/pkey/message'' @ str_bytes (channel_kind_str kind) @ str_bytes name @ nonce
     in hkdf_sha256 S shared [] info AEAD_KEY_LEN)"

definition group_message_key ::
  "'z suite_scheme \<Rightarrow> bytes \<Rightarrow> group_key \<Rightarrow> channel_kind \<Rightarrow> string \<Rightarrow> bytes \<Rightarrow> ('e, bytes) res" where
  "group_message_key S grp key kind name nonce =
    (let info = str_bytes ''enlace/v1/pkey/group'' @ grp @ gk_id key @ str_bytes (channel_kind_str kind)
           @ str_bytes name @ nonce
     in hkdf_sha256 S (gk_secret key) [] info AEAD_KEY_LEN)"

definition peer_encrypt ::
  "'z suite_scheme \<Rightarrow> bytes \<Rightarrow> bytes \<Rightarrow> bytes \<Rightarrow> bytes \<Rightarrow> (peer_envelope_error, bytes) res" where
  "peer_encrypt S key nonce aad plaintext = ok_or PeAeadFailed (aead_encrypt S key nonce aad plaintext)"

definition peer_decrypt ::
  "'z suite_scheme \<Rightarrow> bytes \<Rightarrow> bytes \<Rightarrow> bytes \<Rightarrow> bytes \<Rightarrow> (peer_envelope_error, bytes) res" where
  "peer_decrypt S key nonce aad ciphertext = ok_or PeAeadFailed (aead_decrypt S key nonce aad ciphertext)"

definition group_encrypt ::
  "'z suite_scheme \<Rightarrow> bytes \<Rightarrow> bytes \<Rightarrow> bytes \<Rightarrow> bytes \<Rightarrow> (group_envelope_error, bytes) res" where
  "group_encrypt S key nonce aad plaintext = ok_or GeAeadFailed (aead_encrypt S key nonce aad plaintext)"

definition group_decrypt ::
  "'z suite_scheme \<Rightarrow> bytes \<Rightarrow> bytes \<Rightarrow> bytes \<Rightarrow> bytes \<Rightarrow> (group_envelope_error, bytes) res" where
  "group_decrypt S key nonce aad ciphertext = ok_or GeAeadFailed (aead_decrypt S key nonce aad ciphertext)"

section \<open>Pairwise envelopes\<close>

fun write_recipients :: "peer_recipient_envelope list \<Rightarrow> bytes \<Rightarrow> ('e, bytes) res" where
  "write_recipients [] out = Ok out"
| "write_recipients (r # rs) out =
    bind_res (write_len_prefixed (out @ pr_recipient r @ pr_nonce r) (pr_ciphertext r)) (write_recipients rs)"

definition peer_signature_preimage :: "peer_envelope \<Rightarrow> ('e, bytes) res" where
  "peer_signature_preimage env =
    bind_res (write_len_prefixed
        (str_bytes ''enlace/v1/pkey/sig/'' @ [PEER_ENVELOPE_RECORD_VERSION] @ pe_sender env
          @ [channel_kind_code (pe_kind env)]) (str_bytes (pe_name env))) (\<lambda>out.
    bind_res (expect (u32_try_from (length (pe_recipients env)))) (\<lambda>count.
      write_recipients (pe_recipients env) (out @ u32_be count)))"

fun seal_recipients ::
  "'z suite_scheme \<Rightarrow> (nat \<Rightarrow> bytes) \<Rightarrow> nat \<Rightarrow> peer_identity \<Rightarrow> channel_kind \<Rightarrow> string \<Rightarrow> bytes \<Rightarrow> peer_card list \<Rightarrow>
    (peer_envelope_error, peer_recipient_envelope list) res" where
  "seal_recipients S rng i sender kind name payload [] = Ok []"
| "seal_recipients S rng i sender kind name payload (recipient # recipients) =
    bind_res (map_err InvalidRecipient (card_validate S recipient)) (\<lambda>_.
      let nonce = rng i in
      bind_res (pairwise_message_key S (id_exchange sender) (card_exchange_key recipient) kind name nonce) (\<lambda>key.
      bind_res (peer_encrypt S key nonce
          (peer_envelope_aad (identity_peer_id S sender) (card_peer_id recipient) kind name nonce) payload) (\<lambda>ciphertext.
      bind_res (seal_recipients S rng (Suc i) sender kind name payload recipients) (\<lambda>encrypted.
        Ok (\<lparr> pr_recipient = card_peer_id recipient, pr_nonce = nonce, pr_ciphertext = ciphertext \<rparr> # encrypted)))))"

definition peer_seal ::
  "'z suite_scheme \<Rightarrow> (nat \<Rightarrow> bytes) \<Rightarrow> peer_identity \<Rightarrow> channel_kind \<Rightarrow> string \<Rightarrow> bytes \<Rightarrow> peer_card list \<Rightarrow>
    (peer_envelope_error, peer_envelope) res" where
  "peer_seal S rng sender kind name payload recipients =
    bind_res (map_err PeName (validate_name name)) (\<lambda>_.
      if recipients = [] then Err NoRecipients
      else
        bind_res (seal_recipients S rng 0 sender kind name payload recipients) (\<lambda>encrypted.
          let envelope = \<lparr> pe_sender = identity_peer_id S sender, pe_kind = kind, pe_name = name,
                           pe_recipients = encrypted, pe_signature = replicate SIG_LEN 0 \<rparr> in
          bind_res (peer_signature_preimage envelope) (\<lambda>preimage.
            Ok (envelope\<lparr>pe_signature := sign S (id_signing sender) preimage\<rparr>))))"

definition peer_open ::
  "'z suite_scheme \<Rightarrow> peer_identity \<Rightarrow> channel_kind \<Rightarrow> string \<Rightarrow> trusted_peer list \<Rightarrow> peer_envelope \<Rightarrow>
    (peer_envelope_error, peer_envelope_message) res" where
  "peer_open S recipient kind name trusted env =
    bind_res (map_err PeName (validate_name name)) (\<lambda>_.
      if pe_kind env \<noteq> kind \<or> pe_name env \<noteq> name then Err PeWrongChannel
      else
        bind_res (ok_or NotAddressed
            (find (\<lambda>entry. pr_recipient entry = identity_peer_id S recipient) (pe_recipients env))) (\<lambda>entry.
        bind_res (ok_or PeUntrustedSender
            (find (\<lambda>peer. trusted_peer_id peer = pe_sender env) trusted)) (\<lambda>sender.
        bind_res (map_err (\<lambda>_. PeUntrustedSender) (card_validate S (tp_card sender))) (\<lambda>_.
        bind_res (pairwise_message_key S (id_exchange recipient) (card_exchange_key (tp_card sender)) kind name
            (pr_nonce entry)) (\<lambda>key.
        bind_res (peer_decrypt S key (pr_nonce entry)
            (peer_envelope_aad (pe_sender env) (pr_recipient entry) kind name (pr_nonce entry))
            (pr_ciphertext entry)) (\<lambda>payload.
        bind_res (peer_signature_preimage env) (\<lambda>preimage.
          if \<not> verify S (card_signing_key (tp_card sender)) preimage (pe_signature env)
          then Err PeSignatureInvalid
          else Ok \<lparr> pem_sender = pe_sender env, pem_signed_by = card_signing_key (tp_card sender),
                    pem_payload = payload \<rparr>)))))))"

definition peer_to_wire :: "peer_envelope \<Rightarrow> peer_envelope_wire" where
  "peer_to_wire env =
    \<lparr> pw_version = PEER_ENVELOPE_RECORD_VERSION, pw_sender_peer_id = pe_sender env,
      pw_channel_kind = channel_kind_code (pe_kind env), pw_channel_name = pe_name env,
      pw_recipients = pe_recipients env, pw_signature = pe_signature env \<rparr>"

definition peer_try_from_wire :: "peer_envelope_wire \<Rightarrow> (peer_envelope_error, peer_envelope) res" where
  "peer_try_from_wire wire =
    (if pw_version wire \<noteq> PEER_ENVELOPE_RECORD_VERSION then Err PeUnsupportedVersion
     else
       bind_res (channel_kind_from_code (pw_channel_kind wire)) (\<lambda>kind.
       bind_res (map_err PeName (validate_name (pw_channel_name wire))) (\<lambda>_.
         if pw_recipients wire = [] then Err NoRecipients
         else if length (pw_signature wire) \<noteq> SIG_LEN then Err PeSignatureInvalid
         else Ok \<lparr> pe_sender = pw_sender_peer_id wire, pe_kind = kind, pe_name = pw_channel_name wire,
                   pe_recipients = pw_recipients wire, pe_signature = pw_signature wire \<rparr>)))"

definition peer_to_bytes :: "'z envelope_env_scheme \<Rightarrow> peer_envelope \<Rightarrow> (peer_envelope_error, bytes) res" where
  "peer_to_bytes E env = ok_or PeMsgpackFailed (peer_ser E (peer_to_wire env))"

definition peer_from_bytes :: "'z envelope_env_scheme \<Rightarrow> bytes \<Rightarrow> (peer_envelope_error, peer_envelope) res" where
  "peer_from_bytes E bs = bind_res (ok_or PeMsgpackFailed (peer_de E bs)) peer_try_from_wire"

definition peer_open_bytes ::
  "'z envelope_env_scheme \<Rightarrow> bytes \<Rightarrow> peer_identity \<Rightarrow> channel_kind \<Rightarrow> string \<Rightarrow> trusted_peer list \<Rightarrow>
    (peer_envelope_error, peer_envelope_message) res" where
  "peer_open_bytes E bs recipient kind name trusted =
    bind_res (peer_from_bytes E bs) (peer_open E recipient kind name trusted)"

definition peer_open_or_drop ::
  "'z suite_scheme \<Rightarrow> peer_identity \<Rightarrow> channel_kind \<Rightarrow> string \<Rightarrow> trusted_peer list \<Rightarrow> peer_envelope \<Rightarrow>
    ('e, peer_envelope_message option) res" where
  "peer_open_or_drop S recipient kind name trusted env = res_ok (peer_open S recipient kind name trusted env)"

definition peer_open_bytes_or_drop ::
  "'z envelope_env_scheme \<Rightarrow> bytes \<Rightarrow> peer_identity \<Rightarrow> channel_kind \<Rightarrow> string \<Rightarrow> trusted_peer list \<Rightarrow>
    ('e, peer_envelope_message option) res" where
  "peer_open_bytes_or_drop E bs recipient kind name trusted = res_ok (peer_open_bytes E bs recipient kind name trusted)"

section \<open>Group envelopes\<close>

fun write_entries :: "group_envelope_entry list \<Rightarrow> bytes \<Rightarrow> ('e, bytes) res" where
  "write_entries [] out = Ok out"
| "write_entries (e # es) out =
    bind_res (write_len_prefixed (out @ ge_group e @ ge_key_id e @ ge_nonce e) (ge_ciphertext e)) (write_entries es)"

definition group_signature_preimage :: "group_envelope \<Rightarrow> ('e, bytes) res" where
  "group_signature_preimage env =
    bind_res (write_len_prefixed
        (str_bytes ''enlace/v1/pkey/group/sig/'' @ [GROUP_ENVELOPE_RECORD_VERSION] @ gv_sender env
          @ [channel_kind_code (gv_kind env)]) (str_bytes (gv_name env))) (\<lambda>out.
    bind_res (expect (u32_try_from (length (gv_entries env)))) (\<lambda>count.
      write_entries (gv_entries env) (out @ u32_be count)))"

fun seal_entries ::
  "'z suite_scheme \<Rightarrow> (nat \<Rightarrow> bytes) \<Rightarrow> nat \<Rightarrow> peer_identity \<Rightarrow> channel_kind \<Rightarrow> string \<Rightarrow> bytes \<Rightarrow>
    (bytes \<times> group_key) list \<Rightarrow> (group_envelope_error, group_envelope_entry list) res" where
  "seal_entries S rng i sender kind name payload [] = Ok []"
| "seal_entries S rng i sender kind name payload ((grp, key) # keys) =
    (let nonce = rng i in
     bind_res (group_message_key S grp key kind name nonce) (\<lambda>message_key.
     bind_res (group_encrypt S message_key nonce
         (group_envelope_aad (identity_peer_id S sender) grp (gk_id key) kind name nonce) payload) (\<lambda>ciphertext.
     bind_res (seal_entries S rng (Suc i) sender kind name payload keys) (\<lambda>entries.
       Ok (\<lparr> ge_group = grp, ge_key_id = gk_id key, ge_nonce = nonce, ge_ciphertext = ciphertext \<rparr> # entries)))))"

definition group_seal ::
  "'z suite_scheme \<Rightarrow> (nat \<Rightarrow> bytes) \<Rightarrow> peer_identity \<Rightarrow> channel_kind \<Rightarrow> string \<Rightarrow> bytes \<Rightarrow>
    (bytes \<times> group_key) list \<Rightarrow> (group_envelope_error, group_envelope) res" where
  "group_seal S rng sender kind name payload group_keys =
    bind_res (map_err GeName (validate_name name)) (\<lambda>_.
      if group_keys = [] then Err NoGroupKeys
      else
        bind_res (seal_entries S rng 0 sender kind name payload group_keys) (\<lambda>entries.
          let envelope = \<lparr> gv_sender = identity_peer_id S sender, gv_kind = kind, gv_name = name,
                           gv_entries = entries, gv_signature = replicate SIG_LEN 0 \<rparr> in
          bind_res (group_signature_preimage envelope) (\<lambda>preimage.
            Ok (envelope\<lparr>gv_signature := sign S (id_signing sender) preimage\<rparr>))))"

text \<open>
  The two nested loops of \<open>GroupEnvelope::open\<close> as one pass over the pairs of an entry and a key, in
  the order the loops visit them; the flag is \<open>had_aead_failure\<close>, which implies \<open>had_matching_key\<close>.
\<close>

fun group_try_entries ::
  "'z suite_scheme \<Rightarrow> group_envelope \<Rightarrow> peer_card \<Rightarrow> channel_kind \<Rightarrow> string \<Rightarrow>
    (group_envelope_entry \<times> bytes \<times> group_key) list \<Rightarrow> bool \<Rightarrow> (group_envelope_error, group_envelope_message) res" where
  "group_try_entries S env sender kind name [] had_aead_failure =
    (if had_aead_failure then Err GeAeadFailed else Err MissingGroupKey)"
| "group_try_entries S env sender kind name ((entry, grp, key) # pairs) had_aead_failure =
    (if grp \<noteq> ge_group entry \<or> gk_id key \<noteq> ge_key_id entry
     then group_try_entries S env sender kind name pairs had_aead_failure
     else
       bind_res (group_message_key S grp key kind name (ge_nonce entry)) (\<lambda>message_key.
         case group_decrypt S message_key (ge_nonce entry)
                (group_envelope_aad (gv_sender env) grp (gk_id key) kind name (ge_nonce entry)) (ge_ciphertext entry) of
           Ok payload \<Rightarrow>
             bind_res (group_signature_preimage env) (\<lambda>preimage.
               if \<not> verify S (card_signing_key sender) preimage (gv_signature env)
               then Err GeSignatureInvalid
               else Ok \<lparr> gem_sender = gv_sender env, gem_signed_by = card_signing_key sender,
                         gem_group = grp, gem_key_id = gk_id key, gem_payload = payload \<rparr>)
         | Err GeAeadFailed \<Rightarrow> group_try_entries S env sender kind name pairs True
         | Err err \<Rightarrow> Err err
         | Panic \<Rightarrow> Panic))"

definition group_open ::
  "'z suite_scheme \<Rightarrow> channel_kind \<Rightarrow> string \<Rightarrow> trusted_peer list \<Rightarrow> (bytes \<times> group_key) list \<Rightarrow> group_envelope \<Rightarrow>
    (group_envelope_error, group_envelope_message) res" where
  "group_open S kind name trusted group_keys env =
    bind_res (map_err GeName (validate_name name)) (\<lambda>_.
      if gv_kind env \<noteq> kind \<or> gv_name env \<noteq> name then Err GeWrongChannel
      else
        bind_res (ok_or GeUntrustedSender
            (find (\<lambda>peer. trusted_peer_id peer = gv_sender env) trusted)) (\<lambda>sender.
        bind_res (map_err (\<lambda>_. GeUntrustedSender) (card_validate S (tp_card sender))) (\<lambda>_.
          group_try_entries S env (tp_card sender) kind name (List.product (gv_entries env) group_keys) False)))"

definition group_to_wire :: "group_envelope \<Rightarrow> group_envelope_wire" where
  "group_to_wire env =
    \<lparr> gw_version = GROUP_ENVELOPE_RECORD_VERSION, gw_sender_peer_id = gv_sender env,
      gw_channel_kind = channel_kind_code (gv_kind env), gw_channel_name = gv_name env,
      gw_entries = gv_entries env, gw_signature = gv_signature env \<rparr>"

definition group_try_from_wire :: "group_envelope_wire \<Rightarrow> (group_envelope_error, group_envelope) res" where
  "group_try_from_wire wire =
    (if gw_version wire \<noteq> GROUP_ENVELOPE_RECORD_VERSION then Err GeUnsupportedVersion
     else
       bind_res (group_channel_kind_from_code (gw_channel_kind wire)) (\<lambda>kind.
       bind_res (map_err GeName (validate_name (gw_channel_name wire))) (\<lambda>_.
         if gw_entries wire = [] then Err NoGroupKeys
         else if length (gw_signature wire) \<noteq> SIG_LEN then Err GeSignatureInvalid
         else Ok \<lparr> gv_sender = gw_sender_peer_id wire, gv_kind = kind, gv_name = gw_channel_name wire,
                   gv_entries = gw_entries wire, gv_signature = gw_signature wire \<rparr>)))"

definition group_to_bytes :: "'z envelope_env_scheme \<Rightarrow> group_envelope \<Rightarrow> (group_envelope_error, bytes) res" where
  "group_to_bytes E env = ok_or GeMsgpackFailed (group_ser E (group_to_wire env))"

definition group_from_bytes :: "'z envelope_env_scheme \<Rightarrow> bytes \<Rightarrow> (group_envelope_error, group_envelope) res" where
  "group_from_bytes E bs = bind_res (ok_or GeMsgpackFailed (group_de E bs)) group_try_from_wire"

definition group_open_bytes ::
  "'z envelope_env_scheme \<Rightarrow> bytes \<Rightarrow> channel_kind \<Rightarrow> string \<Rightarrow> trusted_peer list \<Rightarrow> (bytes \<times> group_key) list \<Rightarrow>
    (group_envelope_error, group_envelope_message) res" where
  "group_open_bytes E bs kind name trusted group_keys =
    bind_res (group_from_bytes E bs) (group_open E kind name trusted group_keys)"

definition group_open_or_drop ::
  "'z suite_scheme \<Rightarrow> channel_kind \<Rightarrow> string \<Rightarrow> trusted_peer list \<Rightarrow> (bytes \<times> group_key) list \<Rightarrow> group_envelope \<Rightarrow>
    ('e, group_envelope_message option) res" where
  "group_open_or_drop S kind name trusted group_keys env = res_ok (group_open S kind name trusted group_keys env)"

definition group_open_bytes_or_drop ::
  "'z envelope_env_scheme \<Rightarrow> bytes \<Rightarrow> channel_kind \<Rightarrow> string \<Rightarrow> trusted_peer list \<Rightarrow> (bytes \<times> group_key) list \<Rightarrow>
    ('e, group_envelope_message option) res" where
  "group_open_bytes_or_drop E bs kind name trusted group_keys =
    res_ok (group_open_bytes E bs kind name trusted group_keys)"

section \<open>Peer slot payloads\<close>

text \<open>A peer slot seals this record as the payload of its envelope.\<close>

definition encode_peer_slot_payload ::
  "'z envelope_env_scheme \<Rightarrow> u64 \<Rightarrow> bytes \<Rightarrow> (peer_slot_error, bytes) res" where
  "encode_peer_slot_payload E version payload =
    ok_or SlotMsgpackFailed
      (slot_ser E \<lparr> psi_version = PEER_SLOT_INNER_VERSION, psi_slot_version = version, psi_payload = payload \<rparr>)"

definition decode_peer_slot_payload ::
  "'z envelope_env_scheme \<Rightarrow> bytes \<Rightarrow> (peer_slot_error, u64 \<times> bytes) res" where
  "decode_peer_slot_payload E bs =
    bind_res (ok_or SlotMsgpackFailed (slot_de E bs)) (\<lambda>inn.
      if psi_version inn \<noteq> PEER_SLOT_INNER_VERSION then Err SlotMsgpackFailed
      else Ok (psi_slot_version inn, psi_payload inn))"

text \<open>What the codecs promise: decoding inverts encoding.\<close>

definition envelope_codec_ok :: "'z envelope_env_scheme \<Rightarrow> bool" where
  "envelope_codec_ok E \<longleftrightarrow>
    (\<forall>w b. peer_ser E w = Some b \<longrightarrow> peer_de E b = Some w)
    \<and> (\<forall>w b. group_ser E w = Some b \<longrightarrow> group_de E b = Some w)
    \<and> (\<forall>i b. slot_ser E i = Some b \<longrightarrow> slot_de E b = Some i)"

lemma decode_encode_peer_slot_payload:
  "envelope_codec_ok E \<Longrightarrow> encode_peer_slot_payload E v payload = Ok b \<Longrightarrow>
    decode_peer_slot_payload E b = Ok (v, payload)"
  by (auto simp: encode_peer_slot_payload_def decode_peer_slot_payload_def envelope_codec_ok_def res_simps)

section \<open>Self-delimiting encodings\<close>

text \<open>
  An encoding from whose start its value can be told apart. Sequences of such encodings, of a known
  length, can then be told apart too.
\<close>

locale self_delimiting =
  fixes enc :: "'a \<Rightarrow> bytes" and wf :: "'a \<Rightarrow> bool"
  assumes enc_inj: "wf x \<Longrightarrow> wf y \<Longrightarrow> enc x @ r = enc y @ s \<Longrightarrow> x = y \<and> r = s"
begin

lemma enc_list_inj:
  "list_all wf xs \<Longrightarrow> list_all wf ys \<Longrightarrow> length xs = length ys \<Longrightarrow>
    concat (map enc xs) @ r = concat (map enc ys) @ s \<Longrightarrow> xs = ys \<and> r = s"
proof (induction xs arbitrary: ys)
  case (Cons x xs)
  then obtain y zs where ys: "ys = y # zs" by (cases ys) auto
  with Cons.prems have "x = y \<and> concat (map enc xs) @ r = concat (map enc zs) @ s"
    by (intro enc_inj) auto
  with Cons ys show ?case by auto
qed simp

end

definition len_prefixed :: "bytes \<Rightarrow> bytes" where
  "len_prefixed bs = u32_be (of_nat (length bs)) @ bs"

definition small :: "bytes \<Rightarrow> bool" where
  "small bs \<longleftrightarrow> length bs < 2 ^ 32"

lemma u32_of_nat_inject: "a < 2 ^ 32 \<Longrightarrow> b < 2 ^ 32 \<Longrightarrow> (of_nat a :: u32) = of_nat b \<longleftrightarrow> a = b"
  by (auto dest: arg_cong[of _ _ unat] simp: unat_of_nat)

interpretation len_field: self_delimiting len_prefixed small
proof
  fix x y r s :: bytes
  assume "small x" "small y" and eq: "len_prefixed x @ r = len_prefixed y @ s"
  from eq have "(of_nat (length x) :: u32) = of_nat (length y)" "x @ r = y @ s"
    by (simp_all add: len_prefixed_def append_len_inject)
  with \<open>small x\<close> \<open>small y\<close> show "x = y \<and> r = s"
    by (simp add: small_def u32_of_nat_inject)
qed

definition recipient_bytes :: "peer_recipient_envelope \<Rightarrow> bytes" where
  "recipient_bytes r = pr_recipient r @ pr_nonce r @ len_prefixed (pr_ciphertext r)"

definition recipient_wf :: "peer_recipient_envelope \<Rightarrow> bool" where
  "recipient_wf r \<longleftrightarrow> length (pr_recipient r) = 32 \<and> length (pr_nonce r) = NONCE_LEN \<and> small (pr_ciphertext r)"

definition entry_bytes :: "group_envelope_entry \<Rightarrow> bytes" where
  "entry_bytes e = ge_group e @ ge_key_id e @ ge_nonce e @ len_prefixed (ge_ciphertext e)"

definition entry_wf :: "group_envelope_entry \<Rightarrow> bool" where
  "entry_wf e \<longleftrightarrow> length (ge_group e) = 32 \<and> length (ge_key_id e) = 32 \<and> length (ge_nonce e) = NONCE_LEN
    \<and> small (ge_ciphertext e)"

interpretation recipients: self_delimiting recipient_bytes recipient_wf
proof
  fix x y :: peer_recipient_envelope and r s
  assume wf: "recipient_wf x" "recipient_wf y" and eq: "recipient_bytes x @ r = recipient_bytes y @ s"
  then have "pr_recipient x = pr_recipient y" "pr_nonce x = pr_nonce y"
    "len_prefixed (pr_ciphertext x) @ r = len_prefixed (pr_ciphertext y) @ s"
    by (simp_all add: recipient_bytes_def recipient_wf_def append_len_inject)
  with len_field.enc_inj wf show "x = y \<and> r = s" by (auto simp: recipient_wf_def)
qed

interpretation entries: self_delimiting entry_bytes entry_wf
proof
  fix x y :: group_envelope_entry and r s
  assume wf: "entry_wf x" "entry_wf y" and eq: "entry_bytes x @ r = entry_bytes y @ s"
  then have "ge_group x = ge_group y" "ge_key_id x = ge_key_id y" "ge_nonce x = ge_nonce y"
    "len_prefixed (ge_ciphertext x) @ r = len_prefixed (ge_ciphertext y) @ s"
    by (simp_all add: entry_bytes_def entry_wf_def append_len_inject)
  with len_field.enc_inj wf show "x = y \<and> r = s" by (auto simp: entry_wf_def)
qed

section \<open>Signature preimages\<close>

lemma write_len_prefixed_Ok [res_simps]:
  "write_len_prefixed out bs = Ok x \<longleftrightarrow> small bs \<and> x = out @ len_prefixed bs"
  by (auto simp: write_len_prefixed_def u32_try_from_def small_def len_prefixed_def res_simps)

lemma write_recipients_Ok:
  "write_recipients rs out = Ok x \<longleftrightarrow>
    list_all (\<lambda>r. small (pr_ciphertext r)) rs \<and> x = out @ concat (map recipient_bytes rs)"
  by (induction rs arbitrary: out) (auto simp: res_simps recipient_bytes_def)

lemma write_entries_Ok:
  "write_entries es out = Ok x \<longleftrightarrow>
    list_all (\<lambda>e. small (ge_ciphertext e)) es \<and> x = out @ concat (map entry_bytes es)"
  by (induction es arbitrary: out) (auto simp: res_simps entry_bytes_def)

text \<open>The fields of an envelope as the Rust types fix them: ids of 32 bytes, nonces of 24.\<close>

definition peer_envelope_typed :: "peer_envelope \<Rightarrow> bool" where
  "peer_envelope_typed env \<longleftrightarrow> length (pe_sender env) = 32 \<and>
    list_all (\<lambda>r. length (pr_recipient r) = 32 \<and> length (pr_nonce r) = NONCE_LEN) (pe_recipients env)"

definition group_envelope_typed :: "group_envelope \<Rightarrow> bool" where
  "group_envelope_typed env \<longleftrightarrow> length (gv_sender env) = 32 \<and>
    list_all (\<lambda>e. length (ge_group e) = 32 \<and> length (ge_key_id e) = 32 \<and> length (ge_nonce e) = NONCE_LEN) (gv_entries env)"

definition envelope_prefix :: "string \<Rightarrow> bytes \<Rightarrow> channel_kind \<Rightarrow> string \<Rightarrow> nat \<Rightarrow> bytes" where
  "envelope_prefix domain sender kind name n =
    str_bytes domain @ [1] @ sender @ [channel_kind_code kind] @ len_prefixed (str_bytes name) @ u32_be (of_nat n)"

lemma channel_kind_code_inject [simp]: "channel_kind_code a = channel_kind_code b \<longleftrightarrow> a = b"
  by (cases a; cases b) auto

lemma envelope_prefix_inject:
  assumes "envelope_prefix domain a k m i @ r = envelope_prefix domain b l n j @ s"
    and "length a = length b" "small (str_bytes m)" "small (str_bytes n)" "i < 2 ^ 32" "j < 2 ^ 32"
  shows "a = b \<and> k = l \<and> m = n \<and> i = j \<and> r = s"
proof -
  from assms(1,2) have "a = b" "k = l"
    and "len_prefixed (str_bytes m) @ u32_be (of_nat i) @ r = len_prefixed (str_bytes n) @ u32_be (of_nat j) @ s"
    by (simp_all add: envelope_prefix_def append_len_inject)
  with len_field.enc_inj[OF assms(3,4)] have "m = n" "u32_be (of_nat i) @ r = u32_be (of_nat j) @ s"
    by auto
  with \<open>a = b\<close> \<open>k = l\<close> assms(5,6) show ?thesis by (simp add: append_len_inject u32_of_nat_inject)
qed

lemma peer_signature_preimage_Ok:
  "peer_signature_preimage env = Ok x \<longleftrightarrow>
    small (str_bytes (pe_name env)) \<and> length (pe_recipients env) < 2 ^ 32
    \<and> list_all (\<lambda>r. small (pr_ciphertext r)) (pe_recipients env)
    \<and> x = envelope_prefix ''enlace/v1/pkey/sig/'' (pe_sender env) (pe_kind env) (pe_name env) (length (pe_recipients env))
        @ concat (map recipient_bytes (pe_recipients env))"
  by (auto simp: peer_signature_preimage_def res_simps write_recipients_Ok u32_try_from_def
      envelope_prefix_def PEER_ENVELOPE_RECORD_VERSION_def)

lemma group_signature_preimage_Ok:
  "group_signature_preimage env = Ok x \<longleftrightarrow>
    small (str_bytes (gv_name env)) \<and> length (gv_entries env) < 2 ^ 32
    \<and> list_all (\<lambda>e. small (ge_ciphertext e)) (gv_entries env)
    \<and> x = envelope_prefix ''enlace/v1/pkey/group/sig/'' (gv_sender env) (gv_kind env) (gv_name env) (length (gv_entries env))
        @ concat (map entry_bytes (gv_entries env))"
  by (auto simp: group_signature_preimage_def res_simps write_entries_Ok u32_try_from_def
      envelope_prefix_def GROUP_ENVELOPE_RECORD_VERSION_def)

section \<open>Sealing, then opening\<close>

text \<open>The key and associated data of an entry, as both sides compute them.\<close>

abbreviation pair_key :: "'z suite_scheme \<Rightarrow> bytes \<Rightarrow> bytes \<Rightarrow> channel_kind \<Rightarrow> string \<Rightarrow> bytes \<Rightarrow> bytes" where
  "pair_key S secret public kind name nonce \<equiv>
    hkdf_expand S None (x_dh S secret public)
      (str_bytes ''enlace/v1/pkey/message'' @ str_bytes (channel_kind_str kind) @ str_bytes name @ nonce) 32"

abbreviation member_key :: "'z suite_scheme \<Rightarrow> bytes \<Rightarrow> group_key \<Rightarrow> channel_kind \<Rightarrow> string \<Rightarrow> bytes \<Rightarrow> bytes" where
  "member_key S grp key kind name nonce \<equiv>
    hkdf_expand S None (gk_secret key)
      (str_bytes ''enlace/v1/pkey/group'' @ grp @ gk_id key @ str_bytes (channel_kind_str kind) @ str_bytes name @ nonce) 32"

lemma message_key_eqs [simp]:
  "pairwise_message_key S secret public kind name nonce = Ok (pair_key S secret public kind name nonce)"
  "group_message_key S grp key kind name nonce = Ok (member_key S grp key kind name nonce)"
  by (simp_all add: pairwise_message_key_def group_message_key_def hkdf_sha256_def crypto_consts)

definition entry_for ::
  "'z suite_scheme \<Rightarrow> peer_identity \<Rightarrow> channel_kind \<Rightarrow> string \<Rightarrow> bytes \<Rightarrow> peer_card \<Rightarrow> peer_recipient_envelope \<Rightarrow> bool" where
  "entry_for S sender kind name payload c e \<longleftrightarrow>
    pr_recipient e = card_peer_id c \<and> length (pr_nonce e) = 24 \<and> length (pr_ciphertext e) = length payload + 16
    \<and> aead_decrypt S (pair_key S (id_exchange sender) (card_exchange_key c) kind name (pr_nonce e)) (pr_nonce e)
        (peer_envelope_aad (identity_peer_id S sender) (card_peer_id c) kind name (pr_nonce e)) (pr_ciphertext e)
      = Some payload"

lemma aead_okE:
  assumes "aead_ok S" "length k = 32" "length n = 24" "length m \<le> aead_max"
  obtains c where "aead_encrypt S k n a m = Some c" "length c = length m + 16" "aead_decrypt S k n a c = Some m"
  using assms unfolding aead_ok_def by blast

lemma seal_recipients_total:
  assumes "hkdf_ok S" "aead_ok S" "\<forall>i. length (rng i) = 24" "length payload \<le> aead_max"
    and "\<forall>c \<in> set cards. card_validate S c = Ok ()"
  shows "\<exists>es. seal_recipients S rng i sender kind name payload cards = Ok es
    \<and> list_all2 (entry_for S sender kind name payload) cards es"
  using assms(5)
proof (induction cards arbitrary: i)
  case (Cons c cards)
  let ?k = "pair_key S (id_exchange sender) (card_exchange_key c) kind name (rng i)"
  let ?a = "peer_envelope_aad (identity_peer_id S sender) (card_peer_id c) kind name (rng i)"
  obtain ct where ct: "aead_encrypt S ?k (rng i) ?a payload = Some ct" "length ct = length payload + 16"
    "aead_decrypt S ?k (rng i) ?a ct = Some payload"
    using aead_okE[OF assms(2), of ?k "rng i" payload ?a] assms(1,3,4) by auto
  obtain es where es: "seal_recipients S rng (Suc i) sender kind name payload cards = Ok es"
    "list_all2 (entry_for S sender kind name payload) cards es" using Cons by auto
  have "entry_for S sender kind name payload c
      \<lparr> pr_recipient = card_peer_id c, pr_nonce = rng i, pr_ciphertext = ct \<rparr>"
    using ct(2,3) assms(3) by (simp add: entry_for_def)
  with ct es Cons.prems show ?case by (auto simp: peer_encrypt_def Let_def)
qed simp

lemma list_all2_find:
  assumes "list_all2 Q cs es" "\<And>c e. Q c e \<Longrightarrow> f c = g e" "c0 \<in> set cs" "P (f c0)"
  shows "\<exists>c e. c \<in> set cs \<and> find (\<lambda>e. P (g e)) es = Some e \<and> Q c e \<and> P (f c)"
  using assms(1,3)
proof (induction rule: list_all2_induct)
  case (Cons c cs e es)
  show ?case
  proof (cases "P (f c)")
    case True
    with Cons assms(2)[of c e] show ?thesis by (intro exI[of _ c] exI[of _ e]) auto
  next
    case False
    with Cons assms(2)[of c e] assms(4) show ?thesis by auto
  qed
qed simp

lemma peer_seal_open:
  assumes prim: "hkdf_ok S" "aead_ok S" "ed_ok S" "dh_ok S"
    and name: "valid_name name" and rng: "\<forall>i. length (rng i) = 24" and sk: "length (id_signing sender) = 32"
    and size: "length payload + 16 < 2 ^ 32" "length cards < 2 ^ 32"
    and cards: "\<forall>c \<in> set cards. card_validate S c = Ok ()" "identity_card S r \<in> set cards"
    and uniq: "\<forall>c \<in> set cards. card_peer_id c = identity_peer_id S r \<longrightarrow> card_exchange_key c = x_public S (id_exchange r)"
    and trust: "find (\<lambda>p. trusted_peer_id p = identity_peer_id S sender) trusted = Some t"
      "tp_card t = identity_card S sender" "card_validate S (tp_card t) = Ok ()"
  shows "\<exists>env. peer_seal S rng sender kind name payload cards = Ok env
    \<and> length (pe_signature env) = 64 \<and> pe_recipients env \<noteq> [] \<and> pe_kind env = kind \<and> pe_name env = name
    \<and> peer_open S r kind name trusted env
      = Ok \<lparr> pem_sender = identity_peer_id S sender, pem_signed_by = ed_public S (id_signing sender), pem_payload = payload \<rparr>"
proof -
  have "length payload \<le> aead_max" using size(1) by (simp add: aead_max_def)
  then obtain es where es: "seal_recipients S rng 0 sender kind name payload cards = Ok es"
    "list_all2 (entry_for S sender kind name payload) cards es"
    using seal_recipients_total[OF prim(1,2) rng _ cards(1)] by blast
  let ?env0 = "\<lparr> pe_sender = identity_peer_id S sender, pe_kind = kind, pe_name = name,
     pe_recipients = es, pe_signature = replicate SIG_LEN 0 \<rparr>"
  have "length es = length cards" using es(2) by (rule list_all2_lengthD[symmetric])
  moreover have "list_all (\<lambda>e. small (pr_ciphertext e)) es"
    using es(2) size(1) by (induction rule: list_all2_induct) (auto simp: entry_for_def small_def)
  moreover have "small (str_bytes name)" using name by (simp add: small_def valid_name_def)
  ultimately obtain p where p: "peer_signature_preimage (?env0\<lparr>pe_signature := sg\<rparr>) = (Ok p :: (peer_envelope_error, bytes) res)" for sg
    using size(2) by (simp add: peer_signature_preimage_Ok)
  let ?sig = "sign S (id_signing sender) p"
  let ?env = "?env0\<lparr>pe_signature := ?sig\<rparr>"
  have sig: "length ?sig = 64" "verify S (ed_public S (id_signing sender)) p ?sig"
    using prim(3) sk by (simp_all add: ed_ok_def sign_def verify_def)
  have cid: "card_peer_id (identity_card S x) = identity_peer_id S x" "card_signing_key (identity_card S x) = ed_public S (id_signing x)"
    "card_exchange_key (identity_card S x) = x_public S (id_exchange x)" for x
    by (simp_all add: identity_card_def card_new_def identity_peer_id_def)
  obtain c e where e: "c \<in> set cards" "find (\<lambda>e. pr_recipient e = identity_peer_id S r) es = Some e"
    "entry_for S sender kind name payload c e" "card_peer_id c = identity_peer_id S r"
    using list_all2_find[OF es(2), of card_peer_id pr_recipient "identity_card S r" "\<lambda>x. x = identity_peer_id S r"]
      cards(2) cid by (auto simp: entry_for_def)
  have "aead_decrypt S (pair_key S (id_exchange r) (x_public S (id_exchange sender)) kind name (pr_nonce e)) (pr_nonce e)
      (peer_envelope_aad (identity_peer_id S sender) (pr_recipient e) kind name (pr_nonce e)) (pr_ciphertext e) = Some payload"
    using e uniq prim(4) by (auto simp: entry_for_def dh_ok_def)
  then have "peer_open S r kind name trusted ?env
      = Ok \<lparr> pem_sender = identity_peer_id S sender, pem_signed_by = ed_public S (id_signing sender), pem_payload = payload \<rparr>"
    using name e(2) trust sig(2) cid p[of ?sig] by (simp add: peer_open_def peer_decrypt_def)
  moreover have "peer_seal S rng sender kind name payload cards = Ok ?env"
    using name cards(2) es(1) p[of "replicate SIG_LEN 0"] by (auto simp: peer_seal_def)
  moreover have "es \<noteq> []" using e(2) by auto
  ultimately show ?thesis using sig(1) by (intro exI[of _ ?env]) auto
qed

definition group_entry_for ::
  "'z suite_scheme \<Rightarrow> peer_identity \<Rightarrow> channel_kind \<Rightarrow> string \<Rightarrow> bytes \<Rightarrow> bytes \<times> group_key \<Rightarrow> group_envelope_entry \<Rightarrow> bool" where
  "group_entry_for S sender kind name payload gk e \<longleftrightarrow>
    ge_group e = fst gk \<and> ge_key_id e = gk_id (snd gk) \<and> length (ge_nonce e) = 24
    \<and> length (ge_ciphertext e) = length payload + 16
    \<and> aead_decrypt S (member_key S (fst gk) (snd gk) kind name (ge_nonce e)) (ge_nonce e)
        (group_envelope_aad (identity_peer_id S sender) (fst gk) (gk_id (snd gk)) kind name (ge_nonce e)) (ge_ciphertext e)
      = Some payload"

lemma seal_entries_total:
  assumes "hkdf_ok S" "aead_ok S" "\<forall>i. length (rng i) = 24" "length payload \<le> aead_max"
  shows "\<exists>es. seal_entries S rng i sender kind name payload keys = Ok es
    \<and> list_all2 (group_entry_for S sender kind name payload) keys es"
proof (induction keys arbitrary: i)
  case (Cons gk keys)
  obtain grp key where gk: "gk = (grp, key)" by (cases gk)
  let ?k = "member_key S grp key kind name (rng i)"
  let ?a = "group_envelope_aad (identity_peer_id S sender) grp (gk_id key) kind name (rng i)"
  obtain ct where ct: "aead_encrypt S ?k (rng i) ?a payload = Some ct" "length ct = length payload + 16"
    "aead_decrypt S ?k (rng i) ?a ct = Some payload"
    using aead_okE[OF assms(2), of ?k "rng i" payload ?a] assms(1,3,4) by auto
  obtain es where es: "seal_entries S rng (Suc i) sender kind name payload keys = Ok es"
    "list_all2 (group_entry_for S sender kind name payload) keys es" using Cons by auto
  have "group_entry_for S sender kind name payload gk
      \<lparr> ge_group = grp, ge_key_id = gk_id key, ge_nonce = rng i, ge_ciphertext = ct \<rparr>"
    using ct(2,3) assms(3) gk by (simp add: group_entry_for_def)
  with ct es gk show ?case by (auto simp: group_encrypt_def Let_def)
qed simp

text \<open>
  The search for a usable entry: when every pair that matches decrypts to the payload and the
  signature is right, it succeeds as soon as some pair matches.
\<close>

lemma group_try_entries_finds:
  assumes "\<forall>(e, grp, key) \<in> set pairs. grp = ge_group e \<and> gk_id key = ge_key_id e \<longrightarrow>
      aead_decrypt S (member_key S grp key kind name (ge_nonce e)) (ge_nonce e)
        (group_envelope_aad (gv_sender env) grp (gk_id key) kind name (ge_nonce e)) (ge_ciphertext e) = Some payload"
    and "group_signature_preimage env = (Ok p :: (group_envelope_error, bytes) res)"
    and "verify S (card_signing_key sender) p (gv_signature env)"
    and "\<exists>(e, grp, key) \<in> set pairs. grp = ge_group e \<and> gk_id key = ge_key_id e"
  shows "\<exists>grp key_id. group_try_entries S env sender kind name pairs failed
    = Ok \<lparr> gem_sender = gv_sender env, gem_signed_by = card_signing_key sender, gem_group = grp,
           gem_key_id = key_id, gem_payload = payload \<rparr>"
  using assms(1,4)
proof (induction pairs arbitrary: failed)
  case (Cons pair pairs)
  obtain e grp key where pair: "pair = (e, grp, key)" by (cases pair) auto
  show ?case
  proof (cases "grp = ge_group e \<and> gk_id key = ge_key_id e")
    case True
    with Cons.prems(1) assms(2,3) pair show ?thesis by (simp add: group_decrypt_def)
  next
    case False
    with Cons pair show ?thesis by auto
  qed
qed simp

lemma list_all2_memD2: "list_all2 Q xs ys \<Longrightarrow> y \<in> set ys \<Longrightarrow> \<exists>x \<in> set xs. Q x y"
  by (induction rule: list_all2_induct) auto

lemma group_seal_open:
  assumes prim: "hkdf_ok S" "aead_ok S" "ed_ok S"
    and name: "valid_name name" and rng: "\<forall>i. length (rng i) = 24" and sk: "length (id_signing sender) = 32"
    and size: "length payload + 16 < 2 ^ 32" "length keys < 2 ^ 32"
    and same: "\<forall>gk \<in> set keys. \<forall>hk \<in> set held. fst gk = fst hk \<and> gk_id (snd gk) = gk_id (snd hk) \<longrightarrow> gk = hk"
    and shared: "set keys \<inter> set held \<noteq> {}"
    and trust: "find (\<lambda>p. trusted_peer_id p = identity_peer_id S sender) trusted = Some t"
      "tp_card t = identity_card S sender" "card_validate S (tp_card t) = Ok ()"
  shows "\<exists>env grp key_id. group_seal S rng sender kind name payload keys = Ok env
    \<and> length (gv_signature env) = 64 \<and> gv_entries env \<noteq> [] \<and> gv_kind env = kind \<and> gv_name env = name
    \<and> group_open S kind name trusted held env
      = Ok \<lparr> gem_sender = identity_peer_id S sender, gem_signed_by = ed_public S (id_signing sender),
             gem_group = grp, gem_key_id = key_id, gem_payload = payload \<rparr>"
proof -
  have "length payload \<le> aead_max" using size(1) by (simp add: aead_max_def)
  then obtain es where es: "seal_entries S rng 0 sender kind name payload keys = Ok es"
    "list_all2 (group_entry_for S sender kind name payload) keys es"
    using seal_entries_total[OF prim(1,2) rng] by blast
  let ?env0 = "\<lparr> gv_sender = identity_peer_id S sender, gv_kind = kind, gv_name = name,
     gv_entries = es, gv_signature = replicate SIG_LEN 0 \<rparr>"
  have "length es = length keys" using es(2) by (rule list_all2_lengthD[symmetric])
  moreover have "list_all (\<lambda>e. small (ge_ciphertext e)) es"
    using es(2) size(1) by (induction rule: list_all2_induct) (auto simp: group_entry_for_def small_def)
  moreover have "small (str_bytes name)" using name by (simp add: small_def valid_name_def)
  ultimately obtain p where p: "group_signature_preimage (?env0\<lparr>gv_signature := sg\<rparr>) = (Ok p :: (group_envelope_error, bytes) res)" for sg
    using size(2) by (simp add: group_signature_preimage_Ok)
  let ?sig = "sign S (id_signing sender) p"
  let ?env = "?env0\<lparr>gv_signature := ?sig\<rparr>"
  have sig: "length ?sig = 64" "verify S (card_signing_key (tp_card t)) p ?sig"
    using prim(3) sk trust(2) by (simp_all add: ed_ok_def sign_def verify_def identity_card_def card_new_def)
  have dec: "\<forall>(e, grp, key) \<in> set (List.product es held). grp = ge_group e \<and> gk_id key = ge_key_id e \<longrightarrow>
      aead_decrypt S (member_key S grp key kind name (ge_nonce e)) (ge_nonce e)
        (group_envelope_aad (gv_sender ?env) grp (gk_id key) kind name (ge_nonce e)) (ge_ciphertext e) = Some payload"
  proof clarify
    fix e key assume "(e, ge_group e, key) \<in> set (List.product es held)" "gk_id key = ge_key_id e"
    then have h: "e \<in> set es" "(ge_group e, key) \<in> set held" by auto
    then obtain gk where gk: "gk \<in> set keys" "group_entry_for S sender kind name payload gk e"
      using list_all2_memD2[OF es(2)] by blast
    with same h \<open>gk_id key = ge_key_id e\<close> have "gk = (ge_group e, key)" by (auto simp: group_entry_for_def)
    with gk show "aead_decrypt S (member_key S (ge_group e) key kind name (ge_nonce e)) (ge_nonce e)
        (group_envelope_aad (gv_sender ?env) (ge_group e) (gk_id key) kind name (ge_nonce e)) (ge_ciphertext e) = Some payload"
      by (simp add: group_entry_for_def)
  qed
  have "\<exists>(e, grp, key) \<in> set (List.product es held). grp = ge_group e \<and> gk_id key = ge_key_id e"
  proof -
    obtain gk where "gk \<in> set keys" "gk \<in> set held" using shared by blast
    moreover from list_all2_memD[OF es(2) this(1)] obtain e
      where "e \<in> set es" "group_entry_for S sender kind name payload gk e" by blast
    ultimately show ?thesis by (intro bexI[of _ "(e, gk)"]) (auto simp: group_entry_for_def split: prod.split)
  qed
  moreover have "verify S (card_signing_key (tp_card t)) p (gv_signature ?env)" using sig(2) by simp
  ultimately obtain grp key_id where "group_try_entries S ?env (tp_card t) kind name (List.product es held) False
      = Ok \<lparr> gem_sender = gv_sender ?env, gem_signed_by = card_signing_key (tp_card t), gem_group = grp,
             gem_key_id = key_id, gem_payload = payload \<rparr>"
    using group_try_entries_finds[OF dec p] by blast
  then have "group_open S kind name trusted held ?env
      = Ok \<lparr> gem_sender = identity_peer_id S sender, gem_signed_by = ed_public S (id_signing sender),
             gem_group = grp, gem_key_id = key_id, gem_payload = payload \<rparr>"
    using name trust by (simp add: group_open_def identity_card_def card_new_def)
  moreover have "keys \<noteq> []" "es \<noteq> []" using shared es(2) by auto
  moreover from this have "group_seal S rng sender kind name payload keys = Ok ?env"
    using name es(1) p[of "replicate SIG_LEN 0"] by (simp add: group_seal_def)
  ultimately show ?thesis
    using sig(1) by (intro exI[of _ ?env] exI[of _ grp] exI[of _ key_id]) simp
qed

section \<open>What a successful opening shows\<close>

lemma peer_open_OkD:
  assumes "peer_open S r kind name trusted env = Ok m"
  shows "\<exists>t p e. t \<in> set trusted \<and> trusted_peer_id t = pe_sender env \<and> card_validate S (tp_card t) = Ok ()
    \<and> peer_signature_preimage env = (Ok p :: (peer_envelope_error, bytes) res)
    \<and> verify S (card_signing_key (tp_card t)) p (pe_signature env)
    \<and> e \<in> set (pe_recipients env) \<and> pr_recipient e = identity_peer_id S r
    \<and> aead_decrypt S (pair_key S (id_exchange r) (card_exchange_key (tp_card t)) kind name (pr_nonce e)) (pr_nonce e)
        (peer_envelope_aad (pe_sender env) (identity_peer_id S r) kind name (pr_nonce e)) (pr_ciphertext e) = Some (pem_payload m)
    \<and> pe_kind env = kind \<and> pe_name env = name \<and> pem_sender m = pe_sender env
    \<and> pem_signed_by m = card_signing_key (tp_card t)"
  using assms
  by (auto simp: peer_open_def peer_decrypt_def res_simps find_Some_iff split: if_splits) (metis nth_mem)

lemma group_try_entries_OkD:
  assumes "group_try_entries S env sender kind name pairs failed = Ok m"
  shows "\<exists>e key p. (e, gem_group m, key) \<in> set pairs \<and> gem_group m = ge_group e \<and> gk_id key = gem_key_id m
    \<and> gem_key_id m = ge_key_id e
    \<and> group_signature_preimage env = (Ok p :: (group_envelope_error, bytes) res)
    \<and> verify S (card_signing_key sender) p (gv_signature env)
    \<and> aead_decrypt S (member_key S (gem_group m) key kind name (ge_nonce e)) (ge_nonce e)
        (group_envelope_aad (gv_sender env) (gem_group m) (gk_id key) kind name (ge_nonce e)) (ge_ciphertext e) = Some (gem_payload m)
    \<and> gem_sender m = gv_sender env \<and> gem_signed_by m = card_signing_key sender"
  using assms
proof (induction pairs arbitrary: failed)
  case (Cons pair pairs)
  obtain e grp key where pair: "pair = (e, grp, key)" by (cases pair) auto
  show ?case
  proof (cases "grp = ge_group e \<and> gk_id key = ge_key_id e \<and>
      aead_decrypt S (member_key S grp key kind name (ge_nonce e)) (ge_nonce e)
        (group_envelope_aad (gv_sender env) grp (gk_id key) kind name (ge_nonce e)) (ge_ciphertext e) \<noteq> None")
    case True
    with Cons.prems pair show ?thesis
      by (auto simp: group_decrypt_def res_simps split: if_splits intro!: exI[of _ e] exI[of _ key])
  next
    case False
    then obtain f where "group_try_entries S env sender kind name pairs f = Ok m"
      using Cons.prems pair by (auto simp: group_decrypt_def split: if_splits)
    from Cons.IH[OF this] show ?thesis by auto
  qed
qed (simp split: if_splits)

section \<open>Properties\<close>

definition alice :: peer_identity where "alice = identity_generate (replicate 32 1) (replicate 32 2)"
definition bob :: peer_identity where "bob = identity_generate (replicate 32 3) (replicate 32 4)"
definition fixed_rng :: "nat \<Rightarrow> bytes" where "fixed_rng i = replicate 24 (of_nat i)"

lemma alice_bob [simp]:
  "length (id_signing alice) = 32"
  "card_validate plain_suite (identity_card plain_suite alice) = Ok ()"
  "card_validate plain_suite (identity_card plain_suite bob) = Ok ()"
  "\<forall>i. length (fixed_rng i) = 24"
  by (simp_all add: alice_def bob_def identity_generate_def card_validate_def card_is_consistent_def
      identity_card_def card_new_def plain_suite_def fixed_rng_def list_all_iff)

lemma alice_bob_setup:
  "valid_name ''a''"
  "trusted_peer_id (trusted_new (identity_card plain_suite i)) = identity_peer_id plain_suite i"
  "tp_card (trusted_new c) = c"
  "card_exchange_key (identity_card plain_suite i) = x_public plain_suite (id_exchange i)"
  by (simp_all add: valid_name_def name_byte_ok_def trusted_new_def trusted_peer_id_def identity_card_def card_new_def
      identity_peer_id_def)



text \<open>
  C22: A group envelope round trip. An identity that seals a payload under any keys of its groups succeeds,
  and every holder of one of these keys who trusts the sender opens the envelope, as it comes out of the wire
  record, to the payload. Keys are told apart by their group and key id.
\<close>

theorem group_envelope_round_trip:
  assumes "hkdf_ok S" "aead_ok S" "ed_ok S"
    and "valid_name name" "\<forall>i. length (rng i) = 24" "length (id_signing sender) = 32"
    and "length payload + 16 < 2 ^ 32" "length keys < 2 ^ 32"
    and "\<forall>gk \<in> set keys. \<forall>hk \<in> set held. fst gk = fst hk \<and> gk_id (snd gk) = gk_id (snd hk) \<longrightarrow> gk = hk"
    and "set keys \<inter> set held \<noteq> {}"
    and "find (\<lambda>p. trusted_peer_id p = identity_peer_id S sender) trusted = Some t"
    and "tp_card t = identity_card S sender" "card_validate S (tp_card t) = Ok ()"
  shows "\<exists>env m. group_seal S rng sender kind name payload keys = Ok env
    \<and> bind_res (group_try_from_wire (group_to_wire env)) (group_open S kind name trusted held) = Ok m
    \<and> gem_payload m = payload \<and> gem_sender m = identity_peer_id S sender
    \<and> gem_signed_by m = ed_public S (id_signing sender)"
proof -
  obtain env grp key_id where env: "group_seal S rng sender kind name payload keys = Ok env" "length (gv_signature env) = 64"
    "gv_entries env \<noteq> []" "gv_kind env = kind" "gv_name env = name"
    "group_open S kind name trusted held env
      = Ok \<lparr> gem_sender = identity_peer_id S sender, gem_signed_by = ed_public S (id_signing sender),
             gem_group = grp, gem_key_id = key_id, gem_payload = payload \<rparr>"
    using group_seal_open[OF assms] by blast
  have "group_try_from_wire (group_to_wire env) = Ok env"
    using env assms(4) by (cases kind) (auto simp: group_try_from_wire_def group_to_wire_def group_channel_kind_from_code_def crypto_consts)
  with env show ?thesis by auto
qed

theorem group_envelope_round_trip_witness:
  "\<exists>env m. group_seal plain_suite fixed_rng alice Slot ''a'' [9] [(replicate 32 5, \<lparr>gk_id = replicate 32 6, gk_secret = replicate 32 7\<rparr>)] = Ok env
    \<and> bind_res (group_try_from_wire (group_to_wire env))
        (group_open plain_suite Slot ''a'' [trusted_new (identity_card plain_suite alice)]
          [(replicate 32 5, \<lparr>gk_id = replicate 32 6, gk_secret = replicate 32 7\<rparr>)]) = Ok m
    \<and> gem_payload m = [9] \<and> gem_sender m = identity_peer_id plain_suite alice
    \<and> gem_signed_by m = ed_public plain_suite (id_signing alice)"
  by (rule group_envelope_round_trip[where t = "trusted_new (identity_card plain_suite alice)"])
    (simp_all add: alice_bob_setup)

text \<open>
  C20: An envelope signature binds the whole envelope. Two envelopes with the same signed bytes have the same
  sender, channel kind, name and entries, for pairwise and for group envelopes, and the signed bytes of a
  pairwise envelope are never those of a group envelope.
\<close>

theorem envelope_signature_is_binding:
  assumes "peer_envelope_typed a" "peer_envelope_typed b" "group_envelope_typed g" "group_envelope_typed h"
    and "peer_signature_preimage a = Ok p" "peer_signature_preimage b = Ok q"
    and "group_signature_preimage g = Ok x" "group_signature_preimage h = Ok y"
  shows "(p = q \<longleftrightarrow> a\<lparr>pe_signature := []\<rparr> = b\<lparr>pe_signature := []\<rparr>)
    \<and> (x = y \<longleftrightarrow> g\<lparr>gv_signature := []\<rparr> = h\<lparr>gv_signature := []\<rparr>) \<and> p \<noteq> x"
proof (intro conjI)
  show "p = q \<longleftrightarrow> a\<lparr>pe_signature := []\<rparr> = b\<lparr>pe_signature := []\<rparr>"
  proof
    assume "p = q"
    with assms(1,2,5,6) have pre: "pe_sender a = pe_sender b \<and> pe_kind a = pe_kind b \<and> pe_name a = pe_name b
        \<and> length (pe_recipients a) = length (pe_recipients b)
        \<and> concat (map recipient_bytes (pe_recipients a)) = concat (map recipient_bytes (pe_recipients b))"
      by (intro envelope_prefix_inject) (auto simp: peer_signature_preimage_Ok peer_envelope_typed_def)
    moreover have "list_all recipient_wf (pe_recipients a)" "list_all recipient_wf (pe_recipients b)"
      using assms(1,2,5,6) by (auto simp: peer_signature_preimage_Ok peer_envelope_typed_def recipient_wf_def list_all_iff)
    ultimately have "pe_recipients a = pe_recipients b"
      using recipients.enc_list_inj[of "pe_recipients a" "pe_recipients b" "[]" "[]"] by simp
    with pre show "a\<lparr>pe_signature := []\<rparr> = b\<lparr>pe_signature := []\<rparr>" by simp
  next
    assume "a\<lparr>pe_signature := []\<rparr> = b\<lparr>pe_signature := []\<rparr>"
    then have "pe_sender a = pe_sender b" "pe_kind a = pe_kind b" "pe_name a = pe_name b" "pe_recipients a = pe_recipients b"
      by (cases a; cases b; simp)+
    with assms(5,6) show "p = q" by (simp add: peer_signature_preimage_Ok)
  qed
  show "x = y \<longleftrightarrow> g\<lparr>gv_signature := []\<rparr> = h\<lparr>gv_signature := []\<rparr>"
  proof
    assume "x = y"
    with assms(3,4,7,8) have pre: "gv_sender g = gv_sender h \<and> gv_kind g = gv_kind h \<and> gv_name g = gv_name h
        \<and> length (gv_entries g) = length (gv_entries h)
        \<and> concat (map entry_bytes (gv_entries g)) = concat (map entry_bytes (gv_entries h))"
      by (intro envelope_prefix_inject) (auto simp: group_signature_preimage_Ok group_envelope_typed_def)
    moreover have "list_all entry_wf (gv_entries g)" "list_all entry_wf (gv_entries h)"
      using assms(3,4,7,8) by (auto simp: group_signature_preimage_Ok group_envelope_typed_def entry_wf_def list_all_iff)
    ultimately have "gv_entries g = gv_entries h"
      using entries.enc_list_inj[of "gv_entries g" "gv_entries h" "[]" "[]"] by simp
    with pre show "g\<lparr>gv_signature := []\<rparr> = h\<lparr>gv_signature := []\<rparr>" by simp
  next
    assume "g\<lparr>gv_signature := []\<rparr> = h\<lparr>gv_signature := []\<rparr>"
    then have "gv_sender g = gv_sender h" "gv_kind g = gv_kind h" "gv_name g = gv_name h" "gv_entries g = gv_entries h"
      by (cases g; cases h; simp)+
    with assms(7,8) show "x = y" by (simp add: group_signature_preimage_Ok)
  qed
  show "p \<noteq> x"
    using assms(5,7) by (auto simp: peer_signature_preimage_Ok group_signature_preimage_Ok envelope_prefix_def str_bytes_def)
qed

definition note_to_bob :: peer_envelope where
  "note_to_bob = \<lparr> pe_sender = replicate 32 1, pe_kind = Mailbox, pe_name = ''a'',
     pe_recipients = [\<lparr> pr_recipient = replicate 32 2, pr_nonce = replicate 24 0, pr_ciphertext = [1] \<rparr>], pe_signature = [] \<rparr>"

definition note_to_group :: group_envelope where
  "note_to_group = \<lparr> gv_sender = replicate 32 1, gv_kind = Mailbox, gv_name = ''a'', gv_entries = [], gv_signature = [] \<rparr>"

theorem envelope_signature_is_binding_witness:
  "\<exists>p x. peer_signature_preimage note_to_bob = (Ok p :: (unit, bytes) res)
    \<and> group_signature_preimage note_to_group = (Ok x :: (unit, bytes) res) \<and> p \<noteq> x"
proof -
  have t: "peer_envelope_typed note_to_bob" "group_envelope_typed note_to_group"
    by (simp_all add: peer_envelope_typed_def group_envelope_typed_def note_to_bob_def note_to_group_def crypto_consts)
  obtain p x where "peer_signature_preimage note_to_bob = (Ok p :: (unit, bytes) res)"
    "group_signature_preimage note_to_group = (Ok x :: (unit, bytes) res)"
    by (simp add: peer_signature_preimage_Ok group_signature_preimage_Ok small_def note_to_bob_def note_to_group_def)
  with envelope_signature_is_binding[OF t(1,1,2,2) this(1,1,2,2)] show ?thesis by blast
qed

text \<open>
  What a peer opens is authentic. When a pairwise and a group envelope open, each sender is a trusted peer
  whose id is the hash of its signing key, the reported signer is that key, and the envelope's signature
  verifies under it over the bytes that determine the whole envelope.
\<close>

theorem opened_envelopes_are_authentic:
  assumes "peer_open S r kind name trusted env = Ok m" "group_open S kind name trusted held genv = Ok g"
  shows "(\<exists>t p. t \<in> set trusted \<and> trusted_peer_id t = pem_sender m \<and> pem_signed_by m = card_signing_key (tp_card t)
      \<and> pem_sender m = peer_id_from_signing_key S (pem_signed_by m) \<and> pe_sender env = pem_sender m
      \<and> peer_signature_preimage env = (Ok p :: (peer_envelope_error, bytes) res) \<and> verify S (pem_signed_by m) p (pe_signature env))
    \<and> (\<exists>t p. t \<in> set trusted \<and> trusted_peer_id t = gem_sender g \<and> gem_signed_by g = card_signing_key (tp_card t)
      \<and> gem_sender g = peer_id_from_signing_key S (gem_signed_by g) \<and> gv_sender genv = gem_sender g
      \<and> group_signature_preimage genv = (Ok p :: (group_envelope_error, bytes) res) \<and> verify S (gem_signed_by g) p (gv_signature genv))"
proof
  have id: "trusted_peer_id t = peer_id_from_signing_key S (card_signing_key (tp_card t))"
    if "card_validate S (tp_card t) = Ok ()" for t
    using that by (auto simp: card_validate_def card_is_consistent_def trusted_peer_id_def split: if_splits)
  from peer_open_OkD[OF assms(1)] id
  show "\<exists>t p. t \<in> set trusted \<and> trusted_peer_id t = pem_sender m \<and> pem_signed_by m = card_signing_key (tp_card t)
      \<and> pem_sender m = peer_id_from_signing_key S (pem_signed_by m) \<and> pe_sender env = pem_sender m
      \<and> peer_signature_preimage env = (Ok p :: (peer_envelope_error, bytes) res) \<and> verify S (pem_signed_by m) p (pe_signature env)"
    by metis
  from assms(2) obtain t where "find (\<lambda>peer. trusted_peer_id peer = gv_sender genv) trusted = Some t"
    and "card_validate S (tp_card t) = Ok ()"
    "group_try_entries S genv (tp_card t) kind name (List.product (gv_entries genv) held) False = Ok g"
    by (auto simp: group_open_def res_simps split: if_splits)
  then have t: "t \<in> set trusted" "trusted_peer_id t = gv_sender genv" "card_validate S (tp_card t) = Ok ()"
    "group_try_entries S genv (tp_card t) kind name (List.product (gv_entries genv) held) False = Ok g"
    by (auto simp: find_Some_iff)
  from group_try_entries_OkD[OF t(4)] id[OF t(3)] t(1,2)
  show "\<exists>t p. t \<in> set trusted \<and> trusted_peer_id t = gem_sender g \<and> gem_signed_by g = card_signing_key (tp_card t)
      \<and> gem_sender g = peer_id_from_signing_key S (gem_signed_by g) \<and> gv_sender genv = gem_sender g
      \<and> group_signature_preimage genv = (Ok p :: (group_envelope_error, bytes) res) \<and> verify S (gem_signed_by g) p (gv_signature genv)"
    by (intro exI[of _ t]) metis
qed

theorem opened_envelopes_are_authentic_witness:
  "\<exists>env genv m g. peer_open plain_suite bob Mailbox ''a'' [trusted_new (identity_card plain_suite alice)] env = Ok m
    \<and> group_open plain_suite Mailbox ''a'' [trusted_new (identity_card plain_suite alice)]
        [(replicate 32 5, \<lparr>gk_id = replicate 32 6, gk_secret = replicate 32 7\<rparr>)] genv = Ok g
    \<and> pem_sender m = peer_id_from_signing_key plain_suite (pem_signed_by m)
    \<and> gem_sender g = peer_id_from_signing_key plain_suite (gem_signed_by g)"
proof -
  let ?t = "[trusted_new (identity_card plain_suite alice)]"
  let ?k = "[(replicate 32 5, \<lparr>gk_id = replicate 32 6, gk_secret = replicate 32 7\<rparr>)]"
  obtain env m where 1: "peer_open plain_suite bob Mailbox ''a'' ?t env = Ok m"
    using peer_seal_open[of plain_suite "''a''" fixed_rng alice "[9]" "[identity_card plain_suite bob]" bob ?t
        "trusted_new (identity_card plain_suite alice)" Mailbox]
    by (auto simp: alice_bob_setup)
  obtain genv g where 2: "group_open plain_suite Mailbox ''a'' ?t ?k genv = Ok g"
    using group_seal_open[of plain_suite "''a''" fixed_rng alice "[9]" ?k ?k ?t
        "trusted_new (identity_card plain_suite alice)" Mailbox]
    by (auto simp: alice_bob_setup)
  from opened_envelopes_are_authentic[OF 1 2] 1 2 show ?thesis by blast
qed

end
