(* ===== verification/Contracts.thy ===== *)
theory Contracts
  imports Prelude
begin

text \<open>
  What the clients of a transport rely on, as interfaces. A slot store keeps, per channel, the
  value with the highest version; a mailbox store is a queue per channel that may forget its oldest
  messages; the relay and the in-memory transport provide both. A replicated slot keeps the greatest
  pair of a version and its bytes, in whatever order the pairs arrive: a topic of the Iroh transport
  provides it, and its mailbox is a queue.
\<close>

section \<open>Slots\<close>

text \<open>A later value replaces the current one only when its version is higher.\<close>

definition newer :: "(u64 \<times> bytes) option \<Rightarrow> u64 \<times> bytes \<Rightarrow> (u64 \<times> bytes) option" where
  "newer cur w = (case cur of None \<Rightarrow> Some w | Some c \<Rightarrow> if fst c < fst w then Some w else cur)"

definition writes_to :: "'k \<Rightarrow> ('k \<times> u64 \<times> bytes) list \<Rightarrow> (u64 \<times> bytes) list" where
  "writes_to k ws = map snd (filter (\<lambda>w. fst w = k) ws)"

lemma newer_not_None [simp]: "newer cur w \<noteq> None"
  by (auto simp: newer_def split: option.splits)

lemma foldl_newer_not_None [simp]: "foldl newer (Some c) ws \<noteq> None"
  by (induction ws arbitrary: c) (auto simp: newer_def)

lemma foldl_newer_None_iff: "foldl newer cur ws = None \<longleftrightarrow> cur = None \<and> ws = []"
  by (induction ws arbitrary: cur) auto

text \<open>The survivor of a sequence of writes is one of them and no other has a higher version.\<close>

lemma foldl_newer_SomeD:
  assumes "foldl newer cur ws = Some c"
  shows "(cur = Some c \<or> c \<in> set ws) \<and> (\<forall>w \<in> set ws. fst w \<le> fst c)
    \<and> (\<forall>d. cur = Some d \<longrightarrow> fst d \<le> fst c)"
  using assms
proof (induction ws arbitrary: cur)
  case (Cons w ws)
  then have "foldl newer (newer cur w) ws = Some c" by simp
  from Cons.IH[OF this] show ?case
    by (cases cur; cases w) (auto simp: newer_def split: if_splits intro: less_imp_le less_le_trans)
qed simp

locale slot_contract =
  fixes put :: "'s \<Rightarrow> 'k \<Rightarrow> u64 \<Rightarrow> bytes \<Rightarrow> 's \<times> bool"
    and cur :: "'s \<Rightarrow> 'k \<Rightarrow> (u64 \<times> bytes) option"
    and inv :: "'s \<Rightarrow> bool"
  assumes put_inv: "inv s \<Longrightarrow> inv (fst (put s k v b))"
    and put_cur: "inv s \<Longrightarrow> cur (fst (put s k v b)) j = (if j = k then newer (cur s k) (v, b) else cur s j)"
    and put_accepts: "inv s \<Longrightarrow> snd (put s k v b) \<longleftrightarrow> cur s k = None \<or> fst (the (cur s k)) < v"
begin

abbreviation put_all :: "'s \<Rightarrow> ('k \<times> u64 \<times> bytes) list \<Rightarrow> 's" where
  "put_all s ws \<equiv> foldl (\<lambda>s (k, v, b). fst (put s k v b)) s ws"

lemma put_all_inv: "inv s \<Longrightarrow> inv (put_all s ws)"
  by (induction ws arbitrary: s) (auto simp: put_inv)

lemma cur_put_all: "inv s \<Longrightarrow> cur (put_all s ws) k = foldl newer (cur s k) (writes_to k ws)"
  by (induction ws arbitrary: s) (auto simp: writes_to_def put_cur put_inv)

lemma put_all_newest:
  assumes "inv s" "cur s k = None" "cur (put_all s ws) k = Some c"
  shows "c \<in> set (writes_to k ws) \<and> (\<forall>w \<in> set (writes_to k ws). fst w \<le> fst c)"
  using foldl_newer_SomeD[of "cur s k" "writes_to k ws" c] assms by (simp add: cur_put_all)

lemma put_all_monotone:
  assumes "inv s" "cur s k = Some c"
  shows "\<exists>d. cur (put_all s ws) k = Some d \<and> fst c \<le> fst d"
proof -
  obtain d where "cur (put_all s ws) k = Some d"
    using assms by (cases "cur (put_all s ws) k") (auto simp: cur_put_all foldl_newer_None_iff)
  with foldl_newer_SomeD[of "cur s k" "writes_to k ws" d] assms show ?thesis
    by (auto simp: cur_put_all)
qed

text \<open>An accepted write is what the next read sees; a refused one changes nothing.\<close>

lemma accepted_then_cur: "inv s \<Longrightarrow> snd (put s k v b) \<Longrightarrow> cur (fst (put s k v b)) k = Some (v, b)"
  by (auto simp: put_accepts put_cur newer_def split: option.splits)

lemma refused_then_same: "inv s \<Longrightarrow> \<not> snd (put s k v b) \<Longrightarrow> cur (fst (put s k v b)) j = cur s j"
  by (auto simp: put_accepts put_cur newer_def)

end

section \<open>Replicated slots\<close>

definition greater :: "(u64 \<times> bytes) option \<Rightarrow> u64 \<times> bytes \<Rightarrow> (u64 \<times> bytes) option" where
  "greater cur w = (case cur of None \<Rightarrow> Some w | Some c \<Rightarrow> if c < w then Some w else cur)"

lemma greater_max: "greater (Some c) w = Some (max c w)"
  by (auto simp: greater_def max_def not_less)

lemma foldl_greater_Some: "foldl greater (Some c) ws = Some (Max (insert c (set ws)))"
proof (induction ws arbitrary: c)
  case (Cons w ws)
  have "Max (insert (max c w) (set ws)) = Max (insert c (insert w (set ws)))"
    by (cases "set ws = {}") (simp_all add: max.assoc)
  with Cons show ?case by (simp add: greater_max)
qed simp

lemma foldl_greater: "foldl greater None ws = (if ws = [] then None else Some (Max (set ws)))"
  by (cases ws) (simp_all add: greater_def foldl_greater_Some)

locale replicated_slot =
  fixes put :: "'s \<Rightarrow> 'o \<Rightarrow> 's"
    and pairs :: "'o \<Rightarrow> (u64 \<times> bytes) list"
    and cur :: "'s \<Rightarrow> (u64 \<times> bytes) option"
    and inv :: "'s \<Rightarrow> bool"
  assumes put_inv: "inv s \<Longrightarrow> inv (put s x)"
    and put_cur: "inv s \<Longrightarrow> cur (put s x) = foldl greater (cur s) (pairs x)"
begin

lemma run_inv: "inv s \<Longrightarrow> inv (foldl put s xs)"
  by (induction xs arbitrary: s) (auto simp: put_inv)

lemma run_cur: "inv s \<Longrightarrow> cur (foldl put s xs) = foldl greater (cur s) (concat (map pairs xs))"
  by (induction xs arbitrary: s) (auto simp: put_inv put_cur)

text \<open>A replica ends with the greatest pair it met.\<close>

lemma run_greatest:
  assumes "inv s" "cur s = None"
  shows "cur (foldl put s xs) =
    (if concat (map pairs xs) = [] then None else Some (Max (set (concat (map pairs xs)))))"
  using run_cur[OF assms(1), of xs] by (simp add: assms(2) foldl_greater del: concat_eq_Nil_conv)

end

section \<open>Mailboxes\<close>

text \<open>\<open>n\<close> successive receives on one channel.\<close>

fun drain :: "('s \<Rightarrow> 'k \<Rightarrow> 's \<times> bytes option) \<Rightarrow> 'k \<Rightarrow> nat \<Rightarrow> 's \<Rightarrow> bytes option list" where
  "drain pop k 0 s = []"
| "drain pop k (Suc n) s = (case pop s k of (s, r) \<Rightarrow> r # drain pop k n s)"

text \<open>A bounded queue keeps the last \<open>cap\<close> messages.\<close>

definition last_n :: "nat \<Rightarrow> 'a list \<Rightarrow> 'a list" where
  "last_n cap xs = drop (length xs - cap) xs"

lemma last_n_last_n_snoc: "last_n cap (last_n cap xs @ [x]) = last_n cap (xs @ [x])"
  by (cases "length xs \<le> cap") (auto simp: last_n_def Suc_diff_le)

lemma length_last_n: "length (last_n cap xs) \<le> cap"
  by (simp add: last_n_def)

lemma last_n_all: "length xs \<le> cap \<Longrightarrow> last_n cap xs = xs"
  by (simp add: last_n_def)

locale mailbox_contract =
  fixes push :: "'s \<Rightarrow> 'k \<Rightarrow> bytes \<Rightarrow> 's"
    and pop :: "'s \<Rightarrow> 'k \<Rightarrow> 's \<times> bytes option"
    and queue :: "'s \<Rightarrow> 'k \<Rightarrow> bytes list"
    and keep :: "bytes list \<Rightarrow> bytes list"
    and inv :: "'s \<Rightarrow> bool"
  assumes push_inv: "inv s \<Longrightarrow> inv (push s k b)"
    and pop_inv: "inv s \<Longrightarrow> inv (fst (pop s k))"
    and push_queue: "inv s \<Longrightarrow> queue (push s k b) j = (if j = k then keep (queue s k @ [b]) else queue s j)"
    and pop_result: "inv s \<Longrightarrow> snd (pop s k) = (case queue s k of [] \<Rightarrow> None | x # q \<Rightarrow> Some x)"
    and pop_queue: "inv s \<Longrightarrow> queue (fst (pop s k)) j = (if j = k then tl (queue s k) else queue s j)"
    and keep_snoc: "keep (keep xs @ [b]) = keep (xs @ [b])"
    and keep_Nil: "keep [] = []"
begin

abbreviation push_all :: "'s \<Rightarrow> 'k \<Rightarrow> bytes list \<Rightarrow> 's" where
  "push_all s k bs \<equiv> foldl (\<lambda>s b. push s k b) s bs"

lemma push_all_inv: "inv s \<Longrightarrow> inv (push_all s k bs)"
  by (induction bs arbitrary: s) (auto simp: push_inv)

lemma queue_push_all:
  assumes "inv s" "queue s k = []"
  shows "queue (push_all s k bs) k = keep bs"
proof (induction bs rule: rev_induct)
  case (snoc b bs)
  with assms show ?case by (simp add: push_queue push_all_inv keep_snoc)
qed (simp add: assms keep_Nil)

lemma drain_queue:
  "inv s \<Longrightarrow> drain pop k n s = map Some (take n (queue s k)) @ replicate (n - length (queue s k)) None"
proof (induction n arbitrary: s)
  case (Suc n)
  have p: "pop s k = (fst (pop s k), snd (pop s k))" by simp
  from Suc.IH[OF pop_inv[OF Suc.prems]] Suc.prems show ?case
    by (subst drain.simps, subst p) (cases "queue s k", simp_all add: pop_result pop_queue)
qed simp

text \<open>First in, first out: receives return the kept messages in the order they were sent.\<close>

lemma fifo:
  assumes "inv s" "queue s k = []"
  shows "drain pop k (length (keep bs)) (push_all s k bs) = map Some (keep bs)"
  using assms by (simp add: drain_queue push_all_inv queue_push_all)

end

end
