(* ===== verification/Relay.thy ===== *)
theory Relay
  imports Wire Contracts
begin

text \<open>
  \<open>crates/enlace-relay/src/lib.rs\<close>: the relay server. The tables behind the mutex, the four
  handlers with their authentication, parsing and size checks, the long-poll loops, and the
  persisted form of slots. Wall-clock time is an argument; a long poll takes the list of
  wake-ups before its deadline, each with what other requests did meanwhile. Base64 and the
  embedded database are parameters.
\<close>

section \<open>Data\<close>

definition DEFAULT_MAX_BODY_BYTES :: nat where "DEFAULT_MAX_BODY_BYTES = 64 * 1024"
definition DEFAULT_MAX_WAIT_SECONDS :: nat where "DEFAULT_MAX_WAIT_SECONDS = 30"
definition DEFAULT_MAILBOX_CAPACITY :: nat where "DEFAULT_MAILBOX_CAPACITY = 128"
definition DEFAULT_MAILBOX_TTL_SECONDS :: nat where "DEFAULT_MAILBOX_TTL_SECONDS = 60 * 60"
definition DEFAULT_SLOT_TTL_SECONDS :: nat where "DEFAULT_SLOT_TTL_SECONDS = 24 * 60 * 60"
definition VERSION_HEADER :: string where "VERSION_HEADER = ''x-enlace-version''"

record mailbox_entry =
  me_body :: bytes
  me_expires_at :: system_time

record slot_entry =
  se_version :: u64
  se_body :: bytes
  se_expires_at :: system_time

record tables =
  tb_mailboxes :: "(string \<times> mailbox_entry list) list"
  tb_slots :: "(string \<times> slot_entry) list"

record relay_config =
  rc_auth :: "string option"
  rc_max_body_bytes :: nat
  rc_max_wait :: duration
  rc_mailbox_capacity :: nat
  rc_mailbox_ttl :: duration
  rc_slot_ttl :: duration

definition relay_config_new :: relay_config where
  "relay_config_new =
    \<lparr> rc_auth = None, rc_max_body_bytes = DEFAULT_MAX_BODY_BYTES,
      rc_max_wait = from_secs DEFAULT_MAX_WAIT_SECONDS,
      rc_mailbox_capacity = DEFAULT_MAILBOX_CAPACITY,
      rc_mailbox_ttl = from_secs DEFAULT_MAILBOX_TTL_SECONDS,
      rc_slot_ttl = from_secs DEFAULT_SLOT_TTL_SECONDS \<rparr>"

definition with_max_body_bytes :: "nat \<Rightarrow> relay_config \<Rightarrow> relay_config" where
  "with_max_body_bytes max_body_bytes c = c\<lparr>rc_max_body_bytes := max_body_bytes\<rparr>"

definition with_max_wait :: "duration \<Rightarrow> relay_config \<Rightarrow> relay_config" where
  "with_max_wait max_wait c = c\<lparr>rc_max_wait := max_wait\<rparr>"

definition with_mailbox_capacity :: "nat \<Rightarrow> relay_config \<Rightarrow> relay_config" where
  "with_mailbox_capacity mailbox_capacity c = c\<lparr>rc_mailbox_capacity := max mailbox_capacity 1\<rparr>"

definition with_mailbox_ttl :: "duration \<Rightarrow> relay_config \<Rightarrow> relay_config" where
  "with_mailbox_ttl mailbox_ttl c = c\<lparr>rc_mailbox_ttl := mailbox_ttl\<rparr>"

definition with_slot_ttl :: "duration \<Rightarrow> relay_config \<Rightarrow> relay_config" where
  "with_slot_ttl slot_ttl c = c\<lparr>rc_slot_ttl := slot_ttl\<rparr>"

record relay_cli =
  cli_auth :: "string option"
  cli_max_body_bytes :: nat
  cli_max_wait_seconds :: u64
  cli_mailbox_capacity :: nat
  cli_mailbox_ttl_seconds :: u64
  cli_slot_ttl_seconds :: u64
  cli_cert :: "string option"
  cli_key :: "string option"

text \<open>
  The tables with their mutex: a panic while the lock is held poisons it. The persistent store is
  optional.
\<close>

record 'db app_state =
  as_tables :: tables
  as_poisoned :: bool
  as_persist :: "'db option"
  as_config :: relay_config

text \<open>
  What the server takes from its surroundings: base64, the calls on the embedded database (each
  reports success) and the largest representable \<open>SystemTime\<close>.
\<close>

record 'db relay_env =
  re_b64 :: "bytes \<Rightarrow> string"
  re_db_iter :: "'db \<Rightarrow> (bytes \<times> bytes) option list"
  re_db_insert :: "'db \<Rightarrow> bytes \<Rightarrow> bytes \<Rightarrow> 'db \<times> bool"
  re_db_remove :: "'db \<Rightarrow> bytes \<Rightarrow> 'db \<times> bool"
  re_db_flush :: "'db \<Rightarrow> 'db \<times> bool"
  re_time_max :: system_time

definition time_add :: "'db relay_env \<Rightarrow> system_time \<Rightarrow> duration \<Rightarrow> system_time option" where
  "time_add R t d = (if t + int d > re_time_max R then None else Some (t + int d))"

text \<open>\<open>auth_header\<close> and the configuration read from the command line and the environment.\<close>

definition auth_header :: "'db relay_env \<Rightarrow> string \<Rightarrow> (string, string) res" where
  "auth_header R raw =
    (if CHR '':'' \<notin> set raw then Err ''auth must be formatted as user:pass''
     else Ok (''Basic '' @ re_b64 R (str_bytes raw)))"

definition with_auth :: "'db relay_env \<Rightarrow> string \<Rightarrow> relay_config \<Rightarrow> (string, relay_config) res" where
  "with_auth R auth c = map_ok (\<lambda>h. c\<lparr>rc_auth := Some h\<rparr>) (auth_header R auth)"

definition relay_from_cli ::
  "'db relay_env \<Rightarrow> string option \<Rightarrow> relay_cli \<Rightarrow> (string, relay_config) res" where
  "relay_from_cli R env_auth cli =
    bind_res
      (case (case cli_auth cli of Some a \<Rightarrow> Some a | None \<Rightarrow> env_auth) of
         None \<Rightarrow> Ok None
       | Some a \<Rightarrow> map_ok Some (auth_header R a))
      (\<lambda>auth.
        if (cli_cert cli \<noteq> None) \<noteq> (cli_key cli \<noteq> None)
        then Err ''--cert and --key must be provided together''
        else Ok \<lparr> rc_auth = auth, rc_max_body_bytes = cli_max_body_bytes cli,
                  rc_max_wait = from_secs (unat (cli_max_wait_seconds cli)),
                  rc_mailbox_capacity = max (cli_mailbox_capacity cli) 1,
                  rc_mailbox_ttl = from_secs (unat (cli_mailbox_ttl_seconds cli)),
                  rc_slot_ttl = from_secs (unat (cli_slot_ttl_seconds cli)) \<rparr>)"

section \<open>Identifiers\<close>

definition relay_id_valid :: "string \<Rightarrow> string option" where
  "relay_id_valid raw = (if length raw = 32 \<and> list_all is_lower_hex raw then Some raw else None)"

definition relay_id_parse :: "string \<Rightarrow> (unit, string) res" where
  "relay_id_parse raw = ok_or () (relay_id_valid raw)"

section \<open>Tables\<close>

definition mailbox_entry_expired :: "system_time \<Rightarrow> mailbox_entry \<Rightarrow> bool" where
  "mailbox_entry_expired now e \<longleftrightarrow> now \<ge> me_expires_at e"

definition slot_entry_expired :: "system_time \<Rightarrow> slot_entry \<Rightarrow> bool" where
  "slot_entry_expired now e \<longleftrightarrow> now \<ge> se_expires_at e"

text \<open>The loop that makes room: \<open>while queue.len() >= capacity { queue.pop_front(); }\<close>.\<close>

fun trim_queue :: "nat \<Rightarrow> mailbox_entry list \<Rightarrow> mailbox_entry list" where
  "trim_queue capacity [] = []"
| "trim_queue capacity (e # q) = (if length (e # q) \<ge> capacity then trim_queue capacity q else e # q)"

definition push_mailbox ::
  "'db relay_env \<Rightarrow> system_time \<Rightarrow> string \<Rightarrow> bytes \<Rightarrow> 'db app_state \<Rightarrow> 'db app_state \<times> (unit, unit) res" where
  "push_mailbox R now rid body st =
    (if as_poisoned st then (st, Err ())
     else
       (let tables = as_tables st;
            queue = (case hm_get (tb_mailboxes tables) rid of None \<Rightarrow> [] | Some q \<Rightarrow> q);
            trimmed = trim_queue (rc_mailbox_capacity (as_config st)) queue
        in case time_add R now (rc_mailbox_ttl (as_config st)) of
             None \<Rightarrow>
               (st\<lparr>as_tables := tables\<lparr>tb_mailboxes := hm_insert rid trimmed (tb_mailboxes tables)\<rparr>,
                   as_poisoned := True\<rparr>, Panic)
           | Some expires_at \<Rightarrow>
               (st\<lparr>as_tables := tables\<lparr>tb_mailboxes :=
                     hm_insert rid (trimmed @ [\<lparr>me_body = body, me_expires_at = expires_at\<rparr>])
                       (tb_mailboxes tables)\<rparr>\<rparr>, Ok ())))"

fun pop_unexpired :: "system_time \<Rightarrow> mailbox_entry list \<Rightarrow> bytes option \<times> mailbox_entry list" where
  "pop_unexpired now [] = (None, [])"
| "pop_unexpired now (e # q) =
    (if \<not> mailbox_entry_expired now e then (Some (me_body e), q) else pop_unexpired now q)"

definition pop_mailbox ::
  "system_time \<Rightarrow> string \<Rightarrow> 'db app_state \<Rightarrow> 'db app_state \<times> (unit, bytes option) res" where
  "pop_mailbox now rid st =
    (if as_poisoned st then (st, Err ())
     else
       (let tables = as_tables st in
        case hm_get (tb_mailboxes tables) rid of
          None \<Rightarrow> (st, Ok None)
        | Some queue \<Rightarrow>
            (let (body, rest) = pop_unexpired now queue;
                 mailboxes = (if rest = [] then hm_remove rid (tb_mailboxes tables)
                              else hm_insert rid rest (tb_mailboxes tables))
             in (st\<lparr>as_tables := tables\<lparr>tb_mailboxes := mailboxes\<rparr>\<rparr>, Ok body))))"

datatype put_outcome = Stored | PutStale

definition put_slot ::
  "system_time \<Rightarrow> string \<Rightarrow> slot_entry \<Rightarrow> 'db app_state \<Rightarrow> 'db app_state \<times> (unit, put_outcome) res" where
  "put_slot now rid slot st =
    (if as_poisoned st then (st, Err ())
     else
       (let tables = as_tables st in
        if (case hm_get (tb_slots tables) rid of
              None \<Rightarrow> False
            | Some current \<Rightarrow>
                \<not> slot_entry_expired now current \<and> se_version current \<ge> se_version slot)
        then (st, Ok PutStale)
        else (st\<lparr>as_tables := tables\<lparr>tb_slots := hm_insert rid slot (tb_slots tables)\<rparr>\<rparr>, Ok Stored)))"

definition get_slot_newer ::
  "system_time \<Rightarrow> string \<Rightarrow> u64 \<Rightarrow> 'db app_state \<Rightarrow> 'db app_state \<times> (unit, slot_entry option) res" where
  "get_slot_newer now rid since st =
    (if as_poisoned st then (st, Err ())
     else
       (let tables = as_tables st in
        case hm_get (tb_slots tables) rid of
          None \<Rightarrow> (st, Ok None)
        | Some slot \<Rightarrow>
            if slot_entry_expired now slot
            then (st\<lparr>as_tables := tables\<lparr>tb_slots := hm_remove rid (tb_slots tables)\<rparr>\<rparr>, Ok None)
            else (st, Ok (if se_version slot > since then Some slot else None))))"

section \<open>Persisted slots\<close>

definition unix_secs :: "system_time \<Rightarrow> u64" where
  "unix_secs t = (if t < 0 then 0 else of_nat (as_secs (nat t)))"

definition encode_slot :: "slot_entry \<Rightarrow> bytes" where
  "encode_slot slot = u64_be (se_version slot) @ u64_be (unix_secs (se_expires_at slot)) @ se_body slot"

text \<open>The addition to the epoch panics when the time is not representable.\<close>

definition decode_slot :: "'db relay_env \<Rightarrow> bytes \<Rightarrow> (string, slot_entry option) res" where
  "decode_slot R raw =
    (if length raw < 8 then Ok None
     else if length raw < 16 then Ok None
     else
       bind_res (expect (time_add R 0 (from_secs (unat (u64_of_be (take 8 (drop 8 raw))))))) (\<lambda>expires_at.
         Ok (Some \<lparr> se_version = u64_of_be (take 8 raw), se_body = drop 16 raw,
                    se_expires_at = expires_at \<rparr>)))"

fun load_slots ::
  "'db relay_env \<Rightarrow> system_time \<Rightarrow> (bytes \<times> bytes) option list \<Rightarrow> (string \<times> slot_entry) list \<Rightarrow>
    bytes list \<Rightarrow> (string, (string \<times> slot_entry) list \<times> bytes list) res" where
  "load_slots R now [] slots expired = Ok (slots, expired)"
| "load_slots R now (None # items) slots expired = Err ''reading persisted slot''"
| "load_slots R now (Some (key, raw) # items) slots expired =
    (case Option.bind (from_utf8 key) relay_id_valid of
       None \<Rightarrow> load_slots R now items slots expired
     | Some rid \<Rightarrow>
         bind_res (decode_slot R raw) (\<lambda>decoded.
           case decoded of
             None \<Rightarrow> load_slots R now items slots expired
           | Some slot \<Rightarrow>
               if slot_entry_expired now slot then load_slots R now items slots (expired @ [key])
               else load_slots R now items (hm_insert rid slot slots) expired))"

fun remove_keys :: "'db relay_env \<Rightarrow> bytes list \<Rightarrow> 'db \<Rightarrow> 'db \<times> (string, unit) res" where
  "remove_keys R [] db = (db, Ok ())"
| "remove_keys R (key # keys) db =
    (case re_db_remove R db key of
       (db, True) \<Rightarrow> remove_keys R keys db
     | (db, False) \<Rightarrow> (db, Err ''removing expired persisted slot''))"

text \<open>A panic in the blocking task surfaces as a join error.\<close>

definition persist_open ::
  "'db relay_env \<Rightarrow> system_time \<Rightarrow> 'db \<Rightarrow> 'db \<times> (string, (string \<times> slot_entry) list) res" where
  "persist_open R now db =
    (case load_slots R now (re_db_iter R db) [] [] of
       Err e \<Rightarrow> (db, Err e)
     | Panic \<Rightarrow> (db, Err ''joining slot store opener'')
     | Ok (slots, expired) \<Rightarrow>
         (case remove_keys R expired db of
            (db, Ok _) \<Rightarrow>
              (case re_db_flush R db of
                 (db, True) \<Rightarrow> (db, Ok slots)
               | (db, False) \<Rightarrow> (db, Err ''flushing slot store''))
          | (db, Err e) \<Rightarrow> (db, Err e)
          | (db, Panic) \<Rightarrow> (db, Panic)))"

definition persist_insert ::
  "'db relay_env \<Rightarrow> string \<Rightarrow> slot_entry \<Rightarrow> 'db \<Rightarrow> 'db \<times> (string, unit) res" where
  "persist_insert R rid slot db =
    (case re_db_insert R db (str_bytes rid) (encode_slot slot) of
       (db, False) \<Rightarrow> (db, Err ''persisting slot'')
     | (db, True) \<Rightarrow>
         (case re_db_flush R db of
            (db, True) \<Rightarrow> (db, Ok ())
          | (db, False) \<Rightarrow> (db, Err ''flushing slot store'')))"

section \<open>Requests and responses\<close>

type_synonym header_map = "(string \<times> bytes) list"

definition header_to_str :: "bytes \<Rightarrow> string option" where
  "header_to_str v = (if list_all (\<lambda>b. in_range 32 126 b \<or> b = 9) v then Some (bytes_str v) else None)"

record http_response =
  hr_status :: nat
  hr_headers :: "(string \<times> string) list"
  hr_body :: bytes

definition finish_response :: "http_response \<Rightarrow> http_response" where
  "finish_response r = r\<lparr>hr_headers :=
     hm_insert ''access-control-allow-headers'' ''Content-Type, Authorization, X-Enlace-Version''
    (hm_insert ''access-control-allow-methods'' ''GET, POST, PUT, OPTIONS''
    (hm_insert ''access-control-allow-origin'' ''*'' (hr_headers r)))\<rparr>"

definition text_response :: "nat \<Rightarrow> string \<Rightarrow> http_response" where
  "text_response status body =
    finish_response \<lparr> hr_status = status,
      hr_headers = [(''content-type'', ''text/plain; charset=utf-8'')], hr_body = str_bytes body \<rparr>"

definition server_error :: http_response where
  "server_error =
    finish_response \<lparr> hr_status = 500,
      hr_headers = [(''content-type'', ''text/plain; charset=utf-8'')],
      hr_body = str_bytes ''internal error'' \<rparr>"

definition empty_response :: "nat \<Rightarrow> http_response" where
  "empty_response status = finish_response \<lparr> hr_status = status, hr_headers = [], hr_body = [] \<rparr>"

definition octet_response :: "nat \<Rightarrow> bytes \<Rightarrow> u64 option \<Rightarrow> http_response" where
  "octet_response status body version =
    finish_response \<lparr> hr_status = status,
      hr_headers = (''content-type'', ''application/octet-stream'') #
        (case version of None \<Rightarrow> [] | Some v \<Rightarrow> [(VERSION_HEADER, dec_string (unat v))]),
      hr_body = body \<rparr>"

definition check_auth :: "'db app_state \<Rightarrow> header_map \<Rightarrow> bool" where
  "check_auth st headers =
    (case rc_auth (as_config st) of
       None \<Rightarrow> True
     | Some expected \<Rightarrow>
         (case Option.bind (hm_get headers ''authorization'') header_to_str of
            None \<Rightarrow> False
          | Some v \<Rightarrow> v = expected))"

text \<open>A request body arrives as bytes, or not at all when the stream breaks.\<close>

definition bounded_body :: "bytes option \<Rightarrow> nat \<Rightarrow> (unit, bytes) res" where
  "bounded_body body max_body_bytes =
    (case body of None \<Rightarrow> Err () | Some b \<Rightarrow> if length b > max_body_bytes then Err () else Ok b)"

definition parse_query_u64 :: "(string \<times> string) list \<Rightarrow> string \<Rightarrow> (unit, u64) res" where
  "parse_query_u64 query key =
    (case hm_get query key of None \<Rightarrow> Ok 0 | Some v \<Rightarrow> ok_or () (parse_u64 v))"

definition parse_wait :: "(string \<times> string) list \<Rightarrow> duration \<Rightarrow> (unit, duration) res" where
  "parse_wait query max_wait =
    map_ok (\<lambda>seconds. min (from_secs (unat seconds)) max_wait) (parse_query_u64 query ''wait'')"

definition parse_since :: "(string \<times> string) list \<Rightarrow> (unit, u64) res" where
  "parse_since query = parse_query_u64 query ''since''"

definition parse_version_header :: "header_map \<Rightarrow> (unit, u64) res" where
  "parse_version_header headers =
    ok_or () (Option.bind (Option.bind (hm_get headers VERSION_HEADER) header_to_str) parse_u64)"

section \<open>Handlers\<close>

text \<open>The replies the framework gives when no route matches.\<close>

datatype route_error = NotFound | MethodNotAllowed

definition mailbox_enqueue ::
  "'db relay_env \<Rightarrow> system_time \<Rightarrow> string \<Rightarrow> header_map \<Rightarrow> bytes option \<Rightarrow> 'db app_state \<Rightarrow>
    'db app_state \<times> (route_error, http_response) res" where
  "mailbox_enqueue R now raw_id headers body st =
    (if \<not> check_auth st headers then (st, Ok (text_response 401 ''unauthorized''))
     else case relay_id_parse raw_id of
       Ok rid \<Rightarrow>
         (case bounded_body body (rc_max_body_bytes (as_config st)) of
            Ok b \<Rightarrow>
              (case push_mailbox R now rid b st of
                 (st, Ok _) \<Rightarrow> (st, Ok (empty_response 204))
               | (st, Err _) \<Rightarrow> (st, Ok server_error)
               | (st, Panic) \<Rightarrow> (st, Panic))
          | _ \<Rightarrow> (st, Ok (text_response 413 ''payload too large'')))
     | _ \<Rightarrow> (st, Ok (text_response 400 ''malformed id'')))"

text \<open>A wake-up: what other requests did to the server, and the time at which it is handled.\<close>

type_synonym 'db wake = "('db app_state \<Rightarrow> 'db app_state) \<times> system_time"

fun dequeue_loop ::
  "string \<Rightarrow> duration \<Rightarrow> system_time \<Rightarrow> 'db wake list \<Rightarrow> 'db app_state \<Rightarrow> 'db app_state \<times> http_response" where
  "dequeue_loop rid wait now wakes st =
    (case pop_mailbox now rid st of
       (st, Ok (Some body)) \<Rightarrow> (st, octet_response 200 body None)
     | (st, Ok None) \<Rightarrow>
         if wait = 0 then (st, empty_response 204)
         else (case wakes of
                 [] \<Rightarrow> (st, empty_response 204)
               | (others, later) # wakes \<Rightarrow> dequeue_loop rid wait later wakes (others st))
     | (st, _) \<Rightarrow> (st, server_error))"

declare dequeue_loop.simps [simp del]

definition mailbox_dequeue ::
  "system_time \<Rightarrow> string \<Rightarrow> (string \<times> string) list \<Rightarrow> header_map \<Rightarrow> 'db wake list \<Rightarrow> 'db app_state \<Rightarrow>
    'db app_state \<times> http_response" where
  "mailbox_dequeue now raw_id query headers wakes st =
    (if \<not> check_auth st headers then (st, text_response 401 ''unauthorized'')
     else case relay_id_parse raw_id of
       Ok rid \<Rightarrow>
         (case parse_wait query (rc_max_wait (as_config st)) of
            Ok wait \<Rightarrow> dequeue_loop rid wait now wakes st
          | _ \<Rightarrow> (st, text_response 400 ''malformed wait''))
     | _ \<Rightarrow> (st, text_response 400 ''malformed id''))"

definition slot_write ::
  "'db relay_env \<Rightarrow> system_time \<Rightarrow> string \<Rightarrow> header_map \<Rightarrow> bytes option \<Rightarrow> 'db app_state \<Rightarrow>
    'db app_state \<times> (route_error, http_response) res" where
  "slot_write R now raw_id headers body st =
    (if \<not> check_auth st headers then (st, Ok (text_response 401 ''unauthorized''))
     else case relay_id_parse raw_id of
       Ok rid \<Rightarrow>
         (case parse_version_header headers of
            Ok version \<Rightarrow>
              (case bounded_body body (rc_max_body_bytes (as_config st)) of
                 Ok b \<Rightarrow>
                   (case time_add R now (rc_slot_ttl (as_config st)) of
                      None \<Rightarrow> (st, Panic)
                    | Some expires_at \<Rightarrow>
                        (let slot = \<lparr> se_version = version, se_body = b, se_expires_at = expires_at \<rparr> in
                         case put_slot now rid slot st of
                           (st, Ok Stored) \<Rightarrow>
                             (case as_persist st of
                                None \<Rightarrow> (st, Ok (empty_response 204))
                              | Some db \<Rightarrow>
                                  (case persist_insert R rid slot db of
                                     (db, Ok _) \<Rightarrow> (st\<lparr>as_persist := Some db\<rparr>, Ok (empty_response 204))
                                   | (db, _) \<Rightarrow> (st\<lparr>as_persist := Some db\<rparr>, Ok server_error)))
                         | (st, Ok PutStale) \<Rightarrow> (st, Ok (text_response 409 ''stale version''))
                         | (st, _) \<Rightarrow> (st, Ok server_error)))
               | _ \<Rightarrow> (st, Ok (text_response 413 ''payload too large'')))
          | _ \<Rightarrow> (st, Ok (text_response 400 ''malformed version'')))
     | _ \<Rightarrow> (st, Ok (text_response 400 ''malformed id'')))"

fun read_loop ::
  "string \<Rightarrow> u64 \<Rightarrow> duration \<Rightarrow> system_time \<Rightarrow> 'db wake list \<Rightarrow> 'db app_state \<Rightarrow>
    'db app_state \<times> http_response" where
  "read_loop rid since wait now wakes st =
    (case get_slot_newer now rid since st of
       (st, Ok (Some slot)) \<Rightarrow> (st, octet_response 200 (se_body slot) (Some (se_version slot)))
     | (st, Ok None) \<Rightarrow>
         if wait = 0 then (st, empty_response 204)
         else (case wakes of
                 [] \<Rightarrow> (st, empty_response 204)
               | (others, later) # wakes \<Rightarrow> read_loop rid since wait later wakes (others st))
     | (st, _) \<Rightarrow> (st, server_error))"

declare read_loop.simps [simp del]

definition slot_read ::
  "system_time \<Rightarrow> string \<Rightarrow> (string \<times> string) list \<Rightarrow> header_map \<Rightarrow> 'db wake list \<Rightarrow> 'db app_state \<Rightarrow>
    'db app_state \<times> http_response" where
  "slot_read now raw_id query headers wakes st =
    (if \<not> check_auth st headers then (st, text_response 401 ''unauthorized'')
     else case relay_id_parse raw_id of
       Ok rid \<Rightarrow>
         (case parse_since query of
            Ok since \<Rightarrow>
              (case parse_wait query (rc_max_wait (as_config st)) of
                 Ok wait \<Rightarrow> read_loop rid since wait now wakes st
               | _ \<Rightarrow> (st, text_response 400 ''malformed wait''))
          | _ \<Rightarrow> (st, text_response 400 ''malformed since''))
     | _ \<Rightarrow> (st, text_response 400 ''malformed id''))"

definition preflight :: http_response where
  "preflight = empty_response 204"

section \<open>The server\<close>

text \<open>
  \<open>build_router\<close>: the initial state, with the slots of the store when one is configured, and the
  routes. The path is its segments; a request no route answers is left to the framework.
\<close>

definition app_state_of :: "relay_config \<Rightarrow> 'db option \<Rightarrow> (string \<times> slot_entry) list \<Rightarrow> 'db app_state" where
  "app_state_of config persist slots =
    \<lparr> as_tables = \<lparr> tb_mailboxes = [], tb_slots = slots \<rparr>, as_poisoned = False,
      as_persist = persist, as_config = config \<rparr>"

definition build_state ::
  "'db relay_env \<Rightarrow> system_time \<Rightarrow> relay_config \<Rightarrow> 'db option \<Rightarrow> (string, 'db app_state) res" where
  "build_state R now config persist =
    (case persist of
       None \<Rightarrow> Ok (app_state_of config None [])
     | Some db \<Rightarrow>
         (case persist_open R now db of
            (db, r) \<Rightarrow> map_ok (\<lambda>slots. app_state_of config (Some db) slots) r))"

datatype http_method = GET | POST | PUT | OPTIONS

record http_request =
  rq_method :: http_method
  rq_path :: "string list"
  rq_query :: "(string \<times> string) list"
  rq_headers :: header_map
  rq_body :: "bytes option"

definition relay_serve ::
  "'db relay_env \<Rightarrow> system_time \<Rightarrow> 'db wake list \<Rightarrow> http_request \<Rightarrow> 'db app_state \<Rightarrow>
    'db app_state \<times> (route_error, http_response) res" where
  "relay_serve R now wakes rq st =
    (case rq_path rq of
       [] \<Rightarrow> (st, Err NotFound)
     | [pre, rid] \<Rightarrow>
         if pre = ''m'' \<and> rid \<noteq> [] then
           (case rq_method rq of
              POST \<Rightarrow> mailbox_enqueue R now rid (rq_headers rq) (rq_body rq) st
            | GET \<Rightarrow> apsnd Ok (mailbox_dequeue now rid (rq_query rq) (rq_headers rq) wakes st)
            | OPTIONS \<Rightarrow> (st, Ok preflight)
            | PUT \<Rightarrow> (st, Err MethodNotAllowed))
         else if pre = ''s'' \<and> rid \<noteq> [] then
           (case rq_method rq of
              PUT \<Rightarrow> slot_write R now rid (rq_headers rq) (rq_body rq) st
            | GET \<Rightarrow> apsnd Ok (slot_read now rid (rq_query rq) (rq_headers rq) wakes st)
            | OPTIONS \<Rightarrow> (st, Ok preflight)
            | POST \<Rightarrow> (st, Err MethodNotAllowed))
         else if rq_method rq = OPTIONS then (st, Ok preflight) else (st, Err MethodNotAllowed)
     | _ \<Rightarrow> if rq_method rq = OPTIONS then (st, Ok preflight) else (st, Err MethodNotAllowed))"

section \<open>Views of the tables\<close>

definition mailbox_of :: "'db app_state \<Rightarrow> string \<Rightarrow> mailbox_entry list" where
  "mailbox_of st rid = (case hm_get (tb_mailboxes (as_tables st)) rid of None \<Rightarrow> [] | Some q \<Rightarrow> q)"

definition slot_of :: "system_time \<Rightarrow> 'db app_state \<Rightarrow> string \<Rightarrow> (u64 \<times> bytes) option" where
  "slot_of now st rid =
    (case hm_get (tb_slots (as_tables st)) rid of
       None \<Rightarrow> None
     | Some e \<Rightarrow> if slot_entry_expired now e then None else Some (se_version e, se_body e))"

text \<open>Push, pop and put as state transformers, for the two contracts.\<close>

definition relay_push :: "'db relay_env \<Rightarrow> system_time \<Rightarrow> 'db app_state \<Rightarrow> string \<Rightarrow> bytes \<Rightarrow> 'db app_state" where
  "relay_push R now st rid b = fst (push_mailbox R now rid b st)"

definition relay_pop :: "system_time \<Rightarrow> 'db app_state \<Rightarrow> string \<Rightarrow> 'db app_state \<times> bytes option" where
  "relay_pop now st rid =
    (case pop_mailbox now rid st of (st, Ok r) \<Rightarrow> (st, r) | (st, _) \<Rightarrow> (st, None))"

definition relay_put ::
  "system_time \<Rightarrow> system_time \<Rightarrow> 'db app_state \<Rightarrow> string \<Rightarrow> u64 \<Rightarrow> bytes \<Rightarrow> 'db app_state \<times> bool" where
  "relay_put now expires_at st rid v b =
    (case put_slot now rid \<lparr> se_version = v, se_body = b, se_expires_at = expires_at \<rparr> st of
       (st, r) \<Rightarrow> (st, r = Ok Stored))"

text \<open>
  The lock is usable, the clock far from its end, and no queued message has expired: the situation
  in which a mailbox is a plain bounded queue.
\<close>

definition relay_ready :: "'db relay_env \<Rightarrow> system_time \<Rightarrow> nat \<Rightarrow> 'db app_state \<Rightarrow> bool" where
  "relay_ready R now cap st \<longleftrightarrow>
    \<not> as_poisoned st \<and> rc_mailbox_capacity (as_config st) = cap \<and> 1 \<le> cap
    \<and> 0 < rc_mailbox_ttl (as_config st)
    \<and> now + int (rc_mailbox_ttl (as_config st)) \<le> re_time_max R
    \<and> (\<forall>rid. \<forall>e \<in> set (mailbox_of st rid). \<not> mailbox_entry_expired now e)"

section \<open>Mailboxes\<close>

lemma trim_queue_drop: "1 \<le> cap \<Longrightarrow> trim_queue cap q = drop (Suc (length q) - cap) q"
proof (induction q)
  case (Cons e q)
  show ?case
  proof (cases "length (e # q) \<ge> cap")
    case True
    then have "Suc (length (e # q)) - cap = Suc (Suc (length q) - cap)" by simp
    with Cons True show ?thesis by simp
  qed simp
qed simp

lemma trim_queue_last_n: "1 \<le> cap \<Longrightarrow> trim_queue cap q @ [e] = last_n cap (q @ [e])"
  by (simp add: trim_queue_drop last_n_def)

lemma set_trim_queue: "set (trim_queue cap q) \<subseteq> set q"
  by (induction q) auto

lemma mailbox_of_push:
  assumes "\<not> as_poisoned st" "1 \<le> rc_mailbox_capacity (as_config st)"
    and "now + int (rc_mailbox_ttl (as_config st)) \<le> re_time_max R"
  shows "mailbox_of (relay_push R now st rid b) j =
    (if j = rid
     then last_n (rc_mailbox_capacity (as_config st))
       (mailbox_of st rid @
         [\<lparr>me_body = b, me_expires_at = now + int (rc_mailbox_ttl (as_config st))\<rparr>])
     else mailbox_of st j)"
  using assms
  by (auto simp: relay_push_def push_mailbox_def time_add_def Let_def mailbox_of_def
      trim_queue_last_n [symmetric] split: option.splits)

lemma push_mailbox_frame [simp]:
  "as_config (fst (push_mailbox R now rid b st)) = as_config st"
  "tb_slots (as_tables (fst (push_mailbox R now rid b st))) = tb_slots (as_tables st)"
  "as_persist (fst (push_mailbox R now rid b st)) = as_persist st"
  by (simp_all add: push_mailbox_def Let_def split: option.split)

lemma pop_mailbox_frame [simp]:
  "as_config (fst (pop_mailbox now rid st)) = as_config st"
  "tb_slots (as_tables (fst (pop_mailbox now rid st))) = tb_slots (as_tables st)"
  "as_persist (fst (pop_mailbox now rid st)) = as_persist st"
  "as_poisoned (fst (pop_mailbox now rid st)) = as_poisoned st"
  by (simp_all add: pop_mailbox_def Let_def split: option.split prod.split)

lemma push_mailbox_poisoned:
  "now + int (rc_mailbox_ttl (as_config st)) \<le> re_time_max R \<Longrightarrow>
    as_poisoned (fst (push_mailbox R now rid b st)) = as_poisoned st"
  by (simp add: push_mailbox_def Let_def time_add_def)

text \<open>A pop returns the first message that has not expired and drops everything before it.\<close>

lemma pop_unexpired_split:
  "pop_unexpired now q =
    (case dropWhile (mailbox_entry_expired now) q of [] \<Rightarrow> (None, []) | e # r \<Rightarrow> (Some (me_body e), r))"
  by (induction q) auto

lemma mailbox_of_pop:
  assumes "\<not> as_poisoned st" "pop_unexpired now (mailbox_of st rid) = (r, rest)"
  shows "snd (pop_mailbox now rid st) = Ok r"
    and "mailbox_of (fst (pop_mailbox now rid st)) j = (if j = rid then rest else mailbox_of st j)"
  using assms
  by (auto simp: pop_mailbox_def mailbox_of_def Let_def split: option.splits prod.splits)

lemma pop_unexpired_fresh:
  "\<forall>e \<in> set q. \<not> mailbox_entry_expired now e \<Longrightarrow>
    pop_unexpired now q = (case q of [] \<Rightarrow> (None, []) | e # r \<Rightarrow> (Some (me_body e), r))"
  by (cases q) auto

lemma relay_pop_ready:
  assumes "relay_ready R now cap st"
  shows "snd (relay_pop now st rid) = (case map me_body (mailbox_of st rid) of [] \<Rightarrow> None | x # q \<Rightarrow> Some x)"
    and "mailbox_of (fst (relay_pop now st rid)) j = (if j = rid then tl (mailbox_of st rid) else mailbox_of st j)"
    and "as_poisoned (fst (relay_pop now st rid)) = as_poisoned st"
    and "as_config (fst (relay_pop now st rid)) = as_config st"
proof -
  obtain r rest where q: "pop_unexpired now (mailbox_of st rid) = (r, rest)" by fastforce
  have fresh: "\<forall>e \<in> set (mailbox_of st rid). \<not> mailbox_entry_expired now e" and np: "\<not> as_poisoned st"
    using assms by (auto simp: relay_ready_def)
  note pop = mailbox_of_pop[OF np q] pop_mailbox_frame[of now rid st]
  have rp: "relay_pop now st rid = (fst (pop_mailbox now rid st), r)"
    using pop(1) by (cases "pop_mailbox now rid st") (simp add: relay_pop_def)
  show "snd (relay_pop now st rid) = (case map me_body (mailbox_of st rid) of [] \<Rightarrow> None | x # q \<Rightarrow> Some x)"
    and "mailbox_of (fst (relay_pop now st rid)) j = (if j = rid then tl (mailbox_of st rid) else mailbox_of st j)"
    using q pop(2) by (auto simp: rp pop_unexpired_fresh[OF fresh] split: list.splits)
  show "as_poisoned (fst (relay_pop now st rid)) = as_poisoned st"
    and "as_config (fst (relay_pop now st rid)) = as_config st"
    by (simp_all add: rp)
qed

lemma relay_push_ready:
  assumes "relay_ready R now cap st"
  shows "relay_ready R now cap (relay_push R now st rid b)"
proof -
  note push = mailbox_of_push[of st now R rid b]
  from assms show ?thesis
    using set_drop_subset
    by (fastforce simp: relay_ready_def push relay_push_def [symmetric] last_n_def
        push_mailbox_poisoned mailbox_entry_expired_def
        push_mailbox_frame[folded relay_push_def] push_mailbox_poisoned[folded relay_push_def]
        dest: in_set_dropD split: if_splits)
qed

interpretation relay_mailbox: mailbox_contract "relay_push R now" "relay_pop now"
  "\<lambda>st rid. map me_body (mailbox_of st rid)" "last_n cap" "relay_ready R now cap"
  for R :: "'db relay_env" and now cap
proof unfold_locales
  fix st :: "'db app_state" and rid j :: string and b :: bytes
  assume ready: "relay_ready R now cap st"
  show "relay_ready R now cap (relay_push R now st rid b)"
    using ready by (rule relay_push_ready)
  show "relay_ready R now cap (fst (relay_pop now st rid))"
    using ready by (auto simp: relay_ready_def relay_pop_ready[OF ready] dest: list.set_sel(2) split: if_splits)
      (metis list.sel(2) list.set_sel(2))
  show "map me_body (mailbox_of (relay_push R now st rid b) j) =
      (if j = rid then last_n cap (map me_body (mailbox_of st rid) @ [b]) else map me_body (mailbox_of st j))"
    using ready by (subst mailbox_of_push) (auto simp: relay_ready_def last_n_def drop_map)
  show "snd (relay_pop now st rid) = (case map me_body (mailbox_of st rid) of [] \<Rightarrow> None | x # q \<Rightarrow> Some x)"
    by (rule relay_pop_ready(1)[OF ready])
  show "map me_body (mailbox_of (fst (relay_pop now st rid)) j) =
      (if j = rid then tl (map me_body (mailbox_of st rid)) else map me_body (mailbox_of st j))"
    by (simp add: relay_pop_ready(2)[OF ready] map_tl)
next
  fix xs :: "bytes list" and b
  show "last_n cap (last_n cap xs @ [b]) = last_n cap (xs @ [b])" by (rule last_n_last_n_snoc)
  show "last_n cap [] = ([] :: bytes list)" by (simp add: last_n_def)
qed

section \<open>Slots\<close>

lemma put_slot_cases:
  assumes "\<not> as_poisoned st"
  shows "put_slot now rid slot st =
    (if slot_of now st rid = None \<or> fst (the (slot_of now st rid)) < se_version slot
     then (st\<lparr>as_tables := (as_tables st)\<lparr>tb_slots := hm_insert rid slot (tb_slots (as_tables st))\<rparr>\<rparr>, Ok Stored)
     else (st, Ok PutStale))"
  using assms by (auto simp: put_slot_def slot_of_def Let_def split: option.splits)

interpretation relay_slots: slot_contract "relay_put now expires_at" "slot_of now"
  "\<lambda>st. \<not> as_poisoned st \<and> now < expires_at" for now expires_at
  by unfold_locales
    (auto simp: relay_put_def put_slot_cases newer_def slot_of_def slot_entry_expired_def split: option.splits)

lemma get_slot_newer_slot_of:
  assumes "\<not> as_poisoned st"
  shows "\<exists>st'. get_slot_newer now rid since st =
    (st', Ok (case slot_of now st rid of
       None \<Rightarrow> None
     | Some (v, b) \<Rightarrow> if since < v then hm_get (tb_slots (as_tables st)) rid else None))
    \<and> slot_of now st' = slot_of now st"
  using assms
  by (auto simp: get_slot_newer_def slot_of_def Let_def fun_eq_iff split: option.splits)

lemma put_slot_frame [simp]:
  "as_config (fst (put_slot now rid slot st)) = as_config st"
  "tb_mailboxes (as_tables (fst (put_slot now rid slot st))) = tb_mailboxes (as_tables st)"
  "as_poisoned (fst (put_slot now rid slot st)) = as_poisoned st"
  "as_persist (fst (put_slot now rid slot st)) = as_persist st"
  by (simp_all add: put_slot_def Let_def)

lemma get_slot_newer_frame [simp]:
  "as_config (fst (get_slot_newer now rid since st)) = as_config st"
  "tb_mailboxes (as_tables (fst (get_slot_newer now rid since st))) = tb_mailboxes (as_tables st)"
  "as_poisoned (fst (get_slot_newer now rid since st)) = as_poisoned st"
  by (simp_all add: get_slot_newer_def Let_def split: option.split)

section \<open>Runs of the server\<close>

text \<open>
  Any sequence of requests; while a long poll waits, other requests run, which is a run of its own.
\<close>

inductive relay_run :: "'db relay_env \<Rightarrow> 'db app_state \<Rightarrow> 'db app_state \<Rightarrow> bool" for R where
  idle: "relay_run R st st"
| serve: "relay_run R st s1 \<Longrightarrow> (\<And>others t s. (others, t) \<in> set wakes \<Longrightarrow> relay_run R s (others s)) \<Longrightarrow>
    relay_run R st (fst (relay_serve R now wakes rq s1))"

text \<open>The resources a client can pin are bounded, and the tables hold well-formed ids only.\<close>

definition relay_wf :: "'db app_state \<Rightarrow> bool" where
  "relay_wf st \<longleftrightarrow>
    hm_ok (tb_mailboxes (as_tables st)) \<and> hm_ok (tb_slots (as_tables st))
    \<and> 1 \<le> rc_mailbox_capacity (as_config st)
    \<and> (\<forall>rid q. hm_get (tb_mailboxes (as_tables st)) rid = Some q \<longrightarrow>
         relay_id_valid rid = Some rid \<and> length q \<le> rc_mailbox_capacity (as_config st)
         \<and> (\<forall>e \<in> set q. length (me_body e) \<le> rc_max_body_bytes (as_config st)))
    \<and> (\<forall>rid e. hm_get (tb_slots (as_tables st)) rid = Some e \<longrightarrow>
         relay_id_valid rid = Some rid \<and> length (se_body e) \<le> rc_max_body_bytes (as_config st))"

lemma relay_id_parse_Ok: "relay_id_parse raw = Ok rid \<Longrightarrow> rid = raw \<and> relay_id_valid rid = Some rid"
  by (auto simp: relay_id_parse_def relay_id_valid_def res_simps split: if_splits)

lemma length_trim_queue: "1 \<le> cap \<Longrightarrow> length (trim_queue cap q) < cap"
  by (simp add: trim_queue_drop)

lemma push_mailbox_wf:
  assumes "relay_wf st" "relay_id_valid rid = Some rid" "length b \<le> rc_max_body_bytes (as_config st)"
  shows "relay_wf (fst (push_mailbox R now rid b st))"
proof -
  let ?cap = "rc_mailbox_capacity (as_config st)"
  have q: "length (trim_queue ?cap q) < ?cap" "length (trim_queue ?cap q @ [e]) \<le> ?cap" for q e
    using length_trim_queue[of ?cap q] assms(1) by (auto simp: relay_wf_def)
  show ?thesis
    using assms q
    by (auto simp: relay_wf_def push_mailbox_def Let_def dest!: subsetD[OF set_trim_queue]
        split: option.splits if_splits intro: less_imp_le)
qed

lemma pop_unexpired_suffix: "pop_unexpired now q = (r, rest) \<Longrightarrow> \<exists>dropped. q = dropped @ rest"
proof (induction q)
  case (Cons e q)
  then show ?case by (cases "mailbox_entry_expired now e") (auto intro: exI[of _ "[e]"] simp: Cons_eq_append_conv)
qed auto

lemma pop_mailbox_wf: "relay_wf st \<Longrightarrow> relay_wf (fst (pop_mailbox now rid st))"
  by (fastforce simp: relay_wf_def pop_mailbox_def Let_def split: option.splits prod.splits if_splits
      dest!: pop_unexpired_suffix)

lemma put_slot_wf:
  "relay_wf st \<Longrightarrow> relay_id_valid rid = Some rid \<Longrightarrow> length (se_body slot) \<le> rc_max_body_bytes (as_config st) \<Longrightarrow>
    relay_wf (fst (put_slot now rid slot st))"
  by (auto simp: relay_wf_def put_slot_def Let_def split: if_splits)

lemma get_slot_newer_wf: "relay_wf st \<Longrightarrow> relay_wf (fst (get_slot_newer now rid since st))"
  by (auto simp: relay_wf_def get_slot_newer_def Let_def split: option.splits if_splits)

lemma relay_wf_persist [simp]: "relay_wf (st\<lparr>as_persist := db\<rparr>) = relay_wf st"
  by (simp add: relay_wf_def)

lemma bounded_body_Ok: "bounded_body body n = Ok b \<longleftrightarrow> body = Some b \<and> length b \<le> n"
  by (auto simp: bounded_body_def split: option.splits if_splits)

lemma bounded_body_not_Panic [simp]: "bounded_body body n \<noteq> Panic"
  by (auto simp: bounded_body_def split: option.splits)

lemma mailbox_enqueue_wf: "relay_wf st \<Longrightarrow> relay_wf (fst (mailbox_enqueue R now raw headers body st))"
  using push_mailbox_wf[of st raw _ R now]
  by (auto simp: mailbox_enqueue_def bounded_body_Ok dest!: relay_id_parse_Ok split: res.splits prod.splits)
    (metis fst_conv)+

definition wakes_keep :: "('db app_state \<Rightarrow> bool) \<Rightarrow> 'db wake list \<Rightarrow> bool" where
  "wakes_keep P wakes \<longleftrightarrow> (\<forall>(others, t) \<in> set wakes. \<forall>s. P s \<longrightarrow> P (others s))"

lemma wakes_keep_simps [simp]:
  "wakes_keep P []"
  "wakes_keep P (w # wakes) \<longleftrightarrow> (\<forall>s. P s \<longrightarrow> P (fst w s)) \<and> wakes_keep P wakes"
  by (auto simp: wakes_keep_def)

lemma dequeue_loop_wf:
  assumes "relay_wf st" "wakes_keep relay_wf wakes"
  shows "relay_wf (fst (dequeue_loop rid wait now wakes st))"
  using assms
proof (induction wakes arbitrary: now st)
  case Nil
  then show ?case using pop_mailbox_wf[of st now rid]
    by (auto simp: dequeue_loop.simps[of rid wait now] split: prod.split res.split option.split)
next
  case (Cons w wakes)
  have "relay_wf (fst (pop_mailbox now rid st))" using pop_mailbox_wf Cons.prems(1) by blast
  with Cons show ?case
    by (auto simp: dequeue_loop.simps[of rid wait now] split: prod.split res.split option.split)
qed

lemma read_loop_wf:
  assumes "relay_wf st" "wakes_keep relay_wf wakes"
  shows "relay_wf (fst (read_loop rid since wait now wakes st))"
  using assms
proof (induction wakes arbitrary: now st)
  case Nil
  then show ?case using get_slot_newer_wf[of st now rid since]
    by (auto simp: read_loop.simps[of rid since wait now] split: prod.split res.split option.split)
next
  case (Cons w wakes)
  have "relay_wf (fst (get_slot_newer now rid since st))" using get_slot_newer_wf Cons.prems(1) by blast
  with Cons show ?case
    by (auto simp: read_loop.simps[of rid since wait now] split: prod.split res.split option.split)
qed

lemma slot_write_wf:
  assumes "relay_wf st"
  shows "relay_wf (fst (slot_write R now raw headers body st))"
proof -
  have "relay_wf s"
    if "put_slot now raw \<lparr>se_version = v, se_body = b, se_expires_at = t\<rparr> st = (s, r)"
      "relay_id_valid raw = Some raw" "length b \<le> rc_max_body_bytes (as_config st)" for v b t s r
    using put_slot_wf[OF assms that(2), of "\<lparr>se_version = v, se_body = b, se_expires_at = t\<rparr>" now] that
    by simp
  with assms show ?thesis
    by (auto simp: slot_write_def bounded_body_Ok Let_def dest!: relay_id_parse_Ok
        split: res.splits prod.splits option.splits put_outcome.splits)
qed

lemma relay_serve_wf:
  assumes "relay_wf st" "wakes_keep relay_wf wakes"
  shows "relay_wf (fst (relay_serve R now wakes rq st))"
proof -
  note loops = dequeue_loop_wf[OF assms] read_loop_wf[OF assms]
  have "relay_wf (fst (mailbox_dequeue now raw q h wakes st))" "relay_wf (fst (slot_read now raw q h wakes st))"
    for raw q h
    using loops assms(1) by (auto simp: mailbox_dequeue_def slot_read_def split: res.split)
  then show ?thesis
    using assms(1) by (auto simp: relay_serve_def mailbox_enqueue_wf slot_write_wf split: list.split http_method.split)
qed

lemma relay_run_wf: "relay_run R st st' \<Longrightarrow> relay_wf st \<Longrightarrow> relay_wf st'"
  by (induction rule: relay_run.induct) (auto intro!: relay_serve_wf simp: wakes_keep_def)

lemma app_state_of_wf: "1 \<le> rc_mailbox_capacity config \<Longrightarrow> relay_wf (app_state_of config None [])"
  by (simp add: relay_wf_def app_state_of_def)

section \<open>Persistence\<close>

text \<open>
  A store that does its job: every call succeeds and it behaves as a map that lists each key once.
\<close>

definition db_map :: "'db relay_env \<Rightarrow> 'db \<Rightarrow> bytes \<Rightarrow> bytes option" where
  "db_map R db = map_of (map the (re_db_iter R db))"

definition db_reliable :: "'db relay_env \<Rightarrow> bool" where
  "db_reliable R \<longleftrightarrow>
    (\<forall>db. None \<notin> set (re_db_iter R db) \<and> distinct (map fst (map the (re_db_iter R db))))
    \<and> (\<forall>db k v. snd (re_db_insert R db k v) \<and> db_map R (fst (re_db_insert R db k v)) = (db_map R db)(k \<mapsto> v))
    \<and> (\<forall>db k. snd (re_db_remove R db k) \<and> db_map R (fst (re_db_remove R db k)) = (db_map R db)(k := None))
    \<and> (\<forall>db. snd (re_db_flush R db) \<and> db_map R (fst (re_db_flush R db)) = db_map R db)"

text \<open>The expiry that survives the store: whole seconds since the epoch.\<close>

definition floor_secs :: "system_time \<Rightarrow> system_time" where
  "floor_secs t = int (from_secs (as_secs (nat t)))"

lemma floor_secs_le: "0 \<le> t \<Longrightarrow> floor_secs t \<le> t"
  using from_secs_as_secs_le[of "nat t"] unfolding floor_secs_def by linarith

lemma decode_encode_slot:
  assumes "0 \<le> se_expires_at slot" "as_secs (nat (se_expires_at slot)) < 2 ^ 64"
    and "se_expires_at slot \<le> re_time_max R"
  shows "decode_slot R (encode_slot slot) = Ok (Some (slot\<lparr>se_expires_at := floor_secs (se_expires_at slot)\<rparr>))"
proof -
  have "unat (unix_secs (se_expires_at slot)) = as_secs (nat (se_expires_at slot))"
    using assms by (simp add: unix_secs_def unat_of_nat)
  moreover have "floor_secs (se_expires_at slot) \<le> re_time_max R"
    using assms floor_secs_le order.trans by blast
  ultimately show ?thesis
    by (simp add: decode_slot_def encode_slot_def time_add_def floor_secs_def)
qed

lemma relay_id_utf8:
  assumes "relay_id_valid rid = Some rid"
  shows "Option.bind (from_utf8 key) relay_id_valid = Some rid \<longleftrightarrow> key = str_bytes rid"
proof -
  have "utf8_valid (str_bytes r)" if "list_all is_lower_hex r" for r
    using that by (induction r) (auto simp: is_lower_hex_def str_bytes_def in_range_def)
  with assms have "from_utf8 (str_bytes rid) = Some rid"
    by (auto simp: relay_id_valid_def str_ok_def split: if_splits)
  with assms show ?thesis
    by (auto simp: relay_id_valid_def bind_eq_Some_conv dest: from_utf8_SomeD split: if_splits)
qed

lemma decode_slot_not_Err [simp]: "decode_slot R raw \<noteq> Err e"
  by (simp add: decode_slot_def res_simps)

lemma load_slots_total:
  "None \<notin> set items \<Longrightarrow> \<forall>p \<in> set (map the items). decode_slot R (snd p) \<noteq> Panic \<Longrightarrow>
    \<exists>slots' expired'. load_slots R now items slots expired = Ok (slots', expired')"
proof (induction R now items slots expired rule: load_slots.induct)
  case (3 R now key raw items slots expired)
  then show ?case
    by (cases "decode_slot R raw") (auto split: option.split)
qed auto

lemma load_slots_absent:
  assumes "load_slots R now items slots expired = Ok (slots', expired')"
    and "str_bytes rid \<notin> fst ` set (map the items)" "relay_id_valid rid = Some rid"
  shows "hm_get slots' rid = hm_get slots rid"
  using assms(1,2)
proof (induction R now items slots expired rule: load_slots.induct)
  case (3 R now key raw items slots expired)
  from "3.prems"(2) have "Option.bind (from_utf8 key) relay_id_valid \<noteq> Some rid"
    using relay_id_utf8[OF assms(3)] by auto
  with 3 show ?case
    by (cases "decode_slot R raw")
      (auto split: option.splits if_splits)
qed auto

lemma load_slots_present:
  assumes "load_slots R now items slots expired = Ok (slots', expired')"
    and "distinct (map fst (map the items))" "map_of (map the items) (str_bytes rid) = Some raw"
    and "relay_id_valid rid = Some rid" "decode_slot R raw = (Ok (Some slot))"
    and "\<not> slot_entry_expired now slot"
  shows "hm_get slots' rid = Some slot"
  using assms(1-3,5,6)
proof (induction R now items slots expired rule: load_slots.induct)
  case (3 R now key raw' items slots expired)
  show ?case
  proof (cases "key = str_bytes rid")
    case True
    then have "load_slots R now items (hm_insert rid slot slots) expired = Ok (slots', expired')"
      using 3 relay_id_utf8[OF assms(4), of key] by auto
    from load_slots_absent[OF this _ assms(4)] True "3.prems"(2) show ?thesis by auto
  next
    case False
    with 3 show ?thesis
      by (cases "decode_slot R raw'")
        (auto split: option.splits if_splits)
  qed
qed auto

lemma db_reliableD:
  assumes "db_reliable R"
  shows "\<exists>db'. re_db_insert R db k v = (db', True) \<and> db_map R db' = (db_map R db)(k \<mapsto> v)"
    and "\<exists>db'. re_db_remove R db k = (db', True)"
    and "\<exists>db'. re_db_flush R db = (db', True) \<and> db_map R db' = db_map R db"
proof -
  from assms have "snd (re_db_insert R db k v)" "db_map R (fst (re_db_insert R db k v)) = (db_map R db)(k \<mapsto> v)"
    "snd (re_db_remove R db k)" "snd (re_db_flush R db)" "db_map R (fst (re_db_flush R db)) = db_map R db"
    unfolding db_reliable_def by blast+
  then show "\<exists>db'. re_db_insert R db k v = (db', True) \<and> db_map R db' = (db_map R db)(k \<mapsto> v)"
    and "\<exists>db'. re_db_remove R db k = (db', True)"
    and "\<exists>db'. re_db_flush R db = (db', True) \<and> db_map R db' = db_map R db"
    by (cases "re_db_insert R db k v"; cases "re_db_remove R db k"; cases "re_db_flush R db"; simp)+
qed

lemma remove_keys_reliable:
  assumes "db_reliable R"
  shows "\<exists>db'. remove_keys R keys db = (db', Ok ())"
proof (induction keys arbitrary: db)
  case (Cons k keys)
  obtain db1 where "re_db_remove R db k = (db1, True)" using db_reliableD(2)[OF assms] by blast
  with Cons show ?case by simp
qed simp

text \<open>Opening a store whose values all decode returns, and finds every live slot in it.\<close>

lemma build_state_finds:
  assumes rel: "db_reliable R"
    and dec: "\<forall>k raw. db_map R db k = Some raw \<longrightarrow> decode_slot R raw \<noteq> Panic"
    and raw: "db_map R db (str_bytes rid) = Some raw" "relay_id_valid rid = Some rid"
    and slot: "decode_slot R raw = (Ok (Some slot))" "\<not> slot_entry_expired now slot"
  shows "\<exists>st. build_state R now config (Some db) = Ok st \<and> slot_of now st rid = Some (se_version slot, se_body slot)"
proof -
  let ?items = "re_db_iter R db"
  from rel have it: "None \<notin> set ?items" "distinct (map fst (map the ?items))" by (auto simp: db_reliable_def)
  have "\<forall>p \<in> set (map the ?items). decode_slot R (snd p) \<noteq> Panic"
  proof
    fix p assume "p \<in> set (map the ?items)"
    then have "db_map R db (fst p) = Some (snd p)" using it(2) by (simp add: db_map_def)
    then show "decode_slot R (snd p) \<noteq> Panic" using dec by blast
  qed
  with load_slots_total[OF it(1)] obtain slots expired
    where load: "load_slots R now ?items [] [] = Ok (slots, expired)" by blast
  obtain db1 where rm: "remove_keys R expired db = (db1, Ok ())"
    using remove_keys_reliable[OF rel] by blast
  obtain db2 where fl: "re_db_flush R db1 = (db2, True)"
    using db_reliableD(3)[OF rel] by blast
  have "hm_get slots rid = Some slot"
    using load_slots_present[OF load it(2) _ raw(2) slot] raw(1) by (simp add: db_map_def)
  then show ?thesis
    using load rm fl slot(2) by (simp add: build_state_def persist_open_def app_state_of_def slot_of_def)
qed

lemma persist_insert_reliable:
  assumes "db_reliable R"
  shows "\<exists>db'. persist_insert R rid slot db = (db', Ok ()) \<and> db_map R db' = (db_map R db)(str_bytes rid \<mapsto> encode_slot slot)"
proof -
  obtain db1 where i: "re_db_insert R db (str_bytes rid) (encode_slot slot) = (db1, True)"
    "db_map R db1 = (db_map R db)(str_bytes rid \<mapsto> encode_slot slot)"
    using db_reliableD(1)[OF assms] by blast
  obtain db2 where "re_db_flush R db1 = (db2, True)" "db_map R db2 = db_map R db1"
    using db_reliableD(3)[OF assms] by blast
  with i show ?thesis by (simp add: persist_insert_def)
qed

section \<open>A poisoned lock\<close>

lemma poisoned_operations [simp]:
  "as_poisoned st \<Longrightarrow> push_mailbox R now rid b st = (st, Err ())"
  "as_poisoned st \<Longrightarrow> pop_mailbox now rid st = (st, Err ())"
  "as_poisoned st \<Longrightarrow> put_slot now rid slot st = (st, Err ())"
  "as_poisoned st \<Longrightarrow> get_slot_newer now rid since st = (st, Err ())"
  "as_poisoned st \<Longrightarrow> dequeue_loop rid wait now wakes st = (st, server_error)"
  "as_poisoned st \<Longrightarrow> read_loop rid since wait now wakes st = (st, server_error)"
  by (simp_all add: push_mailbox_def pop_mailbox_def put_slot_def get_slot_newer_def
      dequeue_loop.simps[of rid] read_loop.simps[of rid])

lemma hr_status_simps [simp]:
  "hr_status (text_response n msg) = n" "hr_status server_error = 500" "hr_status (empty_response n) = n"
  "hr_status (octet_response n b v) = n"
  by (simp_all add: text_response_def server_error_def empty_response_def octet_response_def finish_response_def)

lemma hr_body_octet [simp]: "hr_body (octet_response n b v) = b"
  by (simp add: octet_response_def finish_response_def)

lemma handlers_poisoned:
  assumes "as_poisoned st"
  shows "\<exists>resp. mailbox_enqueue R now rid headers body st = (st, Ok resp) \<and> 400 \<le> hr_status resp"
    and "\<exists>resp. mailbox_dequeue now rid query headers wakes st = (st, resp) \<and> 400 \<le> hr_status resp"
    and "\<exists>resp. slot_read now rid query headers wakes st = (st, resp) \<and> 400 \<le> hr_status resp"
    and "slot_write R now rid headers body st = (st, Panic) \<or>
      (\<exists>resp. slot_write R now rid headers body st = (st, Ok resp) \<and> 400 \<le> hr_status resp)"
  using assms
  by (simp_all add: mailbox_enqueue_def mailbox_dequeue_def slot_write_def slot_read_def Let_def
      split: res.split option.split)

lemma relay_serve_poisoned:
  assumes "as_poisoned st"
  shows "fst (relay_serve R now wakes rq st) = st"
    and "rq_method rq \<noteq> OPTIONS \<Longrightarrow>
      (case snd (relay_serve R now wakes rq st) of Ok resp \<Rightarrow> 400 \<le> hr_status resp | _ \<Rightarrow> True)"
proof -
  have e: "\<exists>resp. mailbox_enqueue R now rid (rq_headers rq) (rq_body rq) st = (st, Ok resp) \<and> 400 \<le> hr_status resp"
    and d: "\<exists>resp. mailbox_dequeue now rid (rq_query rq) (rq_headers rq) wakes st = (st, resp) \<and> 400 \<le> hr_status resp"
    and r: "\<exists>resp. slot_read now rid (rq_query rq) (rq_headers rq) wakes st = (st, resp) \<and> 400 \<le> hr_status resp"
    and w: "slot_write R now rid (rq_headers rq) (rq_body rq) st = (st, Panic) \<or>
      (\<exists>resp. slot_write R now rid (rq_headers rq) (rq_body rq) st = (st, Ok resp) \<and> 400 \<le> hr_status resp)"
    for rid by (rule handlers_poisoned[OF assms])+
  let ?P = "\<lambda>(s, r). s = st \<and> (rq_method rq \<noteq> OPTIONS \<longrightarrow> (case r of Ok resp \<Rightarrow> 400 \<le> hr_status resp | _ \<Rightarrow> True))"
  have "?P (relay_serve R now wakes rq st)"
  proof (cases "\<exists>pre rid. rq_path rq = [pre, rid]")
    case True
    then obtain pre rid where "rq_path rq = [pre, rid]" by blast
    with e[of rid] d[of rid] r[of rid] w[of rid] show ?thesis
      by (cases "rq_method rq") (auto simp: relay_serve_def)
  next
    case False
    then show ?thesis by (auto simp: relay_serve_def split: list.split)
  qed
  then show "fst (relay_serve R now wakes rq st) = st"
    and "rq_method rq \<noteq> OPTIONS \<Longrightarrow>
      (case snd (relay_serve R now wakes rq st) of Ok resp \<Rightarrow> 400 \<le> hr_status resp | _ \<Rightarrow> True)"
    by (auto split: prod.splits)
qed

lemma relay_run_poisoned: "relay_run R st st' \<Longrightarrow> as_poisoned st \<Longrightarrow> st' = st"
  by (induction rule: relay_run.induct) (auto simp: relay_serve_poisoned(1))

lemma relay_id_parse_valid [simp]: "relay_id_valid rid = Some rid \<Longrightarrow> relay_id_parse rid = Ok rid"
  by (simp add: relay_id_parse_def)

section \<open>Long polls\<close>

lemma pop_mailbox_empty:
  assumes "\<not> as_poisoned st" "mailbox_of st rid = []"
  shows "snd (pop_mailbox now rid st) = Ok None" "mailbox_of (fst (pop_mailbox now rid st)) rid = []"
  using mailbox_of_pop[of st now rid None "[]"] assms by simp_all

lemma dequeue_loop_quiet:
  assumes "wait \<noteq> 0" "\<not> as_poisoned st" "mailbox_of st rid = []" "as_config st = c"
    and "wakes_keep (\<lambda>s. \<not> as_poisoned s \<and> mailbox_of s rid = [] \<and> as_config s = c) pre"
  shows "\<exists>s. \<not> as_poisoned s \<and> mailbox_of s rid = [] \<and> as_config s = c
    \<and> dequeue_loop rid wait now (pre @ (others, t) # wakes) st = dequeue_loop rid wait t wakes (others s)"
  using assms
proof (induction pre arbitrary: now st)
  case Nil
  then show ?case
    using pop_mailbox_empty[of st rid now] pop_mailbox_frame(1,4)[of now rid st]
    by (cases "pop_mailbox now rid st") (auto simp: dequeue_loop.simps[of rid wait now])
next
  case (Cons w pre)
  obtain s where pop: "pop_mailbox now rid st = (s, Ok None)" "\<not> as_poisoned s" "mailbox_of s rid = []" "as_config s = c"
    using pop_mailbox_empty[of st rid now] pop_mailbox_frame(1,4)[of now rid st] Cons.prems
    by (cases "pop_mailbox now rid st") auto
  then have "\<not> as_poisoned (fst w s)" "mailbox_of (fst w s) rid = []" "as_config (fst w s) = c"
    using Cons.prems(5) by auto
  from Cons.IH[OF assms(1) this, of "snd w"] Cons.prems(5) pop(1) assms(1) show ?case
    by (cases w) (auto simp: dequeue_loop.simps[of rid wait now])
qed

lemma dequeue_after_push:
  assumes "\<not> as_poisoned s" "mailbox_of s rid = []" "1 \<le> rc_mailbox_capacity (as_config s)"
    and "0 < rc_mailbox_ttl (as_config s)" "t + int (rc_mailbox_ttl (as_config s)) \<le> re_time_max R"
  shows "snd (dequeue_loop rid wait t wakes (relay_push R t s rid b)) = octet_response 200 b None"
proof -
  let ?s = "relay_push R t s rid b"
  let ?e = "\<lparr>me_body = b, me_expires_at = t + int (rc_mailbox_ttl (as_config s))\<rparr>"
  have "mailbox_of ?s rid = [?e]"
    using mailbox_of_push[OF assms(1,3,5), of rid b rid] assms(2,3) by (simp add: last_n_all)
  moreover have "\<not> as_poisoned ?s"
    using push_mailbox_poisoned[OF assms(5)] assms(1) by (simp add: relay_push_def)
  ultimately have "snd (pop_mailbox t rid ?s) = Ok (Some b)"
    using mailbox_of_pop(1)[of ?s t rid "Some b" "[]"] assms(4) by (simp add: mailbox_entry_expired_def)
  then show ?thesis
    by (cases "pop_mailbox t rid ?s") (simp add: dequeue_loop.simps[of rid wait t])
qed

section \<open>Properties\<close>

definition sample_relay_env :: "(bytes \<times> bytes) list relay_env" where
  "sample_relay_env =
    \<lparr> re_b64 = bytes_str, re_db_iter = (\<lambda>db. map Some (AList.clearjunk db)),
      re_db_insert = (\<lambda>db k v. (AList.update k v db, True)),
      re_db_remove = (\<lambda>db k. (AList.delete k db, True)),
      re_db_flush = (\<lambda>db. (db, True)), re_time_max = 2 ^ 63 * 1000000000 \<rparr>"

definition sample_rid :: string where
  "sample_rid = replicate 32 CHR ''a''"

definition sample_relay :: "(bytes \<times> bytes) list app_state" where
  "sample_relay = app_state_of (with_mailbox_capacity 2 relay_config_new) (Some []) []"

lemmas sample_relay_simps =
  sample_relay_def sample_relay_env_def sample_rid_def app_state_of_def with_mailbox_capacity_def
  relay_config_new_def DEFAULT_MAX_BODY_BYTES_def DEFAULT_MAX_WAIT_SECONDS_def
  DEFAULT_MAILBOX_CAPACITY_def DEFAULT_MAILBOX_TTL_SECONDS_def DEFAULT_SLOT_TTL_SECONDS_def from_secs_def

lemma sample_relay_ready: "relay_ready sample_relay_env 0 2 sample_relay"
  by (simp add: relay_ready_def sample_relay_simps mailbox_of_def)

lemma sample_rid_valid: "relay_id_valid sample_rid = Some sample_rid"
  by (simp add: sample_rid_def relay_id_valid_def is_lower_hex_def numeral_eq_Suc)

text \<open>
  A relay mailbox is a bounded first-in first-out queue. While nothing expires, posting any
  sequence of messages to an empty mailbox and then polling it returns exactly the last
  \<open>mailbox_capacity\<close> of them, in the order they were posted.
\<close>

theorem relay_mailbox_is_bounded_fifo:
  assumes "relay_ready R now cap st" "mailbox_of st rid = []"
  shows "drain (relay_pop now) rid (length (last_n cap bs)) (foldl (\<lambda>st b. relay_push R now st rid b) st bs)
    = map Some (last_n cap bs)"
  using relay_mailbox.fifo[OF assms(1)] assms(2) by simp

theorem relay_mailbox_is_bounded_fifo_witness:
  "drain (relay_pop 0) sample_rid 2
     (foldl (\<lambda>st b. relay_push sample_relay_env 0 st sample_rid b) sample_relay [[1], [2], [3]])
    = [Some [2], Some [3]]"
  using relay_mailbox_is_bounded_fifo[OF sample_relay_ready, of sample_rid "[[1], [2], [3]]"]
  by (simp add: mailbox_of_def sample_relay_def app_state_of_def last_n_def numeral_2_eq_2)

text \<open>
  A relay slot keeps the newest value. After any sequence of writes to any slots, a slot that was
  empty holds one of the values written to it, and no value written to it has a higher version.
\<close>

theorem relay_slot_keeps_newest:
  assumes "\<not> as_poisoned st" "now < expires_at" "slot_of now st rid = None" "writes_to rid ws \<noteq> []"
  shows "\<exists>c. slot_of now (foldl (\<lambda>st (rid, v, b). fst (relay_put now expires_at st rid v b)) st ws) rid = Some c
    \<and> c \<in> set (writes_to rid ws) \<and> (\<forall>w \<in> set (writes_to rid ws). fst w \<le> fst c)"
proof -
  let ?st = "foldl (\<lambda>st (rid, v, b). fst (relay_put now expires_at st rid v b)) st ws"
  have "slot_of now ?st rid \<noteq> None"
    using assms by (simp add: relay_slots.cur_put_all foldl_newer_None_iff)
  then show ?thesis
    using relay_slots.put_all_newest[of st now expires_at rid ws] assms by auto
qed

theorem relay_slot_keeps_newest_witness:
  "slot_of 0 (foldl (\<lambda>st (rid, v, b). fst (relay_put 0 9 st rid v b)) sample_relay
     [(sample_rid, 3, [30]), (sample_rid, 5, [50]), (sample_rid, 4, [40])]) sample_rid = Some (5, [50])"
  using relay_slot_keeps_newest[of sample_relay 0 9 sample_rid
      "[(sample_rid, 3, [30]), (sample_rid, 5, [50]), (sample_rid, 4, [40])]"]
  by (auto simp: sample_relay_def app_state_of_def slot_of_def writes_to_def)




lemma header_to_str_dec: "header_to_str (str_bytes (dec_string n)) = Some (dec_string n)"
proof -
  have "list_all (\<lambda>b. in_range 32 126 b \<or> b = 9) (str_bytes (dec_string n))"
    using dec_string_chars[of n] by (auto simp: list_all_iff str_bytes_def in_range_def)
  then show ?thesis by (simp add: header_to_str_def)
qed

lemma parse_version_header_dec: "parse_version_header [(VERSION_HEADER, str_bytes (dec_string (unat v)))] = Ok v"
  by (simp add: parse_version_header_def header_to_str_dec parse_u64_dec_string)

lemma sample_relay_env_reliable: "db_reliable sample_relay_env"
  by (simp add: db_reliable_def db_map_def sample_relay_env_def comp_def map_of_clearjunk
      distinct_clearjunk update_conv delete_conv fun_eq_iff)


text \<open>
  A mailbox lifetime beyond the end of the clock kills the relay. The first post panics with the
  lock held; from then on no request is served: every reply is an error and nothing is stored or read.
\<close>

theorem clock_overflow_poisons_relay:
  assumes "\<not> as_poisoned st" "check_auth st headers" "relay_id_valid rid = Some rid"
    and "length b \<le> rc_max_body_bytes (as_config st)"
    and "re_time_max R < now + int (rc_mailbox_ttl (as_config st))"
    and "relay_run R (fst (mailbox_enqueue R now rid headers (Some b) st)) st'" "rq_method rq \<noteq> OPTIONS"
  shows "snd (mailbox_enqueue R now rid headers (Some b) st) = Panic
    \<and> fst (relay_serve R later wakes rq st') = st'
    \<and> (case snd (relay_serve R later wakes rq st') of Ok resp \<Rightarrow> 400 \<le> hr_status resp | _ \<Rightarrow> True)"
proof -
  have "snd (mailbox_enqueue R now rid headers (Some b) st) = Panic"
    "as_poisoned (fst (mailbox_enqueue R now rid headers (Some b) st))"
    using assms(1-5)
    by (simp_all add: mailbox_enqueue_def bounded_body_def push_mailbox_def Let_def time_add_def)
  then show ?thesis
    using relay_run_poisoned[OF assms(6)] relay_serve_poisoned[where st = st' and R = R and now = later and wakes = wakes and rq = rq] assms(7) by auto
qed

definition endless_relay :: "(bytes \<times> bytes) list app_state" where
  "endless_relay = app_state_of (with_mailbox_ttl (from_secs (2 ^ 64 - 1)) relay_config_new) None []"

theorem clock_overflow_poisons_relay_witness:
  "snd (mailbox_enqueue sample_relay_env 0 sample_rid [] (Some [1]) endless_relay)
    = Panic"
proof -
  let ?rq = "\<lparr> rq_method = GET, rq_path = [], rq_query = [], rq_headers = [], rq_body = None \<rparr>"
  have "\<not> as_poisoned endless_relay" "check_auth endless_relay []"
    "length [1 :: u8] \<le> rc_max_body_bytes (as_config endless_relay)"
    "re_time_max sample_relay_env < 0 + int (rc_mailbox_ttl (as_config endless_relay))"
    by (simp_all add: endless_relay_def with_mailbox_ttl_def sample_relay_simps check_auth_def)
  from clock_overflow_poisons_relay[OF this(1,2) sample_rid_valid this(3,4) relay_run.idle, of ?rq 0 "[]"]
  show ?thesis by simp
qed



text \<open>
  A slot written with version 0 cannot be read back: the relay accepts and stores it, and then
  answers every read with 204, whatever \<open>since\<close> the reader asks for.
\<close>

theorem version_zero_slot_is_unreadable:
  fixes since :: u64
  assumes "\<not> as_poisoned st" "check_auth st headers" "relay_id_valid rid = Some rid"
    and "slot_of now st rid = Some (0, b)"
  shows "snd (slot_read now rid [(''since'', dec_string (unat since))] headers [] st) = empty_response 204"
proof -
  obtain s where "get_slot_newer now rid since st = (s, Ok None)"
    using get_slot_newer_slot_of[OF assms(1), of now rid since] assms(4) by auto
  with assms show ?thesis
    by (simp add: slot_read_def parse_since_def parse_wait_def parse_query_u64_def parse_u64_dec_string
        read_loop.simps[of rid since])
qed

theorem version_zero_slot_is_unreadable_witness:
  "snd (slot_read 0 sample_rid [(''since'', dec_string (unat (0 :: u64)))] [] []
     (fst (relay_put 0 9 sample_relay sample_rid 0 [1]))) = empty_response 204"
  by (rule version_zero_slot_is_unreadable[OF _ _ sample_rid_valid, where b = "[1]"])
    (simp_all add: relay_put_def put_slot_def sample_relay_simps check_auth_def slot_of_def slot_entry_expired_def)

end
