(* ===== verification/Http.thy ===== *)
theory Http
  imports Config Relay
begin

text \<open>
  \<open>crates/enlace/src/transports/http.rs\<close>: the HTTP client transport, and its composition with the
  relay. The network is a function from a request to a reply; composed with the relay it is
  \<open>relay_serve\<close>. URL parsing, base64 and the text of status codes are parameters.
\<close>

section \<open>The client\<close>

definition WATCH_BUFFER :: nat where "WATCH_BUFFER = 64"

record http_transport =
  ht_base_url :: string
  ht_auth :: "basic_auth option"
  ht_long_poll :: duration

record reqwest_error =
  rw_timeout :: bool
  rw_message :: string

record http_env =
  he_url_path :: "string \<Rightarrow> string"
  he_b64 :: "bytes \<Rightarrow> string"
  he_status_text :: "nat \<Rightarrow> string"

type_synonym 'w network = "'w \<Rightarrow> http_request \<Rightarrow> 'w \<times> (reqwest_error, http_response) res"

definition map_reqwest_error :: "reqwest_error \<Rightarrow> transport_error" where
  "map_reqwest_error err = (if rw_timeout err then Timeout else Network (rw_message err))"

definition http_transport_new ::
  "(reqwest_error, unit) res \<Rightarrow> http_config \<Rightarrow> (transport_error, http_transport) res" where
  "http_transport_new built config =
    map_ok (\<lambda>_. \<lparr> ht_base_url = hc_url config, ht_auth = hc_auth config,
                   ht_long_poll = from_secs (unat (hc_long_poll_secs config)) \<rparr>)
      (map_err map_reqwest_error built)"

definition hex_id :: "bytes \<Rightarrow> string" where
  "hex_id cid = concat (map (\<lambda>b. [hex_char (unat (drop_bit 4 b)), hex_char (unat (and b 15))]) cid)"

definition http_channel_id :: "bytes \<Rightarrow> (transport_error, bytes) res" where
  "http_channel_id cid =
    (if length cid = 16 then Ok cid else Err (Network ''HTTP channel id must be 16 bytes''))"

definition trim_end_slashes :: "string \<Rightarrow> string" where
  "trim_end_slashes s = rev (dropWhile (\<lambda>c. c = CHR ''/'') (rev s))"

text \<open>The path of a channel's URL; the query is cleared.\<close>

definition channel_url :: "http_env \<Rightarrow> http_transport \<Rightarrow> string \<Rightarrow> bytes \<Rightarrow> string" where
  "channel_url H T pre cid =
    (let base_path = trim_end_slashes (he_url_path H (ht_base_url T)) in
     if base_path = [] then ''/'' @ pre @ ''/'' @ hex_id cid
     else base_path @ ''/'' @ pre @ ''/'' @ hex_id cid)"

definition mailbox_url :: "http_env \<Rightarrow> http_transport \<Rightarrow> bytes \<Rightarrow> string" where
  "mailbox_url H T cid = channel_url H T ''m'' cid"

definition slot_url :: "http_env \<Rightarrow> http_transport \<Rightarrow> bytes \<Rightarrow> string" where
  "slot_url H T cid = channel_url H T ''s'' cid"

text \<open>\<open>HttpTransport::request\<close> adds the credentials.\<close>

definition auth_headers :: "http_env \<Rightarrow> http_transport \<Rightarrow> header_map" where
  "auth_headers H T =
    (case ht_auth T of
       None \<Rightarrow> []
     | Some auth \<Rightarrow>
         [(''authorization'', str_bytes (''Basic '' @ he_b64 H (str_bytes (ba_username auth @ '':'' @ ba_password auth))))])"

text \<open>The segments of a path, as the server's router sees them.\<close>

fun split_slash :: "string \<Rightarrow> string \<Rightarrow> string list" where
  "split_slash acc [] = [acc]"
| "split_slash acc (c # s) = (if c = CHR ''/'' then acc # split_slash [] s else split_slash (acc @ [c]) s)"

definition path_segments :: "string \<Rightarrow> string list" where
  "path_segments p = (case p of c # s \<Rightarrow> if c = CHR ''/'' then (if s = [] then [] else split_slash [] s) else split_slash [] p | [] \<Rightarrow> [])"

definition request_to ::
  "http_env \<Rightarrow> http_transport \<Rightarrow> http_method \<Rightarrow> string \<Rightarrow> (string \<times> string) list \<Rightarrow> header_map \<Rightarrow> bytes option \<Rightarrow>
    http_request" where
  "request_to H T m url query headers body =
    \<lparr> rq_method = m, rq_path = path_segments url, rq_query = query,
      rq_headers = headers @ auth_headers H T, rq_body = body \<rparr>"

definition map_status :: "http_env \<Rightarrow> nat \<Rightarrow> transport_error" where
  "map_status H status =
    (if status = 401 then Auth
     else if status = 409 then Stale
     else if status = 413 then BodyTooLarge
     else if status = 408 \<or> status = 504 then Timeout
     else Network (''relay returned status '' @ he_status_text H status))"

definition decode_empty_response :: "http_env \<Rightarrow> nat \<Rightarrow> (transport_error, unit) res" where
  "decode_empty_response H status = (if status = 204 then Ok () else Err (map_status H status))"

definition decode_mailbox_recv_response :: "http_env \<Rightarrow> nat \<Rightarrow> bytes \<Rightarrow> (transport_error, bytes option) res" where
  "decode_mailbox_recv_response H status body =
    (if status = 200 then Ok (Some body) else if status = 204 then Ok None else Err (map_status H status))"

definition client_parse_version :: "(string \<times> string) list \<Rightarrow> (transport_error, u64) res" where
  "client_parse_version headers =
    ok_or (Network ''relay omitted slot version'')
      (Option.bind (Option.bind (hm_get headers VERSION_HEADER) (\<lambda>v. header_to_str (str_bytes v))) parse_u64)"

definition decode_slot_get_response ::
  "http_env \<Rightarrow> nat \<Rightarrow> (string \<times> string) list \<Rightarrow> bytes \<Rightarrow> (transport_error, (u64 \<times> bytes) option) res" where
  "decode_slot_get_response H status headers body =
    (if status = 200 then map_ok (\<lambda>version. Some (version, body)) (client_parse_version headers)
     else if status = 204 then Ok None
     else Err (map_status H status))"

section \<open>Calls\<close>

text \<open>One exchange: the reply is decoded, a network failure is mapped.\<close>

definition exchange ::
  "'w network \<Rightarrow> 'w \<Rightarrow> http_request \<Rightarrow> (http_response \<Rightarrow> (transport_error, 'a) res) \<Rightarrow> 'w \<times> (transport_error, 'a) res" where
  "exchange net w rq decode = (case net w rq of (w, r) \<Rightarrow> (w, bind_res (map_err map_reqwest_error r) decode))"

definition http_send ::
  "http_env \<Rightarrow> 'w network \<Rightarrow> http_transport \<Rightarrow> 'w \<Rightarrow> bytes \<Rightarrow> bytes \<Rightarrow> 'w \<times> (transport_error, unit) res" where
  "http_send H net T w cid sealed =
    (case http_channel_id cid of
       Ok cid \<Rightarrow>
         exchange net w
           (request_to H T POST (mailbox_url H T cid) []
             [(''content-type'', str_bytes ''application/octet-stream'')] (Some sealed))
           (\<lambda>response. decode_empty_response H (hr_status response))
     | Err e \<Rightarrow> (w, Err e) | Panic \<Rightarrow> (w, Panic))"

definition http_recv ::
  "http_env \<Rightarrow> 'w network \<Rightarrow> http_transport \<Rightarrow> 'w \<Rightarrow> bytes \<Rightarrow> duration \<Rightarrow> 'w \<times> (transport_error, bytes option) res" where
  "http_recv H net T w cid wait =
    (case http_channel_id cid of
       Ok cid \<Rightarrow>
         exchange net w
           (request_to H T GET (mailbox_url H T cid) [(''wait'', dec_string (as_secs wait))] [] (Some []))
           (\<lambda>response. decode_mailbox_recv_response H (hr_status response)
              (if hr_status response = 200 then hr_body response else []))
     | Err e \<Rightarrow> (w, Err e) | Panic \<Rightarrow> (w, Panic))"

definition http_put ::
  "http_env \<Rightarrow> 'w network \<Rightarrow> http_transport \<Rightarrow> 'w \<Rightarrow> bytes \<Rightarrow> u64 \<Rightarrow> bytes \<Rightarrow> 'w \<times> (transport_error, unit) res" where
  "http_put H net T w cid version sealed =
    (case http_channel_id cid of
       Ok cid \<Rightarrow>
         exchange net w
           (request_to H T PUT (slot_url H T cid) []
             [(''content-type'', str_bytes ''application/octet-stream''),
              (VERSION_HEADER, str_bytes (dec_string (unat version)))] (Some sealed))
           (\<lambda>response. decode_empty_response H (hr_status response))
     | Err e \<Rightarrow> (w, Err e) | Panic \<Rightarrow> (w, Panic))"

definition slot_get_since ::
  "http_env \<Rightarrow> 'w network \<Rightarrow> http_transport \<Rightarrow> 'w \<Rightarrow> bytes \<Rightarrow> u64 \<Rightarrow> duration \<Rightarrow>
    'w \<times> (transport_error, (u64 \<times> bytes) option) res" where
  "slot_get_since H net T w cid since wait =
    exchange net w
      (request_to H T GET (slot_url H T cid)
        [(''since'', dec_string (unat since)), (''wait'', dec_string (as_secs wait))] [] (Some []))
      (\<lambda>response. decode_slot_get_response H (hr_status response) (hr_headers response)
         (if hr_status response = 200 then hr_body response else []))"

definition http_get ::
  "http_env \<Rightarrow> 'w network \<Rightarrow> http_transport \<Rightarrow> 'w \<Rightarrow> bytes \<Rightarrow> 'w \<times> (transport_error, (u64 \<times> bytes) option) res" where
  "http_get H net T w cid =
    (case http_channel_id cid of
       Ok cid \<Rightarrow> slot_get_since H net T w cid 0 0
     | Err e \<Rightarrow> (w, Err e) | Panic \<Rightarrow> (w, Panic))"

text \<open>
  The watch loop: each round polls from the last version seen and yields what it got. A round is what
  happened on the network before the poll; the list ends when the consumer goes away.
\<close>

fun http_watch_loop ::
  "http_env \<Rightarrow> 'w network \<Rightarrow> http_transport \<Rightarrow> bytes \<Rightarrow> u64 \<Rightarrow> ('w \<Rightarrow> 'w) list \<Rightarrow> 'w \<Rightarrow>
    (transport_error, u64 \<times> bytes) res list" where
  "http_watch_loop H net T cid since [] w = []"
| "http_watch_loop H net T cid since (others # rounds) w =
    (case slot_get_since H net T (others w) cid since (ht_long_poll T) of
       (w, Ok (Some (version, body))) \<Rightarrow> Ok (version, body) # http_watch_loop H net T cid version rounds w
     | (w, Ok None) \<Rightarrow> http_watch_loop H net T cid since rounds w
     | (w, Err err) \<Rightarrow> Err err # http_watch_loop H net T cid since rounds w
     | (w, Panic) \<Rightarrow> [Panic])"

definition http_watch ::
  "http_env \<Rightarrow> 'w network \<Rightarrow> http_transport \<Rightarrow> bytes \<Rightarrow> u64 \<Rightarrow> ('w \<Rightarrow> 'w) list \<Rightarrow> 'w \<Rightarrow>
    (transport_error, u64 \<times> bytes) res list" where
  "http_watch H net T cid since rounds w =
    (case http_channel_id cid of
       Ok cid \<Rightarrow> http_watch_loop H net T cid since rounds w
     | _ \<Rightarrow> [Err (Network ''HTTP channel id must be 16 bytes'')])"

definition http_as_transport :: "http_env \<Rightarrow> 'w network \<Rightarrow> http_transport \<Rightarrow> 'w transport" where
  "http_as_transport H net T =
    \<lparr> t_subscribe = default_subscribe, t_send = http_send H net T, t_recv = http_recv H net T,
      t_put = http_put H net T, t_get = http_get H net T \<rparr>"

section \<open>The relay as the network\<close>

text \<open>A request is answered at once; a panicking handler closes the connection.\<close>

fun framework_reply :: "route_error \<Rightarrow> http_response" where
  "framework_reply NotFound = \<lparr> hr_status = 404, hr_headers = [], hr_body = [] \<rparr>"
| "framework_reply MethodNotAllowed = \<lparr> hr_status = 405, hr_headers = [], hr_body = [] \<rparr>"

definition relay_net :: "'db relay_env \<Rightarrow> system_time \<Rightarrow> 'db wake list \<Rightarrow> 'db app_state network" where
  "relay_net R now wakes st rq =
    (case relay_serve R now wakes rq st of
       (st, Ok resp) \<Rightarrow> (st, Ok resp)
     | (st, Err e) \<Rightarrow> (st, Ok (framework_reply e))
     | (st, Panic) \<Rightarrow> (st, Err \<lparr> rw_timeout = False, rw_message = ''connection closed'' \<rparr>))"

text \<open>The client talks to this relay: its URL has an empty path and its credentials are the expected ones.\<close>

definition http_linked :: "http_env \<Rightarrow> http_transport \<Rightarrow> 'db app_state \<Rightarrow> bool" where
  "http_linked H T st \<longleftrightarrow>
    trim_end_slashes (he_url_path H (ht_base_url T)) = []
    \<and> (case rc_auth (as_config st) of
         None \<Rightarrow> True
       | Some expected \<Rightarrow> Option.bind (hm_get (auth_headers H T) ''authorization'') header_to_str = Some expected)"

section \<open>Addresses\<close>

lemma unat_and_15: "unat (and (b :: u8) 15) = unat b mod 16"
proof -
  have "and b 15 = take_bit 4 b" by (simp add: take_bit_eq_mask mask_eq_exp_minus_1)
  then show ?thesis by (simp add: take_bit_eq_mod unat_mod_distrib)
qed

lemma unat_drop_bit_4: "unat (drop_bit 4 (b :: u8)) = unat b div 16"
  by (simp add: drop_bit_eq_div unat_div_distrib)

lemma hex_id_eq: "hex_id cid = hex_encode cid"
  by (simp add: hex_id_def hex_encode_def unat_and_15 unat_drop_bit_4)

lemma relay_id_valid_hex: "length cid = 16 \<Longrightarrow> relay_id_valid (hex_id cid) = Some (hex_id cid)"
  by (simp add: relay_id_valid_def hex_id_eq hex_encode_lower)

lemma hex_id_inject [simp]: "hex_id a = hex_id b \<longleftrightarrow> a = b"
  by (simp add: hex_id_eq)

lemma hex_id_not_Nil: "length cid = 16 \<Longrightarrow> hex_id cid \<noteq> []"
  by (cases cid) (auto simp: hex_id_eq hex_encode_Cons)

lemma split_slash_hex: "list_all is_lower_hex s \<Longrightarrow> split_slash acc s = [acc @ s]"
  by (induction s arbitrary: acc) (auto simp: is_lower_hex_def)

lemma path_segments_channel:
  "trim_end_slashes (he_url_path H (ht_base_url T)) = [] \<Longrightarrow>
    path_segments (mailbox_url H T cid) = [''m'', hex_id cid] \<and> path_segments (slot_url H T cid) = [''s'', hex_id cid]"
  using split_slash_hex[OF hex_encode_lower, of "[]" cid]
  by (simp add: mailbox_url_def slot_url_def channel_url_def path_segments_def hex_id_eq)

lemma check_auth_linked:
  "http_linked H T st \<Longrightarrow> hm_get headers ''authorization'' = None \<Longrightarrow> check_auth st (headers @ auth_headers H T)"
  by (auto simp: http_linked_def check_auth_def map_add_def split: option.splits)

section \<open>Calls answered by the relay\<close>

lemma http_send_relay:
  assumes "http_linked H T st" "length cid = 16" "\<not> as_poisoned st"
    and "length sealed \<le> rc_max_body_bytes (as_config st)"
    and "now + int (rc_mailbox_ttl (as_config st)) \<le> re_time_max R"
  shows "http_send H (relay_net R now wakes) T st cid sealed = (relay_push R now st (hex_id cid) sealed, Ok ())"
proof -
  have push: "push_mailbox R now (hex_id cid) sealed st = (relay_push R now st (hex_id cid) sealed, Ok ())"
    using assms(3,5) by (simp add: relay_push_def push_mailbox_def Let_def time_add_def)
  have seg: "path_segments (mailbox_url H T cid) = [''m'', hex_id cid]"
    using path_segments_channel assms(1) by (simp add: http_linked_def)
  show ?thesis
    using assms seg push relay_id_valid_hex[OF assms(2)] hex_id_not_Nil[OF assms(2)]
      check_auth_linked[OF assms(1), of "[(''content-type'', str_bytes ''application/octet-stream'')]"]
    by (simp add: http_send_def http_channel_id_def exchange_def relay_net_def relay_serve_def request_to_def
        mailbox_enqueue_def bounded_body_def decode_empty_response_def)
qed

lemma http_recv_relay:
  assumes "http_linked H T st" "length cid = 16" "\<not> as_poisoned st"
  shows "http_recv H (relay_net R now wakes) T st cid 0 =
    (fst (relay_pop now st (hex_id cid)), Ok (snd (relay_pop now st (hex_id cid))))"
proof -
  obtain s r where pop: "pop_mailbox now (hex_id cid) st = (s, Ok r)"
    using assms(3) mailbox_of_pop(1)[OF assms(3), of now "hex_id cid"]
    by (cases "pop_mailbox now (hex_id cid) st"; cases "pop_unexpired now (mailbox_of st (hex_id cid))") auto
  have seg: "path_segments (mailbox_url H T cid) = [''m'', hex_id cid]"
    using path_segments_channel assms(1) by (simp add: http_linked_def)
  have wait: "parse_wait [(''wait'', dec_string (as_secs 0))] m = Ok 0" for m
    using parse_u64_dec_string[of 0] by (simp add: parse_wait_def parse_query_u64_def as_secs_def from_secs_def)
  show ?thesis
    using assms seg pop wait relay_id_valid_hex[OF assms(2)] hex_id_not_Nil[OF assms(2)]
      check_auth_linked[OF assms(1), of "[]"]
    by (cases r) (simp_all add: http_recv_def http_channel_id_def exchange_def relay_net_def relay_serve_def
        request_to_def mailbox_dequeue_def dequeue_loop.simps relay_pop_def decode_mailbox_recv_response_def)
qed

lemma http_put_relay:
  assumes "http_linked H T st" "length cid = 16" "\<not> as_poisoned st" "as_persist st = None"
    and "length sealed \<le> rc_max_body_bytes (as_config st)"
    and "now + int (rc_slot_ttl (as_config st)) \<le> re_time_max R"
  shows "http_put H (relay_net R now wakes) T st cid v sealed =
    (case relay_put now (now + int (rc_slot_ttl (as_config st))) st (hex_id cid) v sealed of
       (st', accepted) \<Rightarrow> (st', if accepted then Ok () else Err Stale))"
proof -
  have seg: "path_segments (slot_url H T cid) = [''s'', hex_id cid]"
    using path_segments_channel assms(1) by (simp add: http_linked_def)
  have ver: "parse_version_header ((''content-type'', x) # (VERSION_HEADER, str_bytes (dec_string (unat v))) # h) = Ok v" for x h
    using parse_version_header_dec[of v] by (simp add: parse_version_header_def VERSION_HEADER_def)
  have auth: "check_auth st ((''content-type'', x) # (VERSION_HEADER, y) # auth_headers H T)" for x y
    using check_auth_linked[OF assms(1), of "[(''content-type'', x), (VERSION_HEADER, y)]"]
    by (simp add: VERSION_HEADER_def)
  show ?thesis
    using assms seg ver auth relay_id_valid_hex[OF assms(2)] hex_id_not_Nil[OF assms(2)]
    by (auto simp: http_put_def http_channel_id_def exchange_def relay_net_def relay_serve_def request_to_def
        slot_write_def bounded_body_def decode_empty_response_def time_add_def relay_put_def put_slot_cases
        map_status_def)
qed

lemma octet_version [simp]: "client_parse_version (hr_headers (octet_response n b (Some v))) = Ok v"
  by (simp add: octet_response_def finish_response_def client_parse_version_def VERSION_HEADER_def
      header_to_str_dec parse_u64_dec_string)

lemma slot_get_since_relay:
  assumes "http_linked H T st" "length cid = 16" "\<not> as_poisoned st" "as_secs wait < 2 ^ 64"
  shows "\<exists>st'. slot_get_since H (relay_net R now []) T st cid since wait =
      (st', Ok (case slot_of now st (hex_id cid) of None \<Rightarrow> None | Some (v, b) \<Rightarrow> if since < v then Some (v, b) else None))
    \<and> slot_of now st' = slot_of now st \<and> as_config st' = as_config st \<and> \<not> as_poisoned st'"
proof -
  let ?rid = "hex_id cid"
  obtain s where get: "get_slot_newer now ?rid since st =
      (s, Ok (case slot_of now st ?rid of
         None \<Rightarrow> None | Some (v, b) \<Rightarrow> if since < v then hm_get (tb_slots (as_tables st)) ?rid else None))"
    "slot_of now s = slot_of now st"
    using get_slot_newer_slot_of[OF assms(3)] by blast
  have frame: "as_config s = as_config st" "\<not> as_poisoned s"
    using get_slot_newer_frame(1,3)[of now ?rid since st] get(1) assms(3) by auto
  have seg: "path_segments (slot_url H T cid) = [''s'', ?rid]"
    using path_segments_channel assms(1) by (simp add: http_linked_def)
  have wait: "parse_u64 (dec_string (as_secs wait)) = Some (of_nat (as_secs wait))"
    using parse_u64_dec_string[of "of_nat (as_secs wait)"] assms(4) by (simp add: unat_of_nat)
  have loop: "read_loop ?rid since d now [] st = (s, case slot_of now st ?rid of
      None \<Rightarrow> empty_response 204
    | Some (v, b) \<Rightarrow> if since < v then octet_response 200 b (Some v) else empty_response 204)" for d
    using get(1) by (auto simp: read_loop.simps[of ?rid] slot_of_def split: option.splits if_splits)
  show ?thesis
    using assms seg loop wait get(2) frame relay_id_valid_hex[OF assms(2)] hex_id_not_Nil[OF assms(2)]
      check_auth_linked[OF assms(1), of "[]"]
    by (auto simp: slot_get_since_def exchange_def relay_net_def relay_serve_def request_to_def slot_read_def
        parse_since_def parse_wait_def parse_query_u64_def parse_u64_dec_string decode_slot_get_response_def
        split: option.splits)
qed

section \<open>Properties\<close>

text \<open>A sequence of receives, with every result.\<close>

fun recv_all ::
  "http_env \<Rightarrow> 'w network \<Rightarrow> http_transport \<Rightarrow> bytes \<Rightarrow> nat \<Rightarrow> 'w \<Rightarrow> (transport_error, bytes option) res list" where
  "recv_all H net T cid 0 w = []"
| "recv_all H net T cid (Suc n) w =
    (case http_recv H net T w cid 0 of (w, r) \<Rightarrow> r # recv_all H net T cid n w)"

text \<open>The network with a clock, which other activity may advance.\<close>

definition relay_clock_net ::
  "'db relay_env \<Rightarrow> 'db wake list \<Rightarrow> ('db app_state \<times> system_time) network" where
  "relay_clock_net R wakes w rq =
    (case relay_net R (snd w) wakes (fst w) rq of (st, r) \<Rightarrow> ((st, snd w), r))"

fun ok_versions :: "('e, u64 \<times> bytes) res list \<Rightarrow> u64 list" where
  "ok_versions [] = []"
| "ok_versions (Ok (v, b) # items) = v # ok_versions items"
| "ok_versions (_ # items) = ok_versions items"

lemma http_linked_config: "as_config st' = as_config st \<Longrightarrow> http_linked H T st' = http_linked H T st"
  by (simp add: http_linked_def)

lemma relay_push_config [simp]: "as_config (relay_push R now st rid b) = as_config st"
  by (simp add: relay_push_def)

lemma http_linked_push [simp]: "http_linked H T (relay_push R now st rid b) = http_linked H T st"
  by (rule http_linked_config) simp

lemma relay_put_frame:
  "as_poisoned (fst (relay_put now e st rid v b)) = as_poisoned st"
  "as_config (fst (relay_put now e st rid v b)) = as_config st"
  by (simp_all add: relay_put_def put_slot_def Let_def)

lemma http_send_all:
  assumes "relay_ready R now cap st" "http_linked H T st" "length cid = 16"
    and "\<forall>b \<in> set bs. length b \<le> rc_max_body_bytes (as_config st)"
  shows "foldl (\<lambda>st b. fst (http_send H (relay_net R now wakes) T st cid b)) st bs
    = foldl (\<lambda>st b. relay_push R now st (hex_id cid) b) st bs"
  using assms
proof (induction bs arbitrary: st)
  case (Cons b bs)
  have "fst (http_send H (relay_net R now wakes) T st cid b) = relay_push R now st (hex_id cid) b"
    using http_send_relay[of H T st cid b now R wakes] Cons.prems by (simp add: relay_ready_def)
  moreover have "foldl (\<lambda>st b. fst (http_send H (relay_net R now wakes) T st cid b)) (relay_push R now st (hex_id cid) b) bs
      = foldl (\<lambda>st b. relay_push R now st (hex_id cid) b) (relay_push R now st (hex_id cid) b) bs"
    using Cons.prems relay_push_ready[OF Cons.prems(1)]
    by (intro Cons.IH) auto
  ultimately show ?case by simp
qed simp

lemma recv_all_relay:
  assumes "relay_ready R now cap st" "http_linked H T st" "length cid = 16"
  shows "recv_all H (relay_net R now wakes) T cid n st = map Ok (drain (relay_pop now) (hex_id cid) n st)"
  using assms
proof (induction n arbitrary: st)
  case (Suc n)
  let ?s = "fst (relay_pop now st (hex_id cid))"
  have "recv_all H (relay_net R now wakes) T cid n ?s = map Ok (drain (relay_pop now) (hex_id cid) n ?s)"
    using Suc.prems relay_mailbox.pop_inv http_linked_config[OF relay_pop_ready(4)[OF Suc.prems(1)]]
    by (intro Suc.IH) auto
  then show ?case
    using http_recv_relay[of H T st cid R now wakes] Suc.prems
    by (cases "relay_pop now st (hex_id cid)") (simp add: relay_ready_def)
qed simp

lemma push_all_config: "as_config (foldl (\<lambda>st b. relay_push R now st rid b) st bs) = as_config st"
  by (induction bs arbitrary: st) auto

lemma read_loop_newer:
  "snd (read_loop rid since wait now wakes st) = resp \<Longrightarrow>
    hr_status resp = 200 \<Longrightarrow> \<exists>b v. resp = octet_response 200 b (Some v) \<and> since < v"
proof (induction wakes arbitrary: now st)
  case Nil
  then show ?case
    by (auto simp: read_loop.simps[of rid since wait now] get_slot_newer_def Let_def split: prod.splits res.splits option.splits if_splits)
next
  case (Cons w wakes)
  show ?case
  proof (cases "get_slot_newer now rid since st")
    case (Pair s r)
    show ?thesis
    proof (cases r)
      case (Ok o')
      show ?thesis
      proof (cases o')
        case None
        with Cons Pair Ok show ?thesis
          by (cases w) (auto simp: read_loop.simps[of rid since wait now] split: if_splits)
      next
        case (Some slot)
        then have "since < se_version slot"
          using Pair Ok by (auto simp: get_slot_newer_def Let_def split: option.splits if_splits)
        with Cons.prems Pair Ok Some show ?thesis
          by (auto simp: read_loop.simps[of rid since wait now])
      qed
    qed (use Cons.prems Pair in \<open>auto simp: read_loop.simps[of rid since wait now]\<close>)
  qed
qed

lemma slot_get_since_newer:
  assumes "trim_end_slashes (he_url_path H (ht_base_url T)) = []" "length cid = 16" "as_secs wait < 2 ^ 64"
    and "slot_get_since H (relay_clock_net R wakes) T w cid since wait = (w', Ok (Some (v, b)))"
  shows "since < v"
proof -
  let ?rid = "hex_id cid" and ?st = "fst w" and ?now = "snd w"
  have seg: "path_segments (slot_url H T cid) = [''s'', ?rid]"
    using path_segments_channel assms(1) by simp
  have wt: "parse_u64 (dec_string (as_secs wait)) = Some (of_nat (as_secs wait))"
    using parse_u64_dec_string[of "of_nat (as_secs wait)"] assms(3) by (simp add: unat_of_nat)
  let ?d = "min (from_secs (as_secs wait)) (rc_max_wait (as_config ?st))"
  obtain s resp where resp: "slot_read ?now ?rid [(''since'', dec_string (unat since)), (''wait'', dec_string (as_secs wait))]
      (auth_headers H T) wakes ?st = (s, resp)" by fastforce
  have "decode_slot_get_response H (hr_status resp) (hr_headers resp) (if hr_status resp = 200 then hr_body resp else [])
      = Ok (Some (v, b))"
    using assms(4) seg resp hex_id_not_Nil[OF assms(2)]
    by (simp add: slot_get_since_def exchange_def relay_clock_net_def relay_net_def relay_serve_def request_to_def)
  then have ok: "hr_status resp = 200" "client_parse_version (hr_headers resp) = Ok v"
    by (auto simp: decode_slot_get_response_def res_simps split: if_splits)
  have "resp = text_response 401 ''unauthorized'' \<or> snd (read_loop ?rid since ?d ?now wakes ?st) = resp"
    using resp relay_id_valid_hex[OF assms(2)] wt assms(3)
    by (auto simp: slot_read_def parse_since_def parse_wait_def parse_query_u64_def parse_u64_dec_string
        unat_of_nat split: if_splits)
  with ok(1) have "snd (read_loop ?rid since ?d ?now wakes ?st) = resp" by auto
  from read_loop_newer[OF this ok(1)] ok(2) show ?thesis by auto
qed


definition sample_http_env :: http_env where
  "sample_http_env = \<lparr> he_url_path = (\<lambda>u. ''/''), he_b64 = bytes_str, he_status_text = dec_string \<rparr>"

definition sample_http :: http_transport where
  "sample_http = \<lparr> ht_base_url = ''http://relay/'', ht_auth = None, ht_long_poll = 25 \<rparr>"

definition sample_cid :: bytes where
  "sample_cid = replicate 16 7"

lemma sample_http_linked: "http_linked sample_http_env sample_http sample_relay"
  by (simp add: http_linked_def sample_http_env_def sample_http_def trim_end_slashes_def sample_relay_simps)




text \<open>
  Without the relay's credentials nothing happens. A client whose authorization header is not the
  expected one gets \<open>Auth\<close> from every call, and the relay's state is unchanged.
\<close>

theorem http_auth_is_enforced:
  assumes "trim_end_slashes (he_url_path H (ht_base_url T)) = []" "length cid = 16"
    and "rc_auth (as_config st) = Some expected"
    and "Option.bind (hm_get (auth_headers H T) ''authorization'') header_to_str \<noteq> Some expected"
  shows "http_send H (relay_net R now wakes) T st cid b = (st, Err Auth)
    \<and> http_recv H (relay_net R now wakes) T st cid wait = (st, Err Auth)
    \<and> http_put H (relay_net R now wakes) T st cid v b = (st, Err Auth)
    \<and> http_get H (relay_net R now wakes) T st cid = (st, Err Auth)"
proof -
  have auth: "\<not> check_auth st (h @ auth_headers H T)" if "hm_get h ''authorization'' = None" for h
    using assms(3,4) that by (auto simp: check_auth_def map_add_def split: option.splits)
  note seg = path_segments_channel[OF assms(1), of cid]
  note defs = http_channel_id_def exchange_def relay_net_def relay_serve_def request_to_def map_status_def
    hex_id_not_Nil[OF assms(2)]
  show ?thesis
    using seg assms(2) auth[of "[]"] auth[of "[(''content-type'', x)]" for x]
      auth[of "[(''content-type'', x), (VERSION_HEADER, y)]" for x y]
    by (simp add: http_send_def http_recv_def http_put_def http_get_def slot_get_since_def defs VERSION_HEADER_def
        mailbox_enqueue_def mailbox_dequeue_def slot_write_def slot_read_def decode_empty_response_def
        decode_mailbox_recv_response_def decode_slot_get_response_def)
qed

theorem http_auth_is_enforced_witness:
  "http_put sample_http_env (relay_net sample_relay_env 0 []) sample_http
     (app_state_of (relay_config_new\<lparr>rc_auth := Some ''Basic dTpw''\<rparr>) None []) sample_cid 1 [5]
    = (app_state_of (relay_config_new\<lparr>rc_auth := Some ''Basic dTpw''\<rparr>) None [], Err Auth)"
  by (rule http_auth_is_enforced[THEN conjunct2, THEN conjunct2, THEN conjunct1])
    (simp_all add: sample_http_env_def sample_http_def trim_end_slashes_def sample_cid_def app_state_of_def
      auth_headers_def)

text \<open>
  A slot watch over HTTP never goes back. Whatever other clients write, and however the clock moves,
  between polls, the versions the watch yields are strictly increasing and above where it started.
\<close>

theorem http_watch_is_increasing:
  assumes "trim_end_slashes (he_url_path H (ht_base_url T)) = []" "as_secs (ht_long_poll T) < 2 ^ 64"
  shows "sorted_wrt (<) (since # ok_versions (http_watch H (relay_clock_net R wakes) T cid since rounds w))"
proof (cases "length cid = 16")
  case True
  have "sorted_wrt (<) (since # ok_versions (http_watch_loop H (relay_clock_net R wakes) T cid since rounds w))"
  proof (induction rounds arbitrary: since w)
    case (Cons others rounds)
    obtain w' r where poll: "slot_get_since H (relay_clock_net R wakes) T (others w) cid since (ht_long_poll T) = (w', r)"
      by fastforce
    show ?case
    proof (cases r)
      case (Ok got)
      show ?thesis
      proof (cases got)
        case None
        with Ok poll Cons show ?thesis by simp
      next
        case (Some vb)
        then obtain v b where vb: "got = Some (v, b)" by (cases vb) auto
        have "since < v" using slot_get_since_newer[OF assms(1) True assms(2)] poll Ok vb by blast
        with Ok poll vb Cons.IH[of v w'] show ?thesis by auto
      qed
    qed (use poll Cons in simp_all)
  qed simp
  with True show ?thesis by (simp add: http_watch_def http_channel_id_def)
qed (simp add: http_watch_def http_channel_id_def)

theorem http_watch_is_increasing_witness:
  "sorted_wrt (<) (0 # ok_versions (http_watch sample_http_env (relay_clock_net sample_relay_env []) sample_http
     sample_cid 0 [\<lambda>w. w, \<lambda>w. w] (sample_relay, 0)))"
  by (rule http_watch_is_increasing)
    (simp_all add: sample_http_env_def sample_http_def trim_end_slashes_def as_secs_def)

end
