(* ===== verification/Testkit.thy ===== *)
theory Testkit
  imports Config Contracts
begin

text \<open>
  \<open>crates/enlace-testkit/src/lib.rs\<close>: the in-memory transport and its lossy and delaying wrappers.
  Randomness is an argument, a blocked receive takes the list of its wake-ups, and a watch takes what
  its broadcast subscription delivers.
\<close>

section \<open>The in-memory transport\<close>

record slot_update =
  su_id :: bytes
  su_version :: u64
  su_sealed :: bytes

record transport_state =
  ts_mailboxes :: "(bytes \<times> bytes list) list"
  ts_slots :: "(bytes \<times> u64 \<times> bytes) list"
  ts_updates :: "slot_update list"

definition memory_transport_new :: transport_state where
  "memory_transport_new = \<lparr> ts_mailboxes = [], ts_slots = [], ts_updates = [] \<rparr>"

definition memory_send :: "transport_state \<Rightarrow> bytes \<Rightarrow> bytes \<Rightarrow> transport_state \<times> (transport_error, unit) res" where
  "memory_send st cid sealed =
    (let queue = (case hm_get (ts_mailboxes st) cid of None \<Rightarrow> [] | Some q \<Rightarrow> q)
     in (st\<lparr>ts_mailboxes := hm_insert cid (queue @ [sealed]) (ts_mailboxes st)\<rparr>, Ok ()))"

text \<open>A wake-up is what other calls did before the waiter ran again; the wait starts afresh each time.\<close>

fun memory_recv ::
  "bytes \<Rightarrow> duration \<Rightarrow> (transport_state \<Rightarrow> transport_state) list \<Rightarrow> transport_state \<Rightarrow>
    transport_state \<times> (transport_error, bytes option) res" where
  "memory_recv cid wait wakes st =
    (case hm_get (ts_mailboxes st) cid of
       Some (sealed # queue) \<Rightarrow>
         (st\<lparr>ts_mailboxes := hm_insert cid queue (ts_mailboxes st)\<rparr>, Ok (Some sealed))
     | _ \<Rightarrow>
         if wait = 0 then (st, Ok None)
         else (case wakes of [] \<Rightarrow> (st, Ok None) | others # wakes \<Rightarrow> memory_recv cid wait wakes (others st)))"

declare memory_recv.simps [simp del]

definition memory_put ::
  "transport_state \<Rightarrow> bytes \<Rightarrow> u64 \<Rightarrow> bytes \<Rightarrow> transport_state \<times> (transport_error, unit) res" where
  "memory_put st cid version sealed =
    (if (case hm_get (ts_slots st) cid of None \<Rightarrow> False | Some (current, _) \<Rightarrow> current \<ge> version)
     then (st, Err Stale)
     else (st\<lparr>ts_slots := hm_insert cid (version, sealed) (ts_slots st),
              ts_updates := ts_updates st @ [\<lparr> su_id = cid, su_version = version, su_sealed = sealed \<rparr>]\<rparr>, Ok ()))"

definition memory_get :: "transport_state \<Rightarrow> bytes \<Rightarrow> transport_state \<times> (transport_error, (u64 \<times> bytes) option) res" where
  "memory_get st cid = (st, Ok (hm_get (ts_slots st) cid))"

datatype broadcast_item = Update slot_update | Lagged | BroadcastClosed

fun memory_watch :: "bytes \<Rightarrow> u64 \<Rightarrow> broadcast_item list \<Rightarrow> (u64 \<times> bytes) list" where
  "memory_watch cid since [] = []"
| "memory_watch cid since (Update u # items) =
    (if su_id u = cid \<and> su_version u > since
     then (su_version u, su_sealed u) # memory_watch cid since items
     else memory_watch cid since items)"
| "memory_watch cid since (Lagged # items) = memory_watch cid since items"
| "memory_watch cid since (BroadcastClosed # items) = []"

definition in_memory_transport :: "transport_state transport" where
  "in_memory_transport =
    \<lparr> t_subscribe = default_subscribe, t_send = memory_send, t_recv = (\<lambda>st cid wait. memory_recv cid wait [] st),
      t_put = memory_put, t_get = memory_get \<rparr>"

section \<open>Lossy and delaying transports\<close>

definition DEFAULT_DROP_PERCENT :: u8 where "DEFAULT_DROP_PERCENT = 30"

definition with_drop_percent :: "u8 \<Rightarrow> u8" where
  "with_drop_percent drop_percent = min drop_percent 100"

definition should_drop :: "u8 \<Rightarrow> u8 \<Rightarrow> bool" where
  "should_drop drop_percent r \<longleftrightarrow> 0 < drop_percent \<and> r mod 100 < drop_percent"

definition lossy_transport :: "u8 \<Rightarrow> u8 \<Rightarrow> 'w transport \<Rightarrow> 'w transport" where
  "lossy_transport drop_percent r inner =
    inner\<lparr> t_subscribe := default_subscribe,
           t_send := (\<lambda>w cid sealed. if should_drop drop_percent r then (w, Ok ()) else t_send inner w cid sealed),
           t_put := (\<lambda>w cid v sealed. if should_drop drop_percent r then (w, Ok ()) else t_put inner w cid v sealed) \<rparr>"

text \<open>The delay in milliseconds; the wrapped call follows it unchanged.\<close>

definition delay_millis :: "duration \<Rightarrow> u64 \<Rightarrow> u64 option" where
  "delay_millis max_delay r =
    (if max_delay = 0 then None
     else
       (let max_millis = (if max_delay div 1000000 < 2 ^ 64 then of_nat (max_delay div 1000000) else - 1);
            bound = (if max_millis = - 1 then - 1 else max_millis + 1)
        in Some (r mod bound)))"

definition delaying_transport :: "'w transport \<Rightarrow> 'w transport" where
  "delaying_transport inner = inner\<lparr> t_subscribe := default_subscribe \<rparr>"

section \<open>The contracts\<close>

definition memory_queue :: "transport_state \<Rightarrow> bytes \<Rightarrow> bytes list" where
  "memory_queue st cid = (case hm_get (ts_mailboxes st) cid of None \<Rightarrow> [] | Some q \<Rightarrow> q)"

definition memory_pop :: "transport_state \<Rightarrow> bytes \<Rightarrow> transport_state \<times> bytes option" where
  "memory_pop st cid = (case memory_recv cid 0 [] st of (st, Ok r) \<Rightarrow> (st, r) | (st, _) \<Rightarrow> (st, None))"

lemma memory_recv_0:
  "memory_recv cid 0 [] st =
    (case memory_queue st cid of
       [] \<Rightarrow> (st, Ok None)
     | x # q \<Rightarrow> (st\<lparr>ts_mailboxes := hm_insert cid q (ts_mailboxes st)\<rparr>, Ok (Some x)))"
  by (simp add: memory_recv.simps memory_queue_def split: option.split list.split)

interpretation memory_mailbox: mailbox_contract "\<lambda>st cid b. fst (memory_send st cid b)" memory_pop memory_queue
  "\<lambda>q. q" "\<lambda>_. True"
  by unfold_locales
    (auto simp: memory_send_def memory_pop_def memory_recv_0 memory_queue_def Let_def split: option.splits list.splits)

interpretation memory_slots: slot_contract
  "\<lambda>st cid v b. case memory_put st cid v b of (st, r) \<Rightarrow> (st, r = Ok ())"
  "\<lambda>st cid. hm_get (ts_slots st) cid" "\<lambda>_. True"
  by unfold_locales (auto simp: memory_put_def newer_def split: option.splits)

text \<open>A delay never exceeds the configured bound.\<close>

lemma delay_millis_bounded:
  assumes "delay_millis max_delay r = Some d" "max_delay div 1000000 < 2 ^ 64 - 1"
  shows "unat d \<le> max_delay div 1000000"
proof -
  let ?n = "max_delay div 1000000"
  have n: "unat (of_nat ?n :: u64) = ?n" using assms(2) by (simp add: unat_of_nat)
  have "unat (- 1 :: u64) = 2 ^ 64 - 1" by (simp add: unsigned_minus_1_eq_mask mask_eq_exp_minus_1)
  then have "(of_nat ?n :: u64) \<noteq> - 1" using n assms(2) by force
  with assms have "d = r mod (of_nat ?n + 1)" by (auto simp: delay_millis_def Let_def split: if_splits)
  moreover have "unat (of_nat ?n + 1 :: u64) = ?n + 1"
    using n assms(2) by (simp add: unat_of_nat unat_word_ariths)
  ultimately show ?thesis by (simp add: unat_mod_distrib)
qed

text \<open>
  The share of dropped messages is not the configured percentage: of the 256 bytes, those from 200 on
  fold onto the small remainders again. The default of 30 percent drops 90 of 256.
\<close>

lemma drop_rate_of_default:
  "length (filter (should_drop DEFAULT_DROP_PERCENT) (map of_nat [0..<256])) = 90"
  by code_simp

end
