(* ===== verification/Iroh.thy ===== *)
theory Iroh
  imports State Config Contracts "HOL-Library.Multiset"
begin

text \<open>
  \<open>crates/enlace/src/transports/iroh.rs\<close>: the gossip transport. The endpoint and the gossip overlay
  are third-party code; they are the record \<open>gossip\<close> of the calls the transport makes. A topic is
  shared through an \<open>Arc\<close>, so topics live in a store by address and the table of the transport
  maps a channel to an address: clearing the table leaves the topics that others still hold. What
  other tasks do while a call awaits is an argument.
\<close>

section \<open>Data\<close>

definition IROH_WATCH_BUFFER :: nat where "IROH_WATCH_BUFFER = 64"
definition SLOT_HEADER_LEN :: nat where "SLOT_HEADER_LEN = 8"
definition MAX_PENDING_BROADCASTS :: nat where "MAX_PENDING_BROADCASTS = 64"

record 'g gossip =
  gs_endpoint_ok :: "bytes \<Rightarrow> bool"
  gs_public :: "bytes \<Rightarrow> bytes"
  gs_bind :: "'g \<Rightarrow> iroh_config \<Rightarrow> bytes \<Rightarrow> 'g \<times> (transport_error, unit) res"
  gs_lookup :: "'g \<Rightarrow> iroh_endpoint_addr \<Rightarrow> 'g"
  gs_subscribe :: "'g \<Rightarrow> bytes \<Rightarrow> bytes list \<Rightarrow> 'g \<times> (string, bytes list) res"
  gs_join :: "'g \<Rightarrow> bytes \<Rightarrow> bytes list \<Rightarrow> 'g \<times> (string, unit) res"
  gs_broadcast :: "'g \<Rightarrow> bytes \<Rightarrow> bytes \<Rightarrow> 'g \<times> (string, unit) res"

record neighbor_state =
  ns_neighbors :: "bytes list"
  ns_pending_broadcasts :: "bytes list"

record topic_state =
  tp_id :: bytes
  tp_mailbox :: "bytes list"
  tp_slot :: "(u64 \<times> bytes) option"
  tp_slot_updates :: "(u64 \<times> bytes) list"
  tp_neighbor_state :: neighbor_state

text \<open>
  The transport with the counters of its connection hook, which shares \<open>allowed_endpoints\<close>. The
  spawned tasks that broadcast buffered messages are the list \<open>it_flushes\<close> of their topic and
  remaining messages, those that introduce a new peer to a topic the list \<open>it_joins\<close>;
  \<open>it_broadcasts\<close> logs the calls of the overlay.
\<close>

record 'g iroh_transport =
  it_gossip :: 'g
  it_endpoint_id :: bytes
  it_peers :: "iroh_endpoint_addr list"
  it_allowed :: "bytes list option"
  it_topics :: "(bytes \<times> nat) list"
  it_store :: "(nat \<times> topic_state) list"
  it_fresh :: nat
  it_flushes :: "(bytes \<times> bytes list) list"
  it_joins :: "(bytes \<times> bytes) list"
  it_broadcasts :: "(bytes \<times> bytes) list"
  it_active :: "(bytes \<times> u32) list"
  it_max_conns_per_peer :: u32

datatype iroh_init_error = InitState state_error | InitTransport transport_error

fun iroh_init_error_display :: "iroh_init_error \<Rightarrow> string" where
  "iroh_init_error_display (InitState err) = state_error_display err"
| "iroh_init_error_display (InitTransport err) = transport_error_display err"

section \<open>Neighbours of a topic\<close>

definition neighbor_state_new :: "bytes list \<Rightarrow> neighbor_state" where
  "neighbor_state_new neighbors = \<lparr> ns_neighbors = neighbors, ns_pending_broadcasts = [] \<rparr>"

definition mark_up :: "bytes \<Rightarrow> neighbor_state \<Rightarrow> neighbor_state \<times> bytes list" where
  "mark_up peer ns =
    (let was_empty = (ns_neighbors ns = []);
         ns = ns\<lparr>ns_neighbors := List.insert peer (ns_neighbors ns)\<rparr>
     in if was_empty then (ns\<lparr>ns_pending_broadcasts := []\<rparr>, ns_pending_broadcasts ns) else (ns, []))"

definition mark_down :: "bytes \<Rightarrow> neighbor_state \<Rightarrow> neighbor_state" where
  "mark_down peer ns = ns\<lparr>ns_neighbors := removeAll peer (ns_neighbors ns)\<rparr>"

definition queue_or_send :: "bytes \<Rightarrow> neighbor_state \<Rightarrow> neighbor_state \<times> (transport_error, bytes option) res" where
  "queue_or_send message ns =
    (if ns_neighbors ns \<noteq> [] then (ns, Ok (Some message))
     else if length (ns_pending_broadcasts ns) \<ge> MAX_PENDING_BROADCASTS
     then (ns, Err (Network ''iroh pending broadcast queue is full''))
     else (ns\<lparr>ns_pending_broadcasts := ns_pending_broadcasts ns @ [message]\<rparr>, Ok None))"

section \<open>Frames and identifiers\<close>

definition encode_slot_frame :: "u64 \<Rightarrow> bytes \<Rightarrow> bytes" where
  "encode_slot_frame version sealed = u64_be version @ sealed"

definition decode_slot_frame :: "bytes \<Rightarrow> (u64 \<times> bytes) option" where
  "decode_slot_frame frame =
    (if length frame < SLOT_HEADER_LEN then None
     else Some (u64_of_be (take SLOT_HEADER_LEN frame), drop SLOT_HEADER_LEN frame))"

definition topic_id :: "bytes \<Rightarrow> (transport_error, bytes) res" where
  "topic_id cid = (if length cid = 32 then Ok cid else Err (Network ''iroh topic id must be 32 bytes''))"

definition endpoint_id_from_bytes :: "'g gossip \<Rightarrow> bytes \<Rightarrow> (transport_error, bytes) res" where
  "endpoint_id_from_bytes G eid =
    (if gs_endpoint_ok G eid then Ok eid else Err (Network ''invalid iroh endpoint id''))"

definition endpoint_addr :: "'g gossip \<Rightarrow> iroh_endpoint_addr \<Rightarrow> (transport_error, iroh_endpoint_addr) res" where
  "endpoint_addr G peer = map_ok (\<lambda>_. peer) (endpoint_id_from_bytes G (ea_endpoint_id peer))"

definition map_gossip_error :: "string \<Rightarrow> transport_error" where
  "map_gossip_error err = Other err"

section \<open>Topics\<close>

definition topic_new :: "bytes \<Rightarrow> bytes list \<Rightarrow> topic_state" where
  "topic_new cid neighbors =
    \<lparr> tp_id = cid, tp_mailbox = [], tp_slot = None, tp_slot_updates = [],
      tp_neighbor_state = neighbor_state_new neighbors \<rparr>"

definition record_mailbox :: "bytes \<Rightarrow> topic_state \<Rightarrow> topic_state" where
  "record_mailbox sealed t = t\<lparr>tp_mailbox := tp_mailbox t @ [sealed]\<rparr>"

definition record_slot :: "u64 \<Rightarrow> bytes \<Rightarrow> topic_state \<Rightarrow> topic_state" where
  "record_slot version sealed t =
    (if (case tp_slot t of
           None \<Rightarrow> False
         | Some (current_version, current_sealed) \<Rightarrow> (version, sealed) \<le> (current_version, current_sealed))
     then t
     else t\<lparr>tp_slot := Some (version, sealed), tp_slot_updates := tp_slot_updates t @ [(version, sealed)]\<rparr>)"

definition current_slot :: "topic_state \<Rightarrow> (u64 \<times> bytes) option" where
  "current_slot t = tp_slot t"

definition topic_at :: "'g iroh_transport \<Rightarrow> nat \<Rightarrow> topic_state" where
  "topic_at st a = (case hm_get (it_store st) a of None \<Rightarrow> topic_new [] [] | Some t \<Rightarrow> t)"

definition set_topic :: "nat \<Rightarrow> topic_state \<Rightarrow> 'g iroh_transport \<Rightarrow> 'g iroh_transport" where
  "set_topic a t st = st\<lparr>it_store := hm_insert a t (it_store st)\<rparr>"

definition broadcast_now :: "'g gossip \<Rightarrow> bytes \<Rightarrow> bytes \<Rightarrow> 'g iroh_transport \<Rightarrow> 'g iroh_transport \<times> (string, unit) res" where
  "broadcast_now G cid message st =
    (case gs_broadcast G (it_gossip st) cid message of
       (g, r) \<Rightarrow> (st\<lparr>it_gossip := g, it_broadcasts := it_broadcasts st @ [(cid, message)]\<rparr>, r))"

definition broadcast_or_buffer ::
  "'g gossip \<Rightarrow> nat \<Rightarrow> bytes \<Rightarrow> 'g iroh_transport \<Rightarrow> 'g iroh_transport \<times> (transport_error, unit) res" where
  "broadcast_or_buffer G a message st =
    (let t = topic_at st a in
     case queue_or_send message (tp_neighbor_state t) of
       (ns, r) \<Rightarrow>
         (let st = set_topic a (t\<lparr>tp_neighbor_state := ns\<rparr>) st in
          case r of
            Ok (Some message) \<Rightarrow> apsnd (map_err map_gossip_error) (broadcast_now G (tp_id t) message st)
          | Ok None \<Rightarrow> (st, Ok ())
          | Err e \<Rightarrow> (st, Err e)
          | Panic \<Rightarrow> (st, Panic)))"

definition mark_neighbor_up :: "nat \<Rightarrow> bytes \<Rightarrow> 'g iroh_transport \<Rightarrow> 'g iroh_transport" where
  "mark_neighbor_up a peer st =
    (let t = topic_at st a in
     case mark_up peer (tp_neighbor_state t) of
       (ns, pending) \<Rightarrow>
         (let st = set_topic a (t\<lparr>tp_neighbor_state := ns\<rparr>) st in
          if pending = [] then st else st\<lparr>it_flushes := it_flushes st @ [(tp_id t, pending)]\<rparr>))"

definition mark_neighbor_down :: "nat \<Rightarrow> bytes \<Rightarrow> 'g iroh_transport \<Rightarrow> 'g iroh_transport" where
  "mark_neighbor_down a peer st =
    (let t = topic_at st a in set_topic a (t\<lparr>tp_neighbor_state := mark_down peer (tp_neighbor_state t)\<rparr>) st)"

text \<open>One message of one spawned flush; the result of the broadcast is ignored.\<close>

definition flush_step :: "'g gossip \<Rightarrow> nat \<Rightarrow> 'g iroh_transport \<Rightarrow> 'g iroh_transport" where
  "flush_step G i st =
    (if i < length (it_flushes st)
     then (case it_flushes st ! i of
             (cid, []) \<Rightarrow> st
           | (cid, message # rest) \<Rightarrow>
               fst (broadcast_now G cid message (st\<lparr>it_flushes := (it_flushes st)[i := (cid, rest)]\<rparr>)))
     else st)"

text \<open>The events the subscription task of a topic handles.\<close>

datatype gossip_event = NeighborUp bytes | NeighborDown bytes | Received bytes | GossipLagged

fun topic_event :: "nat \<Rightarrow> gossip_event \<Rightarrow> 'g iroh_transport \<Rightarrow> 'g iroh_transport" where
  "topic_event a (NeighborUp peer) st = mark_neighbor_up a peer st"
| "topic_event a (NeighborDown peer) st = mark_neighbor_down a peer st"
| "topic_event a (Received content) st =
    (let t = record_mailbox content (topic_at st a) in
     set_topic a (case decode_slot_frame content of
                    Some (version, sealed) \<Rightarrow> record_slot version sealed t
                  | None \<Rightarrow> t) st)"
| "topic_event a GossipLagged st = st"

section \<open>Peers\<close>

fun upsert_peer :: "iroh_endpoint_addr \<Rightarrow> iroh_endpoint_addr list \<Rightarrow> iroh_endpoint_addr list" where
  "upsert_peer peer [] = [peer]"
| "upsert_peer peer (existing # peers) =
    (if ea_endpoint_id existing = ea_endpoint_id peer then peer # peers else existing # upsert_peer peer peers)"

definition reset_topics :: "'g iroh_transport \<Rightarrow> 'g iroh_transport" where
  "reset_topics st = st\<lparr>it_topics := []\<rparr>"

definition bootstrap_peers :: "'g gossip \<Rightarrow> 'g iroh_transport \<Rightarrow> bytes list" where
  "bootstrap_peers G st = filter (gs_endpoint_ok G) (map ea_endpoint_id (it_peers st))"

definition add_peer_addr :: "'g gossip \<Rightarrow> iroh_endpoint_addr \<Rightarrow> 'g iroh_transport \<Rightarrow> 'g iroh_transport" where
  "add_peer_addr G peer st =
    (let st = (case endpoint_addr G peer of
                 Ok addr \<Rightarrow> st\<lparr>it_gossip := gs_lookup G (it_gossip st) addr\<rparr>
               | _ \<Rightarrow> st);
         st = st\<lparr>it_peers := upsert_peer peer (it_peers st)\<rparr>
     in if \<not> gs_endpoint_ok G (ea_endpoint_id peer) then st
        else st\<lparr>it_joins := it_joins st @
               map (\<lambda>(_, a). (tp_id (topic_at st a), ea_endpoint_id peer)) (it_topics st)\<rparr>)"

text \<open>One of the spawned tasks that introduce a peer; its result is ignored.\<close>

definition join_step :: "'g gossip \<Rightarrow> nat \<Rightarrow> 'g iroh_transport \<Rightarrow> 'g iroh_transport" where
  "join_step G i st =
    (if i < length (it_joins st)
     then (case it_joins st ! i of
             (cid, peer) \<Rightarrow>
               st\<lparr>it_gossip := fst (gs_join G (it_gossip st) cid [peer]),
                  it_joins := take i (it_joins st) @ drop (Suc i) (it_joins st)\<rparr>)
     else st)"

definition add_peer :: "'g gossip \<Rightarrow> iroh_endpoint_addr \<Rightarrow> 'g iroh_transport \<Rightarrow> 'g iroh_transport" where
  "add_peer G peer st = add_peer_addr G peer st"

definition remove_peer :: "bytes \<Rightarrow> 'g iroh_transport \<Rightarrow> 'g iroh_transport \<times> bool" where
  "remove_peer eid st =
    (let old_len = length (it_peers st);
         peers = filter (\<lambda>peer. ea_endpoint_id peer \<noteq> eid) (it_peers st);
         removed = (length peers \<noteq> old_len);
         st = st\<lparr>it_peers := peers\<rparr>
     in (if removed then reset_topics st else st, removed))"

definition allow_peer :: "'g gossip \<Rightarrow> iroh_endpoint_addr \<Rightarrow> 'g iroh_transport \<Rightarrow> 'g iroh_transport" where
  "allow_peer G peer st =
    (let st = (case (it_allowed st, endpoint_id_from_bytes G (ea_endpoint_id peer)) of
                 (Some allowed, Ok endpoint) \<Rightarrow> st\<lparr>it_allowed := Some (List.insert endpoint allowed)\<rparr>
               | _ \<Rightarrow> st)
     in add_peer_addr G peer st)"

definition revoke_peer :: "'g gossip \<Rightarrow> bytes \<Rightarrow> 'g iroh_transport \<Rightarrow> 'g iroh_transport" where
  "revoke_peer G eid st =
    (let st = (case (it_allowed st, endpoint_id_from_bytes G eid) of
                 (Some allowed, Ok endpoint) \<Rightarrow> st\<lparr>it_allowed := Some (removeAll endpoint allowed)\<rparr>
               | _ \<Rightarrow> st)
     in reset_topics (fst (remove_peer eid st)))"

section \<open>The transport\<close>

definition iroh_new_with_allowed_endpoints ::
  "'g gossip \<Rightarrow> 'st state_store \<Rightarrow> bytes \<Rightarrow> iroh_config \<Rightarrow> bytes list option \<Rightarrow> 'g \<Rightarrow> 'st \<Rightarrow>
    'st \<times> (iroh_init_error, 'g iroh_transport) res" where
  "iroh_new_with_allowed_endpoints G store generated config allowed g0 st =
    (case (case ss_iroh_keypair store st of
             Ok (Some secret) \<Rightarrow> (st, Ok secret)
           | Ok None \<Rightarrow> apsnd (map_ok (\<lambda>_. generated)) (ss_store_iroh_keypair store st generated)
           | Err e \<Rightarrow> (st, Err e)
           | Panic \<Rightarrow> (st, Panic)) of
       (st, secret) \<Rightarrow>
         (st,
          bind_res (map_err InitState secret) (\<lambda>secret.
          bind_res (map_err InitTransport (traverse (endpoint_addr G) (ic_peers config))) (\<lambda>addrs.
          bind_res (map_err InitTransport
              (case allowed of
                 None \<Rightarrow> Ok None
               | Some endpoints \<Rightarrow> map_ok Some (traverse (endpoint_id_from_bytes G) endpoints))) (\<lambda>allowed.
            case gs_bind G (foldl (gs_lookup G) g0 addrs) config secret of
              (g, r) \<Rightarrow>
                bind_res (map_err InitTransport r) (\<lambda>_.
                  Ok \<lparr> it_gossip = g, it_endpoint_id = gs_public G secret, it_peers = ic_peers config,
                       it_allowed = allowed, it_topics = [], it_store = [], it_fresh = 0,
                       it_flushes = [], it_joins = [], it_broadcasts = [], it_active = [],
                       it_max_conns_per_peer = ic_max_conns_per_peer config \<rparr>))))))"

definition iroh_new ::
  "'g gossip \<Rightarrow> 'st state_store \<Rightarrow> bytes \<Rightarrow> iroh_config \<Rightarrow> 'g \<Rightarrow> 'st \<Rightarrow>
    'st \<times> (iroh_init_error, 'g iroh_transport) res" where
  "iroh_new G store generated config g0 st =
    iroh_new_with_allowed_endpoints G store generated config None g0 st"

text \<open>
  The topic of a channel. While the overlay is being subscribed other tasks run (\<open>during\<close>); one of
  them may enter the topic first, and then that one is used.
\<close>

definition enter_topic :: "bytes \<Rightarrow> bytes list \<Rightarrow> 'g iroh_transport \<Rightarrow> 'g iroh_transport \<times> nat" where
  "enter_topic cid neighbors st =
    (case hm_get (it_topics st) cid of
       Some a \<Rightarrow> (st, a)
     | None \<Rightarrow>
         (let a = it_fresh st
          in ((set_topic a (topic_new cid neighbors) st)\<lparr>it_topics := hm_insert cid a (it_topics st), it_fresh := Suc a\<rparr>, a)))"

definition ensure_topic ::
  "'g gossip \<Rightarrow> ('g iroh_transport \<Rightarrow> 'g iroh_transport) \<Rightarrow> bytes \<Rightarrow> 'g iroh_transport \<Rightarrow>
    'g iroh_transport \<times> (transport_error, nat) res" where
  "ensure_topic G during cid st =
    (case hm_get (it_topics st) cid of
       Some a \<Rightarrow> (st, Ok a)
     | None \<Rightarrow>
         (case topic_id cid of
            Ok tid \<Rightarrow>
              (case gs_subscribe G (it_gossip st) tid (bootstrap_peers G st) of
                 (g, Ok neighbors) \<Rightarrow>
                   (case enter_topic cid neighbors (during (st\<lparr>it_gossip := g\<rparr>)) of
                      (st, a) \<Rightarrow>
                        (let peers = bootstrap_peers G st in
                         if peers = [] then (st, Ok a)
                         else case gs_join G (it_gossip st) tid peers of
                                (g, r) \<Rightarrow> (st\<lparr>it_gossip := g\<rparr>, map_ok (\<lambda>_. a) (map_err map_gossip_error r))))
               | (g, Err e) \<Rightarrow> (st\<lparr>it_gossip := g\<rparr>, Err (map_gossip_error e))
               | (g, Panic) \<Rightarrow> (st\<lparr>it_gossip := g\<rparr>, Panic))
          | Err e \<Rightarrow> (st, Err e)
          | Panic \<Rightarrow> (st, Panic)))"

text \<open>A wake-up is what other tasks did before the waiter looked again; none is left at the deadline.\<close>

fun recv_mailbox ::
  "nat \<Rightarrow> duration \<Rightarrow> ('g iroh_transport \<Rightarrow> 'g iroh_transport) list \<Rightarrow> 'g iroh_transport \<Rightarrow>
    'g iroh_transport \<times> (transport_error, bytes option) res" where
  "recv_mailbox a wait wakes st =
    (case tp_mailbox (topic_at st a) of
       sealed # rest \<Rightarrow> (set_topic a ((topic_at st a)\<lparr>tp_mailbox := rest\<rparr>) st, Ok (Some sealed))
     | [] \<Rightarrow>
         if wait = 0 then (st, Ok None)
         else (case wakes of [] \<Rightarrow> (st, Ok None) | others # wakes \<Rightarrow> recv_mailbox a wait wakes (others st)))"

declare recv_mailbox.simps [simp del]

text \<open>\<open>let topic = self.ensure_topic(id).await?; ...\<close>\<close>

definition with_topic ::
  "'g gossip \<Rightarrow> ('g iroh_transport \<Rightarrow> 'g iroh_transport) \<Rightarrow> bytes \<Rightarrow>
    (nat \<Rightarrow> 'g iroh_transport \<Rightarrow> 'g iroh_transport \<times> (transport_error, 'a) res) \<Rightarrow> 'g iroh_transport \<Rightarrow>
    'g iroh_transport \<times> (transport_error, 'a) res" where
  "with_topic G during cid f st =
    (case ensure_topic G during cid st of
       (st, Ok a) \<Rightarrow> f a st
     | (st, Err e) \<Rightarrow> (st, Err e)
     | (st, Panic) \<Rightarrow> (st, Panic))"

definition iroh_subscribe ::
  "'g gossip \<Rightarrow> ('g iroh_transport \<Rightarrow> 'g iroh_transport) \<Rightarrow> 'g iroh_transport \<Rightarrow> bytes \<Rightarrow>
    'g iroh_transport \<times> (transport_error, unit) res" where
  "iroh_subscribe G during st cid = with_topic G during cid (\<lambda>_ st. (st, Ok ())) st"

definition iroh_send ::
  "'g gossip \<Rightarrow> ('g iroh_transport \<Rightarrow> 'g iroh_transport) \<Rightarrow> 'g iroh_transport \<Rightarrow> bytes \<Rightarrow> bytes \<Rightarrow>
    'g iroh_transport \<times> (transport_error, unit) res" where
  "iroh_send G during st cid sealed = with_topic G during cid (\<lambda>a. broadcast_or_buffer G a sealed) st"

definition iroh_recv ::
  "'g gossip \<Rightarrow> ('g iroh_transport \<Rightarrow> 'g iroh_transport) \<Rightarrow> ('g iroh_transport \<Rightarrow> 'g iroh_transport) list \<Rightarrow>
    'g iroh_transport \<Rightarrow> bytes \<Rightarrow> duration \<Rightarrow> 'g iroh_transport \<times> (transport_error, bytes option) res" where
  "iroh_recv G during wakes st cid wait = with_topic G during cid (\<lambda>a. recv_mailbox a wait wakes) st"

definition iroh_put ::
  "'g gossip \<Rightarrow> ('g iroh_transport \<Rightarrow> 'g iroh_transport) \<Rightarrow> 'g iroh_transport \<Rightarrow> bytes \<Rightarrow> u64 \<Rightarrow> bytes \<Rightarrow>
    'g iroh_transport \<times> (transport_error, unit) res" where
  "iroh_put G during st cid version sealed =
    with_topic G during cid
      (\<lambda>a st. broadcast_or_buffer G a (encode_slot_frame version sealed)
               (set_topic a (record_slot version sealed (topic_at st a)) st)) st"

definition iroh_get ::
  "'g gossip \<Rightarrow> ('g iroh_transport \<Rightarrow> 'g iroh_transport) \<Rightarrow> 'g iroh_transport \<Rightarrow> bytes \<Rightarrow>
    'g iroh_transport \<times> (transport_error, (u64 \<times> bytes) option) res" where
  "iroh_get G during st cid = with_topic G during cid (\<lambda>a st. (st, Ok (current_slot (topic_at st a)))) st"

definition iroh_as_transport :: "'g gossip \<Rightarrow> 'g iroh_transport transport" where
  "iroh_as_transport G =
    \<lparr> t_subscribe = iroh_subscribe G (\<lambda>st. st), t_send = iroh_send G (\<lambda>st. st),
      t_recv = iroh_recv G (\<lambda>st. st) [], t_put = iroh_put G (\<lambda>st. st), t_get = iroh_get G (\<lambda>st. st) \<rparr>"

section \<open>Connections\<close>

datatype handshake_outcome = Accept | Reject u32 string

definition after_handshake :: "bytes \<Rightarrow> 'g iroh_transport \<Rightarrow> 'g iroh_transport \<times> handshake_outcome" where
  "after_handshake peer st =
    (if (case it_allowed st of None \<Rightarrow> False | Some allowed \<Rightarrow> peer \<notin> set allowed)
     then (st, Reject 403 ''endpoint not trusted'')
     else
       (let n = (case hm_get (it_active st) peer of None \<Rightarrow> 0 | Some n \<Rightarrow> n);
            st = st\<lparr>it_active := hm_insert peer n (it_active st)\<rparr>
        in if n \<ge> it_max_conns_per_peer st then (st, Reject 0 ''too many connections'')
           else (st\<lparr>it_active := hm_insert peer (n + 1) (it_active st)\<rparr>, Accept)))"

text \<open>The task spawned for an accepted connection, when it closes.\<close>

definition conn_closed :: "bytes \<Rightarrow> 'g iroh_transport \<Rightarrow> 'g iroh_transport" where
  "conn_closed peer st =
    (case hm_get (it_active st) peer of
       None \<Rightarrow> st
     | Some n \<Rightarrow>
         (let n = (if n = 0 then 0 else n - 1)
          in st\<lparr>it_active := (if n = 0 then hm_remove peer (it_active st)
                               else hm_insert peer n (it_active st))\<rparr>))"

section \<open>Watching a slot\<close>

text \<open>
  The task of \<open>watch\<close> once it has its topic: read the current slot, deliver it, subscribe to the
  updates, then follow them. A step is the code between two points where other tasks may run. A
  subscriber that falls more than the buffer behind continues at the oldest update still kept.
\<close>

datatype iroh_watch_pc = ReadCurrent | Subscribe | Follow nat

record iroh_watch_task =
  iw_since :: u64
  iw_pc :: iroh_watch_pc
  iw_delivered :: "(u64 \<times> bytes) list"

definition iroh_watch_start :: "u64 \<Rightarrow> iroh_watch_task" where
  "iroh_watch_start since = \<lparr> iw_since = since, iw_pc = ReadCurrent, iw_delivered = [] \<rparr>"

definition iroh_offer :: "u64 \<times> bytes \<Rightarrow> iroh_watch_task \<Rightarrow> iroh_watch_task" where
  "iroh_offer p w =
    (if fst p > iw_since w then w\<lparr>iw_since := fst p, iw_delivered := iw_delivered w @ [p]\<rparr> else w)"

fun iroh_watch_step :: "topic_state \<Rightarrow> iroh_watch_task \<Rightarrow> iroh_watch_pc \<Rightarrow> iroh_watch_task" where
  "iroh_watch_step t w ReadCurrent =
    (case current_slot t of None \<Rightarrow> w | Some p \<Rightarrow> iroh_offer p w)\<lparr>iw_pc := Subscribe\<rparr>"
| "iroh_watch_step t w Subscribe = w\<lparr>iw_pc := Follow (length (tp_slot_updates t))\<rparr>"
| "iroh_watch_step t w (Follow n) =
    (if length (tp_slot_updates t) > n + IROH_WATCH_BUFFER
     then w\<lparr>iw_pc := Follow (length (tp_slot_updates t) - IROH_WATCH_BUFFER)\<rparr>
     else if n < length (tp_slot_updates t)
     then (iroh_offer (tp_slot_updates t ! n) w)\<lparr>iw_pc := Follow (Suc n)\<rparr>
     else w)"

section \<open>Laws of the parts\<close>

lemma decode_encode_slot_frame [simp]: "decode_slot_frame (encode_slot_frame v s) = Some (v, s)"
  by (simp add: decode_slot_frame_def encode_slot_frame_def SLOT_HEADER_LEN_def)

lemma topic_at_set_topic [simp]: "topic_at (set_topic a t st) b = (if b = a then t else topic_at st b)"
  by (simp add: topic_at_def set_topic_def)

lemma set_topic_fields [simp]:
  "it_topics (set_topic a t st) = it_topics st" "it_allowed (set_topic a t st) = it_allowed st"
  "it_flushes (set_topic a t st) = it_flushes st" "it_broadcasts (set_topic a t st) = it_broadcasts st"
  "it_gossip (set_topic a t st) = it_gossip st" "it_peers (set_topic a t st) = it_peers st"
  "it_active (set_topic a t st) = it_active st" "it_fresh (set_topic a t st) = it_fresh st"
  by (simp_all add: set_topic_def)

lemma broadcast_now_fields [simp]:
  "it_topics (fst (broadcast_now G cid m st)) = it_topics st"
  "it_store (fst (broadcast_now G cid m st)) = it_store st"
  "it_flushes (fst (broadcast_now G cid m st)) = it_flushes st"
  "it_broadcasts (fst (broadcast_now G cid m st)) = it_broadcasts st @ [(cid, m)]"
  by (simp_all add: broadcast_now_def split: prod.split)

lemma topic_at_broadcast_now [simp]: "topic_at (fst (broadcast_now G cid m st)) a = topic_at st a"
  by (simp add: topic_at_def)

lemma record_slot_greater: "tp_slot (record_slot v s t) = greater (tp_slot t) (v, s)"
  by (auto simp: record_slot_def greater_def not_le split: option.split)

lemma record_slot_fields [simp]:
  "tp_id (record_slot v s t) = tp_id t" "tp_mailbox (record_slot v s t) = tp_mailbox t"
  "tp_neighbor_state (record_slot v s t) = tp_neighbor_state t"
  by (simp_all add: record_slot_def)

lemma record_mailbox_fields [simp]:
  "tp_id (record_mailbox m t) = tp_id t" "tp_mailbox (record_mailbox m t) = tp_mailbox t @ [m]"
  "tp_slot (record_mailbox m t) = tp_slot t"
  "tp_neighbor_state (record_mailbox m t) = tp_neighbor_state t"
  by (simp_all add: record_mailbox_def)

lemma with_topic_present: "hm_get (it_topics st) cid = Some a \<Longrightarrow> with_topic G during cid f st = f a st"
  by (simp add: with_topic_def ensure_topic_def)

lemma broadcast_or_buffer_topics [simp]: "it_topics (fst (broadcast_or_buffer G a m st)) = it_topics st"
  by (auto simp: broadcast_or_buffer_def Let_def split: prod.split option.split res.split)

lemma broadcast_or_buffer_topic:
  "topic_at (fst (broadcast_or_buffer G a m st)) b =
    (if b = a then (topic_at st a)\<lparr>tp_neighbor_state := fst (queue_or_send m (tp_neighbor_state (topic_at st a)))\<rparr>
     else topic_at st b)"
  by (auto simp: broadcast_or_buffer_def Let_def split: prod.split option.split res.split)

text \<open>The mailbox of a topic is a queue.\<close>

definition iroh_pop :: "'g iroh_transport \<Rightarrow> nat \<Rightarrow> 'g iroh_transport \<times> bytes option" where
  "iroh_pop st a = (case recv_mailbox a 0 [] st of (st, Ok r) \<Rightarrow> (st, r) | (st, _) \<Rightarrow> (st, None))"

lemma recv_mailbox_now:
  "recv_mailbox a 0 wakes st =
    (case tp_mailbox (topic_at st a) of
       [] \<Rightarrow> (st, Ok None)
     | sealed # rest \<Rightarrow> (set_topic a ((topic_at st a)\<lparr>tp_mailbox := rest\<rparr>) st, Ok (Some sealed)))"
  by (simp add: recv_mailbox.simps split: list.split)

interpretation iroh_mailbox: mailbox_contract "\<lambda>st a m. topic_event a (Received m) st" iroh_pop
  "\<lambda>st a. tp_mailbox (topic_at st a)" "\<lambda>q. q" "\<lambda>_. True"
  by unfold_locales
    (auto simp: Let_def iroh_pop_def recv_mailbox_now split: option.splits list.splits)

section \<open>Replication\<close>

datatype replica_op = PutLocal u64 bytes | Deliver gossip_event

fun replica_step :: "'g gossip \<Rightarrow> bytes \<Rightarrow> 'g iroh_transport \<Rightarrow> replica_op \<Rightarrow> 'g iroh_transport" where
  "replica_step G cid st (PutLocal v s) = fst (iroh_put G (\<lambda>st. st) st cid v s)"
| "replica_step G cid st (Deliver ev) =
    (case hm_get (it_topics st) cid of None \<Rightarrow> st | Some a \<Rightarrow> topic_event a ev st)"

fun replica_pairs :: "replica_op \<Rightarrow> (u64 \<times> bytes) list" where
  "replica_pairs (PutLocal v s) = [(v, s)]"
| "replica_pairs (Deliver (Received m)) = (case decode_slot_frame m of None \<Rightarrow> [] | Some p \<Rightarrow> [p])"
| "replica_pairs (Deliver _) = []"

lemma topic_event_topics [simp]: "it_topics (topic_event a ev st) = it_topics st"
  by (cases ev) (auto simp: mark_neighbor_up_def mark_neighbor_down_def Let_def split: prod.split)

lemma topic_event_slot:
  "tp_slot (topic_at (topic_event a ev st) a) = foldl greater (tp_slot (topic_at st a)) (replica_pairs (Deliver ev))"
proof (cases ev)
  case (NeighborUp p)
  then show ?thesis
    by (auto simp: mark_neighbor_up_def Let_def topic_at_def set_topic_def split: prod.split)
next
  case (NeighborDown p)
  then show ?thesis by (simp add: mark_neighbor_down_def Let_def)
next
  case (Received m)
  then show ?thesis by (auto simp: Let_def record_slot_greater split: option.split)
qed simp

interpretation iroh_replica: replicated_slot "replica_step G cid" replica_pairs
  "\<lambda>st. tp_slot (topic_at st a)" "\<lambda>st. hm_get (it_topics st) cid = Some a" for G cid a
proof unfold_locales
  fix st :: "'a iroh_transport" and x assume inv: "hm_get (it_topics st) cid = Some a"
  show "hm_get (it_topics (replica_step G cid st x)) cid = Some a"
    using inv by (cases x) (auto simp: iroh_put_def with_topic_present)
  show "tp_slot (topic_at (replica_step G cid st x) a) = foldl greater (tp_slot (topic_at st a)) (replica_pairs x)"
    using inv by (cases x) (auto simp: iroh_put_def with_topic_present broadcast_or_buffer_topic record_slot_greater
        topic_event_slot simp del: replica_pairs.simps(2,3) topic_event.simps)
qed

section \<open>Buffered broadcasts\<close>

text \<open>
  Steps that touch the messages of one channel: a send, an event of its topic, and one step of a
  spawned flush. The run collects the messages the transport took, which are those not refused for
  a full buffer.
\<close>

datatype iroh_action = SendOp bytes | EventOp gossip_event | FlushOp nat

definition queue_full :: "(transport_error, unit) res" where
  "queue_full = Err (Network ''iroh pending broadcast queue is full'')"

fun iroh_step :: "'g gossip \<Rightarrow> bytes \<Rightarrow> 'g iroh_transport \<times> bytes list \<Rightarrow> iroh_action \<Rightarrow> 'g iroh_transport \<times> bytes list" where
  "iroh_step G cid (st, taken) (SendOp m) =
    (case iroh_send G (\<lambda>st. st) st cid m of
       (st, r) \<Rightarrow> (st, if r = queue_full then taken else taken @ [m]))"
| "iroh_step G cid (st, taken) (EventOp ev) =
    (case hm_get (it_topics st) cid of None \<Rightarrow> st | Some a \<Rightarrow> topic_event a ev st, taken)"
| "iroh_step G cid (st, taken) (FlushOp i) = (flush_step G i st, taken)"

definition sent_on :: "bytes \<Rightarrow> 'g iroh_transport \<Rightarrow> bytes list" where
  "sent_on cid st = map snd (filter (\<lambda>b. fst b = cid) (it_broadcasts st))"

definition flushing_on :: "bytes \<Rightarrow> 'g iroh_transport \<Rightarrow> bytes list" where
  "flushing_on cid st = concat (map snd (filter (\<lambda>f. fst f = cid) (it_flushes st)))"

definition pending_at :: "nat \<Rightarrow> 'g iroh_transport \<Rightarrow> bytes list" where
  "pending_at a st = ns_pending_broadcasts (tp_neighbor_state (topic_at st a))"

definition buffer_ok :: "neighbor_state \<Rightarrow> bool" where
  "buffer_ok ns \<longleftrightarrow> length (ns_pending_broadcasts ns) \<le> MAX_PENDING_BROADCASTS
    \<and> (ns_neighbors ns \<noteq> [] \<longrightarrow> ns_pending_broadcasts ns = [])"

lemma buffer_ok_mark_up: "buffer_ok ns \<Longrightarrow> buffer_ok (fst (mark_up p ns))"
  by (auto simp: buffer_ok_def mark_up_def Let_def)

lemma buffer_ok_mark_down: "buffer_ok ns \<Longrightarrow> buffer_ok (mark_down p ns)"
  by (auto simp: buffer_ok_def mark_down_def)

lemma buffer_ok_queue: "buffer_ok ns \<Longrightarrow> buffer_ok (fst (queue_or_send m ns))"
  by (auto simp: buffer_ok_def queue_or_send_def)

lemma pending_mark_up:
  "buffer_ok ns \<Longrightarrow> ns_pending_broadcasts ns = snd (mark_up p ns) @ ns_pending_broadcasts (fst (mark_up p ns))"
  by (auto simp: buffer_ok_def mark_up_def Let_def)

lemma topic_at_flushes [simp]: "topic_at (st\<lparr>it_flushes := fs\<rparr>) a = topic_at st a"
  by (simp add: topic_at_def)

definition conserved :: "nat \<Rightarrow> bytes \<Rightarrow> 'g iroh_transport \<times> bytes list \<Rightarrow> bool" where
  "conserved a cid s \<longleftrightarrow> (case s of (st, taken) \<Rightarrow>
    hm_get (it_topics st) cid = Some a \<and> tp_id (topic_at st a) = cid
    \<and> buffer_ok (tp_neighbor_state (topic_at st a))
    \<and> mset taken = mset (sent_on cid st) + mset (flushing_on cid st) + mset (pending_at a st))"

lemma broadcast_or_buffer_cases:
  "broadcast_or_buffer G a m st =
    (let t = topic_at st a; ns = tp_neighbor_state t in
     if ns_neighbors ns \<noteq> []
     then apsnd (map_err map_gossip_error) (broadcast_now G (tp_id t) m (set_topic a t st))
     else if MAX_PENDING_BROADCASTS \<le> length (ns_pending_broadcasts ns) then (set_topic a t st, queue_full)
     else (set_topic a (t\<lparr>tp_neighbor_state := ns\<lparr>ns_pending_broadcasts := ns_pending_broadcasts ns @ [m]\<rparr>\<rparr>) st, Ok ()))"
  by (simp add: broadcast_or_buffer_def queue_or_send_def queue_full_def Let_def)

lemma not_queue_full: "map_err map_gossip_error r \<noteq> queue_full"
  by (cases r) (auto simp: queue_full_def map_gossip_error_def)

lemma conserved_send:
  assumes "conserved a cid (st, taken)"
  shows "conserved a cid (iroh_step G cid (st, taken) (SendOp m))"
proof -
  let ?ns = "tp_neighbor_state (topic_at st a)"
  have send: "iroh_send G (\<lambda>st. st) st cid m = broadcast_or_buffer G a m st"
    using assms by (simp add: conserved_def iroh_send_def with_topic_present)
  show ?thesis
  proof (cases "ns_neighbors ?ns = []")
    case True
    then show ?thesis using assms send
      by (auto simp: conserved_def broadcast_or_buffer_cases Let_def buffer_ok_def sent_on_def flushing_on_def
          pending_at_def queue_full_def)
  next
    case False
    obtain s r where b: "broadcast_now G cid m (set_topic a (topic_at st a) st) = (s, r)"
      by fastforce
    note f = broadcast_now_fields[of G cid m "set_topic a (topic_at st a) st", unfolded b]
      topic_at_broadcast_now[of G cid m "set_topic a (topic_at st a) st" a, unfolded b]
    show ?thesis using assms send False f
      by (simp add: conserved_def broadcast_or_buffer_cases Let_def b not_queue_full sent_on_def
          flushing_on_def pending_at_def)
  qed
qed

lemma sent_on_same: "it_broadcasts st' = it_broadcasts st \<Longrightarrow> sent_on cid st' = sent_on cid st"
  by (simp add: sent_on_def)

lemma flushing_on_same: "it_flushes st' = it_flushes st \<Longrightarrow> flushing_on cid st' = flushing_on cid st"
  by (simp add: flushing_on_def)

lemma conserved_event:
  assumes "conserved a cid (st, taken)"
  shows "conserved a cid (iroh_step G cid (st, taken) (EventOp ev))"
proof -
  let ?ns = "tp_neighbor_state (topic_at st a)"
  have ok: "hm_get (it_topics st) cid = Some a" "tp_id (topic_at st a) = cid" "buffer_ok ?ns"
    "mset taken = mset (sent_on cid st) + mset (flushing_on cid st) + mset (pending_at a st)"
    using assms by (auto simp: conserved_def)
  show ?thesis
  proof (cases ev)
    case (NeighborUp p)
    obtain ns pending where up: "mark_up p ?ns = (ns, pending)" by fastforce
    then show ?thesis
      using NeighborUp ok buffer_ok_mark_up[OF ok(3), of p] pending_mark_up[OF ok(3), of p]
      by (auto simp: conserved_def mark_neighbor_up_def Let_def sent_on_def flushing_on_def pending_at_def)
  next
    case (NeighborDown p)
    then show ?thesis using ok buffer_ok_mark_down[OF ok(3), of p]
      by (auto simp: conserved_def mark_neighbor_down_def Let_def sent_on_def flushing_on_def pending_at_def mark_down_def)
  next
    case (Received m)
    then show ?thesis using ok
      by (auto simp: conserved_def Let_def sent_on_def flushing_on_def pending_at_def split: option.split)
  qed (use ok in \<open>auto simp: conserved_def\<close>)
qed

lemma mset_flushing_update:
  assumes "i < length fs" "fs ! i = (c, m # rest)"
  shows "mset (concat (map snd (filter (\<lambda>f. fst f = cid) fs))) =
    (if c = cid then {#m#} else {#}) + mset (concat (map snd (filter (\<lambda>f. fst f = cid) (fs[i := (c, rest)]))))"
proof -
  obtain A B where fs: "fs = A @ (c, m # rest) # B" and i: "i = length A"
    using assms id_take_nth_drop[of i fs] by (metis length_take min.absorb2 less_imp_le)
  show ?thesis by (simp add: fs i)
qed

lemma conserved_flush:
  assumes "conserved a cid (st, taken)"
  shows "conserved a cid (iroh_step G cid (st, taken) (FlushOp i))"
proof (cases "i < length (it_flushes st) \<and> snd (it_flushes st ! i) \<noteq> []")
  case True
  then obtain c m rest where fl: "it_flushes st ! i = (c, m # rest)"
    by (cases "it_flushes st ! i") (auto simp: neq_Nil_conv)
  from True fl mset_flushing_update[of i "it_flushes st" c m rest cid] assms show ?thesis
    by (auto simp: conserved_def flush_step_def sent_on_def flushing_on_def pending_at_def)
next
  case False
  then have "flush_step G i st = st"
    by (cases "it_flushes st ! i") (auto simp: flush_step_def)
  then show ?thesis using assms by simp
qed

lemma conserved_run:
  assumes "conserved a cid s"
  shows "conserved a cid (foldl (iroh_step G cid) s ops)"
  using assms
proof (induction ops arbitrary: s)
  case (Cons x ops)
  obtain st taken where s: "s = (st, taken)" by fastforce
  have "conserved a cid (iroh_step G cid s x)"
    using Cons.prems unfolding s by (cases x) (simp_all only: conserved_send conserved_event conserved_flush)
  then show ?case using Cons.IH by simp
qed simp

section \<open>Admission\<close>

datatype iroh_admin =
    AllowOp iroh_endpoint_addr | RevokeOp bytes | AddOp iroh_endpoint_addr | RemoveOp bytes
  | HandshakeOp bytes | ClosedOp bytes

fun admin_step :: "'g gossip \<Rightarrow> 'g iroh_transport \<Rightarrow> iroh_admin \<Rightarrow> 'g iroh_transport" where
  "admin_step G st (AllowOp peer) = allow_peer G peer st"
| "admin_step G st (RevokeOp eid) = revoke_peer G eid st"
| "admin_step G st (AddOp peer) = add_peer G peer st"
| "admin_step G st (RemoveOp eid) = fst (remove_peer eid st)"
| "admin_step G st (HandshakeOp peer) = fst (after_handshake peer st)"
| "admin_step G st (ClosedOp peer) = conn_closed peer st"

lemma add_peer_addr_fields [simp]:
  "it_allowed (add_peer_addr G peer st) = it_allowed st" "it_active (add_peer_addr G peer st) = it_active st"
  "it_max_conns_per_peer (add_peer_addr G peer st) = it_max_conns_per_peer st"
  by (auto simp: add_peer_addr_def Let_def split: res.split)

lemma remove_peer_fields [simp]:
  "it_allowed (fst (remove_peer eid st)) = it_allowed st" "it_active (fst (remove_peer eid st)) = it_active st"
  "it_max_conns_per_peer (fst (remove_peer eid st)) = it_max_conns_per_peer st"
  by (auto simp: remove_peer_def reset_topics_def Let_def)

lemma allow_peer_allowed:
  "it_allowed (allow_peer G peer st) =
    map_option (\<lambda>s. if gs_endpoint_ok G (ea_endpoint_id peer) then List.insert (ea_endpoint_id peer) s else s) (it_allowed st)"
  by (auto simp: allow_peer_def endpoint_id_from_bytes_def Let_def split: option.split)

lemma revoke_peer_allowed:
  "it_allowed (revoke_peer G eid st) =
    map_option (\<lambda>s. if gs_endpoint_ok G eid then removeAll eid s else s) (it_allowed st)"
  by (auto simp: revoke_peer_def endpoint_id_from_bytes_def reset_topics_def Let_def split: option.split)

lemma admit_fields [simp]:
  "it_active (allow_peer G peer st) = it_active st" "it_active (revoke_peer G eid st) = it_active st"
  "it_max_conns_per_peer (allow_peer G peer st) = it_max_conns_per_peer st"
  "it_max_conns_per_peer (revoke_peer G eid st) = it_max_conns_per_peer st"
  by (auto simp: allow_peer_def revoke_peer_def reset_topics_def Let_def split: option.split res.split)

lemma handshake_fields [simp]:
  "it_allowed (fst (after_handshake peer st)) = it_allowed st" "it_allowed (conn_closed peer st) = it_allowed st"
  "it_max_conns_per_peer (fst (after_handshake peer st)) = it_max_conns_per_peer st"
  "it_max_conns_per_peer (conn_closed peer st) = it_max_conns_per_peer st"
  by (auto simp: after_handshake_def conn_closed_def Let_def split: option.split)

definition shut_out :: "bytes \<Rightarrow> 'g iroh_transport \<Rightarrow> bool" where
  "shut_out eid st \<longleftrightarrow> (case it_allowed st of None \<Rightarrow> False | Some allowed \<Rightarrow> eid \<notin> set allowed)"

lemma shut_out_step:
  assumes "shut_out eid st" "\<And>peer. x = AllowOp peer \<Longrightarrow> ea_endpoint_id peer \<noteq> eid"
  shows "shut_out eid (admin_step G st x)"
  using assms by (cases x) (auto simp: shut_out_def allow_peer_allowed revoke_peer_allowed add_peer_def split: option.splits)

lemma shut_out_run:
  assumes "shut_out eid st" "\<And>peer. AllowOp peer \<in> set ops \<Longrightarrow> ea_endpoint_id peer \<noteq> eid"
  shows "shut_out eid (foldl (admin_step G) st ops)"
  using assms by (induction ops arbitrary: st) (auto simp: shut_out_step)

lemma shut_out_rejected: "shut_out eid st \<Longrightarrow> after_handshake eid st = (st, Reject 403 ''endpoint not trusted'')"
  by (auto simp: shut_out_def after_handshake_def split: option.splits)

lemma revoke_shuts_out: "it_allowed st \<noteq> None \<Longrightarrow> gs_endpoint_ok G eid \<Longrightarrow> shut_out eid (revoke_peer G eid st)"
  by (auto simp: shut_out_def revoke_peer_allowed split: option.splits)

text \<open>The open connections beside the counters of the hook.\<close>

fun conn_step :: "'g gossip \<Rightarrow> 'g iroh_transport \<times> bytes list \<Rightarrow> iroh_admin \<Rightarrow> 'g iroh_transport \<times> bytes list" where
  "conn_step G (st, conns) (HandshakeOp peer) =
    (case after_handshake peer st of (st, r) \<Rightarrow> (st, if r = Accept then peer # conns else conns))"
| "conn_step G (st, conns) (ClosedOp peer) =
    (if peer \<in> set conns then (conn_closed peer st, remove1 peer conns) else (st, conns))"
| "conn_step G (st, conns) x = (admin_step G st x, conns)"

definition active_of :: "'g iroh_transport \<Rightarrow> bytes \<Rightarrow> u32" where
  "active_of st peer = (case hm_get (it_active st) peer of None \<Rightarrow> 0 | Some n \<Rightarrow> n)"

definition conns_ok :: "u32 \<Rightarrow> 'g iroh_transport \<times> bytes list \<Rightarrow> bool" where
  "conns_ok bound s \<longleftrightarrow> (case s of (st, conns) \<Rightarrow>
    it_max_conns_per_peer st = bound \<and>
    (\<forall>peer. unat (active_of st peer) = count (mset conns) peer \<and> active_of st peer \<le> bound))"

lemma unat_succ_below: "(n :: u32) < m \<Longrightarrow> unat (n + 1) = unat n + 1"
  using unsigned_less[of m, where 'a = nat] by (simp add: unat_word_ariths word_less_nat_alt)

lemma active_of_handshake:
  "after_handshake peer st = (st', r) \<Longrightarrow>
    active_of st' q = (if r = Accept \<and> q = peer then active_of st q + 1 else active_of st q)
    \<and> (r = Accept \<longrightarrow> active_of st peer < it_max_conns_per_peer st)"
  by (auto simp: after_handshake_def active_of_def Let_def word_gt_0 not_le split: option.splits if_splits)

lemma active_of_closed:
  "active_of (conn_closed peer st) q = (if q = peer \<and> active_of st q \<noteq> 0 then active_of st q - 1 else active_of st q)"
  by (auto simp: conn_closed_def active_of_def Let_def split: option.splits)

lemma active_of_admin [simp]:
  "active_of (allow_peer G p st) q = active_of st q" "active_of (revoke_peer G eid st) q = active_of st q"
  "active_of (add_peer_addr G p st) q = active_of st q" "active_of (fst (remove_peer eid st)) q = active_of st q"
  by (simp_all add: active_of_def)

lemma conns_ok_step:
  assumes "conns_ok bound (st, conns)"
  shows "conns_ok bound (conn_step G (st, conns) x)"
proof (cases x)
  case (HandshakeOp peer)
  obtain st' r where h: "after_handshake peer st = (st', r)" by fastforce
  have "it_max_conns_per_peer st' = bound"
    using handshake_fields(3)[of peer st] h assms by (simp add: conns_ok_def)
  moreover have "unat (active_of st peer + 1) = unat (active_of st peer) + 1" if "r = Accept"
    using active_of_handshake[OF h, of peer] that unat_succ_below by blast
  moreover have "active_of st peer + 1 \<le> it_max_conns_per_peer st" if "r = Accept"
    using active_of_handshake[OF h, of peer] that inc_le by blast
  ultimately show ?thesis using HandshakeOp h active_of_handshake[OF h] assms
    by (auto simp: conns_ok_def)
next
  case (ClosedOp peer)
  have "unat (active_of st peer - 1) = unat (active_of st peer) - 1" if "active_of st peer \<noteq> 0"
    using that by (simp add: unat_minus_one)
  moreover have "active_of st peer \<le> bound" using assms by (simp add: conns_ok_def)
  then have "active_of st peer - 1 \<le> bound" if "active_of st peer \<noteq> 0"
    using that by (simp add: word_le_nat_alt unat_minus_one)
  moreover have "unat (active_of st peer) = count (mset conns) peer" using assms by (simp add: conns_ok_def)
  then have "count (mset conns) peer = 0" if "active_of st peer = 0" using that by simp
  ultimately show ?thesis using ClosedOp assms
    by (auto simp: conns_ok_def active_of_closed)
qed (use assms in \<open>auto simp: conns_ok_def add_peer_def\<close>)

lemma conns_ok_run: "conns_ok bound s \<Longrightarrow> conns_ok bound (foldl (conn_step G) s ops)"
proof (induction ops arbitrary: s)
  case (Cons x ops)
  obtain st conns where s: "s = (st, conns)" by fastforce
  show ?case using Cons conns_ok_step[of bound st conns G x] by (simp add: s)
qed simp

section \<open>Properties\<close>

text \<open>An overlay in which every call succeeds and no neighbour is known at subscription.\<close>

definition quiet_gossip :: "unit gossip" where
  "quiet_gossip =
    \<lparr> gs_endpoint_ok = (\<lambda>e. length e = 32), gs_public = (\<lambda>s. s), gs_bind = (\<lambda>g c s. (g, Ok ())),
      gs_lookup = (\<lambda>g a. g), gs_subscribe = (\<lambda>g c b. (g, Ok [])), gs_join = (\<lambda>g c b. (g, Ok ())),
      gs_broadcast = (\<lambda>g c m. (g, Ok ())) \<rparr>"

definition sample_topic_id :: bytes where "sample_topic_id = replicate 32 7"

definition sample_iroh :: "unit iroh_transport" where
  "sample_iroh =
    \<lparr> it_gossip = (), it_endpoint_id = replicate 32 1, it_peers = [], it_allowed = Some [replicate 32 2],
      it_topics = [], it_store = [], it_fresh = 0, it_flushes = [], it_joins = [], it_broadcasts = [],
      it_active = [], it_max_conns_per_peer = 4 \<rparr>"

definition sample_replica :: "unit iroh_transport" where
  "sample_replica = fst (ensure_topic quiet_gossip (\<lambda>st. st) sample_topic_id sample_iroh)"

lemma sample_replica_eval:
  "sample_replica = sample_iroh\<lparr>it_topics := [(sample_topic_id, 0)], it_store := [(0, topic_new sample_topic_id [])], it_fresh := 1\<rparr>"
  by (simp add: sample_replica_def sample_iroh_def ensure_topic_def quiet_gossip_def sample_topic_id_def topic_id_def
      enter_topic_def set_topic_def bootstrap_peers_def Let_def)

text \<open>
  C18: Replicas of a gossip slot converge. Two endpoints that put or receive the same set of
  versioned values for a channel, in any order, with any duplicates and any neighbour events in
  between, read the same value from it: the greatest pair of version and bytes among them.
\<close>

theorem iroh_replicas_converge:
  assumes "hm_get (it_topics st) cid = Some a" "current_slot (topic_at st a) = None"
    and "hm_get (it_topics st') cid = Some a'" "current_slot (topic_at st' a') = None"
    and "set (concat (map replica_pairs ops)) = set (concat (map replica_pairs ops'))"
  defines "value \<equiv> if concat (map replica_pairs ops) = [] then None
    else Some (Max (set (concat (map replica_pairs ops))))"
  shows "snd (iroh_get G (\<lambda>st. st) (foldl (replica_step G cid) st ops) cid) = Ok value
    \<and> snd (iroh_get G' (\<lambda>st. st) (foldl (replica_step G' cid) st' ops') cid) = Ok value"
proof -
  have read: "snd (iroh_get H (\<lambda>st. st) s cid) = Ok (tp_slot (topic_at s b))"
    if "hm_get (it_topics s) cid = Some b" for H and s :: "'x iroh_transport" and b
    using that by (simp add: iroh_get_def with_topic_present current_slot_def)
  have "concat (map replica_pairs ops') = [] \<longleftrightarrow> concat (map replica_pairs ops) = []"
    by (metis assms(5) set_empty2)
  then show ?thesis
    using iroh_replica.run_greatest[OF assms(1), where G = G and xs = ops]
      iroh_replica.run_greatest[OF assms(3), where G = G' and xs = ops']
      read[OF iroh_replica.run_inv[OF assms(1), where G = G and xs = ops]]
      read[OF iroh_replica.run_inv[OF assms(3), where G = G' and xs = ops']] assms(2,4,5)
    by (simp add: value_def current_slot_def del: concat_eq_Nil_conv)
qed

theorem iroh_replicas_converge_witness:
  "snd (iroh_get quiet_gossip (\<lambda>st. st) (foldl (replica_step quiet_gossip sample_topic_id) sample_replica
      [PutLocal 3 [1], Deliver (Received (encode_slot_frame 5 [2]))]) sample_topic_id) = Ok (Some (5, [2]))
   \<and> snd (iroh_get quiet_gossip (\<lambda>st. st) (foldl (replica_step quiet_gossip sample_topic_id) sample_replica
      [Deliver (NeighborUp []), PutLocal 5 [2], Deliver (Received (encode_slot_frame 3 [1]))]) sample_topic_id) = Ok (Some (5, [2]))"
  using iroh_replicas_converge[of sample_replica sample_topic_id 0 sample_replica 0
      "[PutLocal 3 [1], Deliver (Received (encode_slot_frame 5 [2]))]"
      "[Deliver (NeighborUp []), PutLocal 5 [2], Deliver (Received (encode_slot_frame 3 [1]))]" quiet_gossip quiet_gossip]
  by (simp add: sample_replica_eval sample_iroh_def topic_at_def topic_new_def current_slot_def insert_commute max_def)

text \<open>
  C19: No broadcast is lost while a topic lives. Whatever the order of sends, neighbour events and
  steps of the tasks that flush the buffer, every message the transport took is handed to the overlay
  exactly once, or is in a flush, or waits in the buffer; the buffer never exceeds 64 messages and is
  empty while there is a neighbour.
\<close>

theorem iroh_broadcasts_are_conserved:
  assumes "hm_get (it_topics st) cid = Some a" "topic_at st a = topic_new cid neighbors"
    and "it_flushes st = []" "it_broadcasts st = []"
    and "foldl (iroh_step G cid) (st, []) ops = (st', taken)"
  shows "mset taken = mset (sent_on cid st') + mset (flushing_on cid st') + mset (pending_at a st')
    \<and> length (pending_at a st') \<le> MAX_PENDING_BROADCASTS
    \<and> (ns_neighbors (tp_neighbor_state (topic_at st' a)) = [] \<or> pending_at a st' = [])"
proof -
  have "conserved a cid (st, [])" using assms(1-4)
    by (simp add: conserved_def topic_new_def neighbor_state_new_def buffer_ok_def sent_on_def flushing_on_def pending_at_def)
  from conserved_run[OF this, of G ops] assms(5) show ?thesis
    by (auto simp: conserved_def buffer_ok_def pending_at_def)
qed

theorem iroh_broadcasts_are_conserved_witness:
  "\<exists>st'. foldl (iroh_step quiet_gossip sample_topic_id) (sample_replica, [])
      [SendOp [1], EventOp (NeighborUp [9]), SendOp [2], FlushOp 0] = (st', [[1], [2]])
    \<and> sent_on sample_topic_id st' = [[2], [1]] \<and> flushing_on sample_topic_id st' = [] \<and> pending_at 0 st' = []
    \<and> mset [[1], [2]] = mset (sent_on sample_topic_id st') + mset (flushing_on sample_topic_id st') + mset (pending_at 0 st')"
proof -
  let ?ops = "[SendOp [1], EventOp (NeighborUp [9]), SendOp [2], FlushOp 0]"
  obtain st' taken where run: "foldl (iroh_step quiet_gossip sample_topic_id) (sample_replica, []) ?ops = (st', taken)"
    by fastforce
  have "taken = [[1], [2]] \<and> sent_on sample_topic_id st' = [[2], [1]] \<and> flushing_on sample_topic_id st' = [] \<and> pending_at 0 st' = []"
    using run by (auto simp: sample_replica_eval sample_iroh_def iroh_send_def with_topic_present broadcast_or_buffer_def
        topic_at_def set_topic_def topic_new_def neighbor_state_new_def queue_or_send_def mark_neighbor_up_def mark_up_def
        flush_step_def broadcast_now_def quiet_gossip_def queue_full_def sent_on_def flushing_on_def pending_at_def
        MAX_PENDING_BROADCASTS_def Let_def map_gossip_error_def)
  with run iroh_broadcasts_are_conserved[of sample_replica sample_topic_id 0 "[]" quiet_gossip ?ops st' taken]
  show ?thesis by (auto simp: sample_replica_eval sample_iroh_def topic_at_def)
qed

text \<open>
  A revoked endpoint stays out. When the transport has an allow list, the handshake of a revoked
  endpoint is rejected after any further additions, removals, revocations, handshakes and closed
  connections, until that endpoint itself is allowed again.
\<close>

theorem revoked_endpoint_is_rejected:
  assumes "it_allowed st \<noteq> None" "gs_endpoint_ok G eid"
    and "\<And>peer. AllowOp peer \<in> set ops \<Longrightarrow> ea_endpoint_id peer \<noteq> eid"
  shows "snd (after_handshake eid (foldl (admin_step G) (revoke_peer G eid st) ops)) = Reject 403 ''endpoint not trusted''"
  using shut_out_rejected[OF shut_out_run[OF revoke_shuts_out[OF assms(1,2)] assms(3)]] by simp

theorem revoked_endpoint_is_rejected_witness:
  "snd (after_handshake (replicate 32 2) sample_iroh) = Accept
   \<and> snd (after_handshake (replicate 32 2)
        (foldl (admin_step quiet_gossip) (revoke_peer quiet_gossip (replicate 32 2) sample_iroh)
          [HandshakeOp (replicate 32 2), AddOp \<lparr> ea_endpoint_id = replicate 32 2, ea_relay_urls = [], ea_direct_addrs = [] \<rparr>]))
      = Reject 403 ''endpoint not trusted''"
  using revoked_endpoint_is_rejected[of sample_iroh quiet_gossip "replicate 32 2"
      "[HandshakeOp (replicate 32 2), AddOp \<lparr> ea_endpoint_id = replicate 32 2, ea_relay_urls = [], ea_direct_addrs = [] \<rparr>]"]
  by (simp add: sample_iroh_def quiet_gossip_def after_handshake_def)

text \<open>
  A peer never holds more connections than configured. In every sequence of handshakes, closed
  connections and changes of the peer list, the number of open connections of a peer is at most
  \<open>max_conns_per_peer\<close>; the 32-bit counters do not wrap.
\<close>

theorem iroh_connections_are_bounded:
  assumes "it_active st = []" "foldl (conn_step G) (st, []) ops = (st', conns)"
  shows "count (mset conns) peer \<le> unat (it_max_conns_per_peer st) \<and> unat (active_of st' peer) = count (mset conns) peer"
proof -
  have "conns_ok (it_max_conns_per_peer st) (st, [])" using assms(1) by (simp add: conns_ok_def active_of_def)
  from conns_ok_run[OF this, of G ops] assms(2)
  have "unat (active_of st' peer) = count (mset conns) peer" "active_of st' peer \<le> it_max_conns_per_peer st"
    by (auto simp: conns_ok_def)
  then show ?thesis by (simp add: word_le_nat_alt)
qed

theorem iroh_connections_are_bounded_witness:
  "\<exists>st' conns. foldl (conn_step quiet_gossip) (sample_iroh, []) (replicate 6 (HandshakeOp (replicate 32 2))) = (st', conns)
    \<and> count (mset conns) (replicate 32 2) \<le> 4"
proof -
  obtain st' conns where "foldl (conn_step quiet_gossip) (sample_iroh, []) (replicate 6 (HandshakeOp (replicate 32 2))) = (st', conns)"
    by fastforce
  with iroh_connections_are_bounded[OF _ this, of "replicate 32 2"] show ?thesis
    by (simp add: sample_iroh_def)
qed

text \<open>
  C36: Revoking a peer discards mail. Revocation clears the table of topics, so a message another
  peer had sent, received by the topic and not yet taken by the application, is gone: the same
  receive that would have returned it finds an empty topic. The overlay is only assumed to let the
  channel be subscribed again.
\<close>

theorem revocation_discards_mail:
  assumes "hm_get (it_topics st) cid = Some a" "tp_mailbox (topic_at st a) = sealed # rest" "length cid = 32"
    and "\<And>g peers. \<exists>g' neighbors. gs_subscribe G g cid peers = (g', Ok neighbors)"
    and "\<And>g peers. \<exists>g'. gs_join G g cid peers = (g', Ok ())"
  shows "snd (iroh_recv G (\<lambda>st. st) [] st cid wait) = Ok (Some sealed)
    \<and> snd (iroh_recv G (\<lambda>st. st) [] (revoke_peer G eid st) cid wait) = Ok None"
proof -
  let ?st = "revoke_peer G eid st"
  have none: "it_topics ?st = []" by (simp add: revoke_peer_def reset_topics_def)
  obtain g ns where sub: "gs_subscribe G (it_gossip ?st) cid (bootstrap_peers G ?st) = (g, Ok ns)" using assms(4) by blast
  obtain s b where enter: "enter_topic cid ns (?st\<lparr>it_gossip := g\<rparr>) = (s, b)" by fastforce
  then have empty: "tp_mailbox (topic_at s b) = []"
    by (auto simp: enter_topic_def none set_topic_def topic_at_def topic_new_def Let_def)
  obtain g' where join: "gs_join G (it_gossip s) cid (bootstrap_peers G s) = (g', Ok ())" using assms(5) by blast
  have "snd (iroh_recv G (\<lambda>st. st) [] ?st cid wait) = Ok None"
    using empty assms(3) by (auto simp: iroh_recv_def with_topic_def ensure_topic_def none topic_id_def sub enter join
        recv_mailbox.simps topic_at_def Let_def)
  with assms(1,2) show ?thesis by (simp add: iroh_recv_def with_topic_present recv_mailbox.simps)
qed

definition replica_with_mail :: "unit iroh_transport" where
  "replica_with_mail = topic_event 0 (Received [42]) sample_replica"

theorem revocation_discards_mail_witness:
  "snd (iroh_recv quiet_gossip (\<lambda>st. st) [] replica_with_mail sample_topic_id 0) = Ok (Some [42])
   \<and> snd (iroh_recv quiet_gossip (\<lambda>st. st) [] (revoke_peer quiet_gossip (replicate 32 5) replica_with_mail) sample_topic_id 0) = Ok None"
  using revocation_discards_mail[of replica_with_mail sample_topic_id 0 "[42]" "[]" quiet_gossip 0 "replicate 32 5"]
  by (simp add: replica_with_mail_def sample_replica_eval sample_iroh_def sample_topic_id_def quiet_gossip_def topic_new_def
      decode_slot_frame_def SLOT_HEADER_LEN_def Let_def topic_at_def set_topic_def record_mailbox_def)

text \<open>
  A watch can miss an update. The task reads the current slot and subscribes to updates
  afterwards; a value recorded between the two steps is the current slot, yet the watch does not
  deliver it, however long it runs, until a still newer value arrives.
\<close>

theorem iroh_watch_misses_update:
  fixes since :: u64 and n :: nat
  assumes "tp_slot t \<noteq> Some (version, sealed)" "greater (tp_slot t) (version, sealed) = Some (version, sealed)"
  defines "read \<equiv> iroh_watch_step t (iroh_watch_start since) ReadCurrent"
    and "t' \<equiv> record_slot version sealed t"
  defines "subscribed \<equiv> iroh_watch_step t' read Subscribe"
  shows "current_slot t' = Some (version, sealed)
    \<and> (version, sealed) \<notin> set (iw_delivered (((\<lambda>w. iroh_watch_step t' w (iw_pc w)) ^^ n) subscribed))"
proof -
  have "iroh_watch_step t' subscribed (iw_pc subscribed) = subscribed"
    by (simp add: subscribed_def)
  then have "((\<lambda>w. iroh_watch_step t' w (iw_pc w)) ^^ n) subscribed = subscribed"
    by (induction n) auto
  moreover have "(version, sealed) \<notin> set (iw_delivered subscribed)"
    using assms(1) by (auto simp: subscribed_def read_def iroh_offer_def iroh_watch_start_def current_slot_def split: option.splits)
  ultimately show ?thesis
    using assms(2) by (simp add: t'_def current_slot_def record_slot_greater)
qed

theorem iroh_watch_misses_update_witness:
  "current_slot (record_slot 2 [8] (record_slot 1 [9] (topic_new [] []))) = Some (2, [8])
   \<and> (2, [8]) \<notin> set (iw_delivered (((\<lambda>w. iroh_watch_step (record_slot 2 [8] (record_slot 1 [9] (topic_new [] []))) w (iw_pc w)) ^^ 10)
       (iroh_watch_step (record_slot 2 [8] (record_slot 1 [9] (topic_new [] [])))
         (iroh_watch_step (record_slot 1 [9] (topic_new [] [])) (iroh_watch_start 0) ReadCurrent) Subscribe)))"
  using iroh_watch_misses_update[where t = "record_slot 1 [9] (topic_new [] [])" and version = 2 and sealed = "[8]" and n = 10 and since = 0]
  by (simp add: record_slot_greater topic_new_def greater_def)

end
