(* ===== verification/PeerNamespace.thy ===== *)
theory PeerNamespace
  imports Coordinator PeerEnvelope Iroh
begin

text \<open>
  \<open>PeerNamespace\<close>, \<open>PeerMailbox\<close> and \<open>PeerSlot\<close> of \<open>crates/enlace/src/peer.rs\<close>: the public-key
  namespace with its trusted peers and group keys, and messaging over its transports. What is shared
  behind locks is the record \<open>peer_world\<close>; the transports act on its network. The concurrent tasks
  of a call complete in the order a schedule gives.
\<close>

section \<open>Data\<close>

datatype peer_address = PairwiseAddr bytes | PublisherAddr bytes | GroupAddr bytes

datatype peer_slot_scope = PairwiseScope | PublisherScope bytes | GroupScope bytes

datatype peer_slot_scope_key = PairwiseKey | PublisherKey bytes | GroupKeyScope bytes

text \<open>The calls a namespace makes on its Iroh transport, which is part of the network.\<close>

record 'w iroh_handle =
  ih_allow :: "iroh_endpoint_addr \<Rightarrow> 'w \<Rightarrow> 'w"
  ih_revoke :: "bytes \<Rightarrow> 'w \<Rightarrow> 'w"
  ih_endpoint_addr :: "'w \<Rightarrow> iroh_endpoint_addr"

record 'w peer_config =
  pcf_trusted_peers :: "trusted_peer list"
  pcf_group_keys :: "(bytes \<times> group_key) list"
  pcf_http :: "http_config option"
  pcf_pkarr :: "pkarr_config option"
  pcf_iroh :: "iroh_config option"
  pcf_transports :: "'w configured_transport list"

record ('w, 'st) peer_namespace =
  pn_identity :: peer_identity
  pn_state :: "'st state_store"
  pn_transports :: "'w configured_transport list"
  pn_iroh :: "'w iroh_handle option"

record ('w, 'st) peer_world =
  pw_net :: 'w
  pw_store :: 'st
  pw_trusted :: "(bytes \<times> trusted_peer) list"
  pw_group_keys :: "((bytes \<times> bytes) \<times> group_key) list"

record peer_send_report =
  psr_delivered :: "transport_kind list"
  psr_failed :: "(transport_kind \<times> transport_error) list"

record peer_mailbox_message =
  pmm_sender :: bytes
  pmm_signed_by :: bytes
  pmm_payload :: bytes
  pmm_via :: transport_kind
  pmm_group :: "bytes option"
  pmm_key_id :: "bytes option"

record peer_slot_put_report =
  psp_version :: u64
  psp_stored :: "transport_kind list"
  psp_failed :: "(transport_kind \<times> transport_error) list"

record peer_slot_value =
  psv_version :: u64
  psv_sender :: bytes
  psv_signed_by :: bytes
  psv_payload :: bytes
  psv_via :: transport_kind
  psv_scope :: peer_slot_scope
  psv_key_id :: "bytes option"

section \<open>Addresses and keys\<close>

fun peer_address_domain :: "peer_address \<Rightarrow> string \<times> bytes" where
  "peer_address_domain (PairwiseAddr peer) = (''enlace/v1/pkey/addr/pairwise'', peer)"
| "peer_address_domain (PublisherAddr peer) = (''enlace/v1/pkey/addr/publisher'', peer)"
| "peer_address_domain (GroupAddr grp) = (''enlace/v1/pkey/addr/group'', grp)"

definition peer_address_info :: "peer_address \<Rightarrow> channel_kind \<Rightarrow> string \<Rightarrow> bytes" where
  "peer_address_info address kind name =
    str_bytes (fst (peer_address_domain address) @ channel_kind_str kind @ name)"

definition peer_address_id ::
  "'z suite_scheme \<Rightarrow> peer_address \<Rightarrow> channel_kind \<Rightarrow> string \<Rightarrow> ('e, bytes) res" where
  "peer_address_id S address kind name =
    hkdf_sha256 S (snd (peer_address_domain address)) [] (peer_address_info address kind name) 32"

definition peer_transport_id ::
  "'z suite_scheme \<Rightarrow> transport_kind \<Rightarrow> peer_address \<Rightarrow> channel_kind \<Rightarrow> string \<Rightarrow> ('e, bytes) res" where
  "peer_transport_id S transport address kind name =
    bind_res (peer_address_id S address kind name) (\<lambda>full.
      if transport \<in> {Iroh, Dht, Pkarr} then Ok full
      else Ok (take CHANNEL_ID_LEN full))"

fun peer_slot_state_key :: "string \<Rightarrow> peer_slot_scope_key \<Rightarrow> string" where
  "peer_slot_state_key name PairwiseKey = ''peer-slot'' @ [CHR 0x00] @ ''pairwise'' @ [CHR 0x00] @ name"
| "peer_slot_state_key name (PublisherKey peer) =
    ''peer-slot'' @ [CHR 0x00] @ ''publisher'' @ [CHR 0x00] @ hex_encode peer @ [CHR 0x00] @ name"
| "peer_slot_state_key name (GroupKeyScope grp) =
    ''peer-slot'' @ [CHR 0x00] @ ''group'' @ [CHR 0x00] @ hex_encode grp @ [CHR 0x00] @ name"

definition peer_slot_pair_is_newer :: "u64 \<Rightarrow> bytes \<Rightarrow> u64 \<Rightarrow> bytes \<Rightarrow> bool" where
  "peer_slot_pair_is_newer version bs best_version best_bytes \<longleftrightarrow> (version, bs) > (best_version, best_bytes)"

section \<open>Group keys\<close>

definition add_group_key ::
  "('w, 'st) peer_namespace \<Rightarrow> bytes \<Rightarrow> group_key \<Rightarrow> ('w, 'st) peer_world \<Rightarrow>
    ('w, 'st) peer_world \<times> (group_key_error, unit) res" where
  "add_group_key ns grp key w =
    (case ss_store_group_key (pn_state ns) (pw_store w) grp key of
       (st, Ok _) \<Rightarrow>
         (w\<lparr>pw_store := st, pw_group_keys := hm_insert (grp, gk_id key) key (pw_group_keys w)\<rparr>, Ok ())
     | (st, Err e) \<Rightarrow> (w\<lparr>pw_store := st\<rparr>, Err (GroupKeyState e))
     | (st, Panic) \<Rightarrow> (w\<lparr>pw_store := st\<rparr>, Panic))"

definition remove_group_key ::
  "('w, 'st) peer_namespace \<Rightarrow> bytes \<Rightarrow> bytes \<Rightarrow> ('w, 'st) peer_world \<Rightarrow>
    ('w, 'st) peer_world \<times> (group_key_error, unit) res" where
  "remove_group_key ns grp key_id w =
    (case ss_remove_group_key (pn_state ns) (pw_store w) grp key_id of
       (st, Ok _) \<Rightarrow> (w\<lparr>pw_store := st, pw_group_keys := hm_remove (grp, key_id) (pw_group_keys w)\<rparr>, Ok ())
     | (st, Err e) \<Rightarrow> (w\<lparr>pw_store := st\<rparr>, Err (GroupKeyState e))
     | (st, Panic) \<Rightarrow> (w\<lparr>pw_store := st\<rparr>, Panic))"

definition list_group_keys :: "bytes \<Rightarrow> ('w, 'st) peer_world \<Rightarrow> bytes list" where
  "list_group_keys grp w =
    sort (map snd (filter (\<lambda>(candidate, _). candidate = grp) (map fst (pw_group_keys w))))"

definition group_ids :: "('w, 'st) peer_world \<Rightarrow> bytes list" where
  "group_ids w = remdups_adj (sort (map (\<lambda>((grp, _), _). grp) (pw_group_keys w)))"

definition resolve_group_keys ::
  "(bytes \<times> bytes) list \<Rightarrow> ('w, 'st) peer_world \<Rightarrow> (group_envelope_error, (bytes \<times> group_key) list) res" where
  "resolve_group_keys requested w =
    (if requested = [] then Err NoGroupKeys
     else traverse (\<lambda>(grp, key_id). map_ok (\<lambda>key. (grp, key))
            (ok_or MissingGroupKey (hm_get (pw_group_keys w) (grp, key_id)))) requested)"

definition group_keys_for_envelope ::
  "group_envelope \<Rightarrow> ('w, 'st) peer_world \<Rightarrow> (bytes \<times> group_key) list" where
  "group_keys_for_envelope env w =
    List.map_filter (\<lambda>entry. map_option (\<lambda>key. (ge_group entry, key))
      (hm_get (pw_group_keys w) (ge_group entry, ge_key_id entry))) (gv_entries env)"

section \<open>Trust\<close>

definition trusted_snapshot :: "('w, 'st) peer_world \<Rightarrow> trusted_peer list" where
  "trusted_snapshot w = map snd (pw_trusted w)"

definition update_iroh_trusted_endpoint ::
  "'w iroh_handle option \<Rightarrow> bytes option \<Rightarrow> iroh_endpoint_addr option \<Rightarrow> 'w \<Rightarrow> 'w" where
  "update_iroh_trusted_endpoint iroh old_endpoint_id endpoint n =
    (case iroh of
       None \<Rightarrow> n
     | Some h \<Rightarrow>
         (let n = (case old_endpoint_id of
                     None \<Rightarrow> n
                   | Some old \<Rightarrow>
                       if (case endpoint of None \<Rightarrow> True | Some new \<Rightarrow> ea_endpoint_id new \<noteq> old)
                       then ih_revoke h old n else n)
          in case endpoint of None \<Rightarrow> n | Some e \<Rightarrow> ih_allow h e n))"

definition endpoint_id_of :: "trusted_peer option \<Rightarrow> bytes option" where
  "endpoint_id_of peer =
    Option.bind peer (\<lambda>peer. map_option ea_endpoint_id (card_iroh_endpoint (tp_card peer)))"

definition trust_peer ::
  "'z suite_scheme \<Rightarrow> ('w, 'st) peer_namespace \<Rightarrow> trusted_peer \<Rightarrow> ('w, 'st) peer_world \<Rightarrow>
    ('w, 'st) peer_world \<times> (trust_error, unit) res" where
  "trust_peer S ns peer w =
    (case card_validate S (tp_card peer) of
       Err e \<Rightarrow> (w, Err (InvalidPeerCard e))
     | Panic \<Rightarrow> (w, Panic)
     | Ok _ \<Rightarrow>
         (case ss_store_trusted_peer (pn_state ns) (pw_store w) peer of
            (st, Err e) \<Rightarrow> (w\<lparr>pw_store := st\<rparr>, Err (TrustState e))
          | (st, Panic) \<Rightarrow> (w\<lparr>pw_store := st\<rparr>, Panic)
          | (st, Ok _) \<Rightarrow>
              (let replaced = hm_get (pw_trusted w) (trusted_peer_id peer)
               in (w\<lparr>pw_store := st,
                     pw_trusted := hm_insert (trusted_peer_id peer) peer (pw_trusted w),
                     pw_net := update_iroh_trusted_endpoint (pn_iroh ns) (endpoint_id_of replaced)
                       (card_iroh_endpoint (tp_card peer)) (pw_net w)\<rparr>, Ok ()))))"

definition remove_trusted_peer ::
  "('w, 'st) peer_namespace \<Rightarrow> bytes \<Rightarrow> ('w, 'st) peer_world \<Rightarrow> ('w, 'st) peer_world \<times> (trust_error, unit) res" where
  "remove_trusted_peer ns peer w =
    (case ss_remove_trusted_peer (pn_state ns) (pw_store w) peer of
       (st, Err e) \<Rightarrow> (w\<lparr>pw_store := st\<rparr>, Err (TrustState e))
     | (st, Panic) \<Rightarrow> (w\<lparr>pw_store := st\<rparr>, Panic)
     | (st, Ok _) \<Rightarrow>
         (let removed = hm_get (pw_trusted w) peer
          in (w\<lparr>pw_store := st, pw_trusted := hm_remove peer (pw_trusted w),
                pw_net := update_iroh_trusted_endpoint (pn_iroh ns) (endpoint_id_of removed) None (pw_net w)\<rparr>, Ok ())))"

definition trusted_peers :: "('w, 'st) peer_world \<Rightarrow> peer_card list" where
  "trusted_peers w = sort_key card_peer_id (map (\<lambda>(_, peer). tp_card peer) (pw_trusted w))"

section \<open>Opening a namespace\<close>

fun upsert_iroh_peer :: "iroh_endpoint_addr list \<Rightarrow> iroh_endpoint_addr \<Rightarrow> iroh_endpoint_addr list" where
  "upsert_iroh_peer [] peer = [peer]"
| "upsert_iroh_peer (existing # peers) peer =
    (if ea_endpoint_id existing = ea_endpoint_id peer then peer # peers else existing # upsert_iroh_peer peers peer)"

definition trusted_iroh_endpoints :: "trusted_peer list \<Rightarrow> iroh_endpoint_addr list" where
  "trusted_iroh_endpoints trusted = List.map_filter (\<lambda>peer. card_iroh_endpoint (tp_card peer)) trusted"

text \<open>The constructors of the built-in transports, on the network they will use.\<close>

record ('w, 'st) transport_builders =
  tb_http :: "http_config \<Rightarrow> 'w \<Rightarrow> 'w \<times> (transport_error, 'w transport) res"
  tb_pkarr :: "bytes \<Rightarrow> pkarr_config \<Rightarrow> 'w \<Rightarrow> 'w \<times> (transport_error, 'w transport) res"
  tb_iroh :: "iroh_config \<Rightarrow> bytes list option \<Rightarrow> 'w \<Rightarrow> 'st \<Rightarrow>
    'w \<times> 'st \<times> (iroh_init_error, 'w transport \<times> 'w iroh_handle) res"

fun iroh_open_error :: "iroh_init_error \<Rightarrow> open_error" where
  "iroh_open_error (InitState err) = OpenState err"
| "iroh_open_error (InitTransport err) = TransportInit Iroh (transport_error_display err)"

definition open_peer_iroh_transport ::
  "('w, 'st) transport_builders \<Rightarrow> 'w peer_config \<Rightarrow> 'w \<Rightarrow> 'st \<Rightarrow>
    'w \<times> 'st \<times> (open_error, ('w transport \<times> 'w iroh_handle) option) res" where
  "open_peer_iroh_transport B config n st =
    (case pcf_iroh config of
       None \<Rightarrow> (n, st, Ok None)
     | Some iroh_config \<Rightarrow>
         (let trusted_endpoints = trusted_iroh_endpoints (pcf_trusted_peers config);
              iroh_config = iroh_config\<lparr>ic_peers := foldl upsert_iroh_peer (ic_peers iroh_config) trusted_endpoints\<rparr>;
              allowed = (if trusted_endpoints = [] then None else Some (map ea_endpoint_id trusted_endpoints))
          in case tb_iroh B iroh_config allowed n st of
               (n, st, r) \<Rightarrow> (n, st, map_err iroh_open_error (map_ok Some r))))"

text \<open>The built-in transports in the order the code opens them; the first failure ends the call.\<close>

definition open_builtin ::
  "transport_kind \<Rightarrow> ('c \<Rightarrow> 'w \<Rightarrow> 'w \<times> (transport_error, 'w transport) res) \<Rightarrow> 'c option \<Rightarrow> 'w \<Rightarrow>
    'w \<times> (open_error, 'w configured_transport list) res" where
  "open_builtin kind build config n =
    (case config of
       None \<Rightarrow> (n, Ok [])
     | Some c \<Rightarrow>
         (case build c n of
            (n, r) \<Rightarrow>
              (n, map_err (\<lambda>err. TransportInit kind (transport_error_display err))
                    (map_ok (\<lambda>t. [\<lparr> ct_kind = kind, ct_transport = t \<rparr>]) r))))"

definition open_transports ::
  "'z suite_scheme \<Rightarrow> ('w, 'st) transport_builders \<Rightarrow> peer_identity \<Rightarrow> 'w peer_config \<Rightarrow> 'w \<Rightarrow> 'st \<Rightarrow>
    'w \<times> 'st \<times> (open_error, 'w configured_transport list \<times> 'w iroh_handle option) res" where
  "open_transports S B identity config n st =
    (case open_builtin Http (tb_http B) (pcf_http config) n of
       (n, Err e) \<Rightarrow> (n, st, Err e)
     | (n, Panic) \<Rightarrow> (n, st, Panic)
     | (n, Ok http) \<Rightarrow>
         (case open_builtin Pkarr (tb_pkarr B (identity_peer_id S identity)) (pcf_pkarr config) n of
            (n, Err e) \<Rightarrow> (n, st, Err e)
          | (n, Panic) \<Rightarrow> (n, st, Panic)
          | (n, Ok pkarr) \<Rightarrow>
              (case open_peer_iroh_transport B config n st of
                 (n, st, r) \<Rightarrow>
                   (n, st,
                    map_ok (\<lambda>iroh.
                      (http @ pkarr
                        @ (case iroh of None \<Rightarrow> [] | Some (t, _) \<Rightarrow> [\<lparr> ct_kind = Iroh, ct_transport = t \<rparr>])
                        @ pcf_transports config,
                       map_option snd iroh)) r))))"

text \<open>The two loops at the end of \<open>open\<close>: the configured trust is kept in memory, the keys are stored.\<close>

fun seed_trusted ::
  "'z suite_scheme \<Rightarrow> trusted_peer list \<Rightarrow> ('w, 'st) peer_world \<Rightarrow> ('w, 'st) peer_world \<times> (open_error, unit) res" where
  "seed_trusted S [] w = (w, Ok ())"
| "seed_trusted S (trusted # rest) w =
    (case card_validate S (tp_card trusted) of
       Err err \<Rightarrow> (w, Err (OpenState (StateCorrupted (peer_card_error_display err))))
     | Panic \<Rightarrow> (w, Panic)
     | Ok _ \<Rightarrow> seed_trusted S rest (w\<lparr>pw_trusted := hm_insert (trusted_peer_id trusted) trusted (pw_trusted w)\<rparr>))"

fun seed_group_keys ::
  "('w, 'st) peer_namespace \<Rightarrow> (bytes \<times> group_key) list \<Rightarrow> ('w, 'st) peer_world \<Rightarrow>
    ('w, 'st) peer_world \<times> (open_error, unit) res" where
  "seed_group_keys ns [] w = (w, Ok ())"
| "seed_group_keys ns ((grp, key) # rest) w =
    (case add_group_key ns grp key w of
       (w, Ok _) \<Rightarrow> seed_group_keys ns rest w
     | (w, Err (GroupKeyState err)) \<Rightarrow> (w, Err (OpenState err))
     | (w, Panic) \<Rightarrow> (w, Panic))"

definition peer_namespace_open ::
  "'z suite_scheme \<Rightarrow> ('w, 'st) transport_builders \<Rightarrow> 'st state_store \<Rightarrow> peer_identity \<Rightarrow> 'w peer_config \<Rightarrow>
    'w \<Rightarrow> 'st \<Rightarrow> ('w, 'st) peer_world \<times> (open_error, ('w, 'st) peer_namespace) res" where
  "peer_namespace_open S B store identity config n st =
    (case open_transports S B identity config n st of
       (n, st, r) \<Rightarrow>
         (let w = \<lparr> pw_net = n, pw_store = st, pw_trusted = [], pw_group_keys = [] \<rparr>
          in case r of
               Err e \<Rightarrow> (w, Err e)
             | Panic \<Rightarrow> (w, Panic)
             | Ok (transports, iroh) \<Rightarrow>
                 (let ns = \<lparr> pn_identity = identity, pn_state = store, pn_transports = transports, pn_iroh = iroh \<rparr>
                  in case seed_trusted S (pcf_trusted_peers config) w of
                       (w, Err e) \<Rightarrow> (w, Err e)
                     | (w, Panic) \<Rightarrow> (w, Panic)
                     | (w, Ok _) \<Rightarrow>
                         (case seed_group_keys ns (pcf_group_keys config) w of
                            (w, r) \<Rightarrow> (w, map_ok (\<lambda>_. ns) r)))))"

definition namespace_peer_id :: "'z suite_scheme \<Rightarrow> ('w, 'st) peer_namespace \<Rightarrow> bytes" where
  "namespace_peer_id S ns = identity_peer_id S (pn_identity ns)"

definition namespace_card :: "'z suite_scheme \<Rightarrow> ('w, 'st) peer_namespace \<Rightarrow> peer_card" where
  "namespace_card S ns = identity_card S (pn_identity ns)"

definition iroh_endpoint_addr_of :: "('w, 'st) peer_namespace \<Rightarrow> ('w, 'st) peer_world \<Rightarrow> iroh_endpoint_addr option" where
  "iroh_endpoint_addr_of ns w = map_option (\<lambda>h. ih_endpoint_addr h (pw_net w)) (pn_iroh ns)"

section \<open>Group envelopes of a namespace\<close>

definition seal_group_envelope ::
  "'z envelope_env_scheme \<Rightarrow> (nat \<Rightarrow> bytes) \<Rightarrow> ('w, 'st) peer_namespace \<Rightarrow> channel_kind \<Rightarrow> string \<Rightarrow> bytes \<Rightarrow>
    (bytes \<times> bytes) list \<Rightarrow> ('w, 'st) peer_world \<Rightarrow> (group_envelope_error, group_envelope) res" where
  "seal_group_envelope E rng ns kind name payload requested w =
    bind_res (resolve_group_keys requested w) (\<lambda>keys. group_seal E rng (pn_identity ns) kind name payload keys)"

definition open_group_envelope ::
  "'z envelope_env_scheme \<Rightarrow> group_envelope \<Rightarrow> channel_kind \<Rightarrow> string \<Rightarrow> trusted_peer list \<Rightarrow> ('w, 'st) peer_world \<Rightarrow>
    (group_envelope_error, group_envelope_message) res" where
  "open_group_envelope E env kind name trusted w =
    group_open E kind name trusted (group_keys_for_envelope env w) env"

definition open_group_envelope_or_drop ::
  "'z envelope_env_scheme \<Rightarrow> bytes \<Rightarrow> channel_kind \<Rightarrow> string \<Rightarrow> trusted_peer list \<Rightarrow> ('w, 'st) peer_world \<Rightarrow>
    ('e, group_envelope_message option) res" where
  "open_group_envelope_or_drop E bs kind name trusted w =
    res_ok (bind_res (group_from_bytes E bs) (\<lambda>env. open_group_envelope E env kind name trusted w))"

section \<open>Mailboxes\<close>

text \<open>A mailbox is a checked name with its own buffer of recent messages; a slot is a checked name.\<close>

definition namespace_mailbox :: "'c lru \<Rightarrow> string \<Rightarrow> (name_error, string \<times> 'c dedup) res" where
  "namespace_mailbox L name = map_ok (\<lambda>_. (name, dedup_new L DEFAULT_CAPACITY)) (validate_name name)"

definition namespace_slot :: "string \<Rightarrow> (name_error, string) res" where
  "namespace_slot name = map_ok (\<lambda>_. name) (validate_name name)"

definition peer_tasks ::
  "'z suite_scheme \<Rightarrow> ('w, 'st) peer_namespace \<Rightarrow> peer_address list \<Rightarrow> channel_kind \<Rightarrow> string \<Rightarrow>
    ('e, ('w task \<times> peer_address) list) res" where
  "peer_tasks S ns addresses kind name =
    traverse (\<lambda>(endpoint, address). map_ok (\<lambda>cid. ((endpoint, cid), address))
      (peer_transport_id S (ct_kind endpoint) address kind name)) (List.product (pn_transports ns) addresses)"

type_synonym 'w peer_schedule = "('w task \<times> peer_address) list \<Rightarrow> ('w task \<times> peer_address) list"

definition peer_fair :: "'w peer_schedule \<Rightarrow> bool" where
  "peer_fair sched \<longleftrightarrow> (\<forall>ts. mset (sched ts) = mset ts)"

fun run_peer_tasks ::
  "('w transport \<Rightarrow> 'w \<Rightarrow> bytes \<Rightarrow> 'w \<times> 'r) \<Rightarrow> ('w task \<times> peer_address) list \<Rightarrow> 'w \<Rightarrow> 'w \<times> (transport_kind \<times> 'r) list" where
  "run_peer_tasks call [] n = (n, [])"
| "run_peer_tasks call (((endpoint, cid), _) # ts) n =
    (let (n, r) = call (ct_transport endpoint) n cid; (n, rs) = run_peer_tasks call ts n
     in (n, (ct_kind endpoint, r) # rs))"

fun collect_peer_results ::
  "(transport_kind \<times> (transport_error, unit) res) list \<Rightarrow> transport_kind list \<Rightarrow> (transport_kind \<times> transport_error) list \<Rightarrow>
    ('e, transport_kind list \<times> (transport_kind \<times> transport_error) list) res" where
  "collect_peer_results [] delivered failed = Ok (delivered, failed)"
| "collect_peer_results ((kind, Ok _) # rs) delivered failed = collect_peer_results rs (delivered @ [kind]) failed"
| "collect_peer_results ((kind, Err err) # rs) delivered failed = collect_peer_results rs delivered (failed @ [(kind, err)])"
| "collect_peer_results ((kind, Panic) # rs) delivered failed = Panic"

definition send_bytes ::
  "'z suite_scheme \<Rightarrow> ('w, 'st) peer_namespace \<Rightarrow> 'w peer_schedule \<Rightarrow> string \<Rightarrow> peer_address list \<Rightarrow> bytes \<Rightarrow>
    ('w, 'st) peer_world \<Rightarrow> ('w, 'st) peer_world \<times> (peer_send_error, peer_send_report) res" where
  "send_bytes S ns sched name addresses bs w =
    (case peer_tasks S ns addresses Mailbox name of
       Ok tasks \<Rightarrow>
         (let (n, rs) = run_peer_tasks (\<lambda>t n cid. t_send t n cid bs) (sched tasks) (pw_net w)
          in (w\<lparr>pw_net := n\<rparr>,
              bind_res (collect_peer_results rs [] []) (\<lambda>(delivered, failed).
                if delivered = [] then Err (PeerSendAllFailed failed)
                else Ok \<lparr> psr_delivered = delivered, psr_failed = failed \<rparr>)))
     | Err e \<Rightarrow> (w, Err e)
     | Panic \<Rightarrow> (w, Panic))"

definition send_to_peers ::
  "'z envelope_env_scheme \<Rightarrow> (nat \<Rightarrow> bytes) \<Rightarrow> ('w, 'st) peer_namespace \<Rightarrow> 'w peer_schedule \<Rightarrow> string \<Rightarrow>
    peer_card list \<Rightarrow> bytes \<Rightarrow> ('w, 'st) peer_world \<Rightarrow> ('w, 'st) peer_world \<times> (peer_send_error, peer_send_report) res" where
  "send_to_peers E rng ns sched name recipients payload w =
    (case map_err SendPeerEnvelope
        (bind_res (peer_seal E rng (pn_identity ns) Mailbox name payload recipients) (peer_to_bytes E)) of
       Ok bs \<Rightarrow> send_bytes E ns sched name (map (\<lambda>c. PairwiseAddr (card_peer_id c)) recipients) bs w
     | Err e \<Rightarrow> (w, Err e)
     | Panic \<Rightarrow> (w, Panic))"

definition send_to_group ::
  "'z envelope_env_scheme \<Rightarrow> (nat \<Rightarrow> bytes) \<Rightarrow> ('w, 'st) peer_namespace \<Rightarrow> 'w peer_schedule \<Rightarrow> string \<Rightarrow>
    bytes \<Rightarrow> bytes list \<Rightarrow> bytes \<Rightarrow> ('w, 'st) peer_world \<Rightarrow> ('w, 'st) peer_world \<times> (peer_send_error, peer_send_report) res" where
  "send_to_group E rng ns sched name grp key_ids payload w =
    (case map_err SendGroupEnvelope
        (bind_res (seal_group_envelope E rng ns Mailbox name payload (map (Pair grp) key_ids) w) (group_to_bytes E)) of
       Ok bs \<Rightarrow> send_bytes E ns sched name [GroupAddr grp] bs w
     | Err e \<Rightarrow> (w, Err e)
     | Panic \<Rightarrow> (w, Panic))"

definition recv_addresses :: "'z suite_scheme \<Rightarrow> ('w, 'st) peer_namespace \<Rightarrow> ('w, 'st) peer_world \<Rightarrow> peer_address list" where
  "recv_addresses S ns w = PairwiseAddr (namespace_peer_id S ns) # map GroupAddr (group_ids w)"

fun open_message ::
  "'z envelope_env_scheme \<Rightarrow> ('w, 'st) peer_namespace \<Rightarrow> string \<Rightarrow> transport_kind \<Rightarrow> ('w, 'st) peer_world \<Rightarrow> bytes \<Rightarrow>
    peer_address \<Rightarrow> (recv_error, peer_mailbox_message option) res" where
  "open_message E ns name via w bs (GroupAddr _) =
    map_ok (map_option (\<lambda>m.
        \<lparr> pmm_sender = gem_sender m, pmm_signed_by = gem_signed_by m, pmm_payload = gem_payload m, pmm_via = via,
          pmm_group = Some (gem_group m), pmm_key_id = Some (gem_key_id m) \<rparr>))
      (open_group_envelope_or_drop E bs Mailbox name (trusted_snapshot w) w)"
| "open_message E ns name via w bs _ =
    map_ok (map_option (\<lambda>m.
        \<lparr> pmm_sender = pem_sender m, pmm_signed_by = pem_signed_by m, pmm_payload = pem_payload m, pmm_via = via,
          pmm_group = None, pmm_key_id = None \<rparr>))
      (peer_open_bytes_or_drop E bs (pn_identity ns) Mailbox name (trusted_snapshot w))"

datatype peer_round = PeerGot peer_mailbox_message | PeerDone bool | PeerRoundPanic

fun peer_recv_round ::
  "'z envelope_env_scheme \<Rightarrow> 'c lru \<Rightarrow> ('w, 'st) peer_namespace \<Rightarrow> string \<Rightarrow> duration \<Rightarrow>
    ('w task \<times> peer_address) list \<Rightarrow> ('w, 'st) peer_world \<Rightarrow> 'c dedup \<Rightarrow> bool \<Rightarrow>
    ('w, 'st) peer_world \<times> 'c dedup \<times> peer_round" where
  "peer_recv_round E L ns name wait [] w d responded = (w, d, PeerDone responded)"
| "peer_recv_round E L ns name wait (((endpoint, cid), address) # ts) w d responded =
    (let (n, r) = t_recv (ct_transport endpoint) (pw_net w) cid wait; w = w\<lparr>pw_net := n\<rparr>
     in case r of
          Ok (Some bs) \<Rightarrow>
            (let (d, duplicate) = observe E L d bs in
             if duplicate then peer_recv_round E L ns name wait ts w d True
             else case open_message E ns name (ct_kind endpoint) w bs address of
                    Ok (Some message) \<Rightarrow> (w, d, PeerGot message)
                  | Panic \<Rightarrow> (w, d, PeerRoundPanic)
                  | _ \<Rightarrow> peer_recv_round E L ns name wait ts w d True)
        | Ok None \<Rightarrow> peer_recv_round E L ns name wait ts w d True
        | Err _ \<Rightarrow> peer_recv_round E L ns name wait ts w d responded
        | Panic \<Rightarrow> (w, d, PeerRoundPanic))"

text \<open>
  The loop of \<open>recv_timeout\<close>. A round comes with its schedule and with what other parties, this
  namespace included, did before it; \<open>None\<close> means that the rounds given do not end the call.
\<close>

fun peer_recv_timeout ::
  "'z envelope_env_scheme \<Rightarrow> 'c lru \<Rightarrow> ('w, 'st) peer_namespace \<Rightarrow> string \<Rightarrow> duration \<Rightarrow>
    ('w peer_schedule \<times> (('w, 'st) peer_world \<Rightarrow> ('w, 'st) peer_world)) list \<Rightarrow> ('w, 'st) peer_world \<Rightarrow> 'c dedup \<Rightarrow>
    ('w, 'st) peer_world \<times> 'c dedup \<times> (recv_error, peer_mailbox_message) res option" where
  "peer_recv_timeout E L ns name wait [] w d = (w, d, None)"
| "peer_recv_timeout E L ns name wait ((sched, others) # rounds) w d =
    (let w = others w in
     case peer_tasks E ns (recv_addresses E ns w) Mailbox name of
       Err e \<Rightarrow> (w, d, Some (Err e))
     | Panic \<Rightarrow> (w, d, Some Panic)
     | Ok ts \<Rightarrow>
         (case peer_recv_round E L ns name wait (sched ts) w d False of
            (w, d, PeerGot m) \<Rightarrow> (w, d, Some (Ok m))
          | (w, d, PeerRoundPanic) \<Rightarrow> (w, d, Some Panic)
          | (w, d, PeerDone responded) \<Rightarrow>
              if wait = 0 then (w, d, Some (Err Closed))
              else peer_recv_timeout E L ns name wait rounds w d))"

section \<open>Slots\<close>

definition peer_next_version ::
  "('w, 'st) peer_namespace \<Rightarrow> string \<Rightarrow> peer_slot_scope_key \<Rightarrow> ('w, 'st) peer_world \<Rightarrow>
    ('w, 'st) peer_world \<times> (peer_slot_error, u64) res" where
  "peer_next_version ns name scope w =
    (case ss_next_local_slot_version (pn_state ns) (pw_store w) (peer_slot_state_key name scope) of
       (st, r) \<Rightarrow> (w\<lparr>pw_store := st\<rparr>, map_err PeerSlotState r))"

definition put_bytes ::
  "'z suite_scheme \<Rightarrow> ('w, 'st) peer_namespace \<Rightarrow> 'w peer_schedule \<Rightarrow> string \<Rightarrow> peer_address list \<Rightarrow> u64 \<Rightarrow> bytes \<Rightarrow>
    ('w, 'st) peer_world \<Rightarrow> ('w, 'st) peer_world \<times> (peer_slot_error, peer_slot_put_report) res" where
  "put_bytes S ns sched name addresses version bs w =
    (case peer_tasks S ns addresses Slot name of
       Ok tasks \<Rightarrow>
         (let (n, rs) = run_peer_tasks (\<lambda>t n cid. t_put t n cid version bs) (sched tasks) (pw_net w)
          in (w\<lparr>pw_net := n\<rparr>,
              bind_res (collect_peer_results rs [] []) (\<lambda>(stored, failed).
                if stored = [] then Err (PeerSlotAllFailed failed)
                else Ok \<lparr> psp_version = version, psp_stored = stored, psp_failed = failed \<rparr>)))
     | Err e \<Rightarrow> (w, Err e)
     | Panic \<Rightarrow> (w, Panic))"

text \<open>The common shape of the three \<open>put\<close> methods: a version for the scope, the sealed bytes, the fan-out.\<close>

definition put_scoped ::
  "'z envelope_env_scheme \<Rightarrow> ('w, 'st) peer_namespace \<Rightarrow> 'w peer_schedule \<Rightarrow> string \<Rightarrow> peer_slot_scope_key \<Rightarrow>
    peer_address list \<Rightarrow> (bytes \<Rightarrow> ('w, 'st) peer_world \<Rightarrow> (peer_slot_error, bytes) res) \<Rightarrow> bytes \<Rightarrow>
    ('w, 'st) peer_world \<Rightarrow> ('w, 'st) peer_world \<times> (peer_slot_error, peer_slot_put_report) res" where
  "put_scoped E ns sched name scope addresses sealing payload w =
    (case peer_next_version ns name scope w of
       (w, Err e) \<Rightarrow> (w, Err e)
     | (w, Panic) \<Rightarrow> (w, Panic)
     | (w, Ok version) \<Rightarrow>
         (case bind_res (encode_peer_slot_payload E version payload) (\<lambda>inn. sealing inn w) of
            Ok bs \<Rightarrow> put_bytes E ns sched name addresses version bs w
          | Err e \<Rightarrow> (w, Err e)
          | Panic \<Rightarrow> (w, Panic)))"

definition seal_slot_for_peers ::
  "'z envelope_env_scheme \<Rightarrow> (nat \<Rightarrow> bytes) \<Rightarrow> ('w, 'st) peer_namespace \<Rightarrow> string \<Rightarrow> peer_card list \<Rightarrow> bytes \<Rightarrow>
    ('w, 'st) peer_world \<Rightarrow> (peer_slot_error, bytes) res" where
  "seal_slot_for_peers E rng ns name recipients payload w =
    map_err SlotPeerEnvelope (bind_res (peer_seal E rng (pn_identity ns) Slot name payload recipients) (peer_to_bytes E))"

definition put_for_peers ::
  "'z envelope_env_scheme \<Rightarrow> (nat \<Rightarrow> bytes) \<Rightarrow> ('w, 'st) peer_namespace \<Rightarrow> 'w peer_schedule \<Rightarrow> string \<Rightarrow> peer_card list \<Rightarrow>
    bytes \<Rightarrow> ('w, 'st) peer_world \<Rightarrow> ('w, 'st) peer_world \<times> (peer_slot_error, peer_slot_put_report) res" where
  "put_for_peers E rng ns sched name recipients payload w =
    put_scoped E ns sched name PairwiseKey (map (\<lambda>c. PairwiseAddr (card_peer_id c)) recipients)
      (seal_slot_for_peers E rng ns name recipients) payload w"

definition put_publisher_for_peers ::
  "'z envelope_env_scheme \<Rightarrow> (nat \<Rightarrow> bytes) \<Rightarrow> ('w, 'st) peer_namespace \<Rightarrow> 'w peer_schedule \<Rightarrow> string \<Rightarrow> peer_card list \<Rightarrow>
    bytes \<Rightarrow> ('w, 'st) peer_world \<Rightarrow> ('w, 'st) peer_world \<times> (peer_slot_error, peer_slot_put_report) res" where
  "put_publisher_for_peers E rng ns sched name recipients payload w =
    (let publisher = namespace_peer_id E ns
     in put_scoped E ns sched name (PublisherKey publisher) [PublisherAddr publisher]
          (seal_slot_for_peers E rng ns name recipients) payload w)"

definition put_group ::
  "'z envelope_env_scheme \<Rightarrow> (nat \<Rightarrow> bytes) \<Rightarrow> ('w, 'st) peer_namespace \<Rightarrow> 'w peer_schedule \<Rightarrow> string \<Rightarrow> bytes \<Rightarrow> bytes list \<Rightarrow>
    bytes \<Rightarrow> ('w, 'st) peer_world \<Rightarrow> ('w, 'st) peer_world \<times> (peer_slot_error, peer_slot_put_report) res" where
  "put_group E rng ns sched name grp key_ids payload w =
    put_scoped E ns sched name (GroupKeyScope grp) [GroupAddr grp]
      (\<lambda>inn w. map_err SlotGroupEnvelope
        (bind_res (seal_group_envelope E rng ns Slot name inn (map (Pair grp) key_ids) w) (group_to_bytes E))) payload w"

fun open_slot_value ::
  "'z envelope_env_scheme \<Rightarrow> ('w, 'st) peer_namespace \<Rightarrow> string \<Rightarrow> transport_kind \<Rightarrow> peer_slot_scope \<Rightarrow>
    ('w, 'st) peer_world \<Rightarrow> bytes \<Rightarrow> peer_address \<Rightarrow> (peer_slot_error, peer_slot_value option) res" where
  "open_slot_value E ns name via scope w bs (GroupAddr _) =
    bind_res (open_group_envelope_or_drop E bs Slot name (trusted_snapshot w) w) (\<lambda>m.
      case m of
        None \<Rightarrow> Ok None
      | Some m \<Rightarrow>
          map_ok (map_option (\<lambda>(version, payload).
              \<lparr> psv_version = version, psv_sender = gem_sender m, psv_signed_by = gem_signed_by m, psv_payload = payload,
                psv_via = via, psv_scope = scope, psv_key_id = Some (gem_key_id m) \<rparr>))
            (res_ok (decode_peer_slot_payload E (gem_payload m))))"
| "open_slot_value E ns name via scope w bs _ =
    bind_res (peer_open_bytes_or_drop E bs (pn_identity ns) Slot name (trusted_snapshot w)) (\<lambda>m.
      case m of
        None \<Rightarrow> Ok None
      | Some m \<Rightarrow>
          map_ok (map_option (\<lambda>(version, payload).
              \<lparr> psv_version = version, psv_sender = pem_sender m, psv_signed_by = pem_signed_by m, psv_payload = payload,
                psv_via = via, psv_scope = scope, psv_key_id = None \<rparr>))
            (res_ok (decode_peer_slot_payload E (pem_payload m))))"

text \<open>The loop of \<open>get_address\<close> over the completed tasks.\<close>

fun pick_best_peer ::
  "'z envelope_env_scheme \<Rightarrow> ('w, 'st) peer_namespace \<Rightarrow> string \<Rightarrow> peer_address \<Rightarrow> peer_slot_scope \<Rightarrow> ('w, 'st) peer_world \<Rightarrow>
    (transport_kind \<times> (transport_error, (u64 \<times> bytes) option) res) list \<Rightarrow> nat \<Rightarrow> (transport_kind \<times> transport_error) list \<Rightarrow>
    (u64 \<times> bytes \<times> peer_slot_value) option \<Rightarrow>
    (peer_slot_error, nat \<times> (transport_kind \<times> transport_error) list \<times> (u64 \<times> bytes \<times> peer_slot_value) option) res" where
  "pick_best_peer E ns name address scope w [] ok_count failures best = Ok (ok_count, failures, best)"
| "pick_best_peer E ns name address scope w ((kind, Ok None) # rs) ok_count failures best =
    pick_best_peer E ns name address scope w rs (ok_count + 1) failures best"
| "pick_best_peer E ns name address scope w ((kind, Ok (Some (_, bs))) # rs) ok_count failures best =
    (case open_slot_value E ns name kind scope w bs address of
       Ok (Some val) \<Rightarrow>
         pick_best_peer E ns name address scope w rs (ok_count + 1) failures
           (if (case best of
                  None \<Rightarrow> True
                | Some (best_version, best_bytes, _) \<Rightarrow>
                    peer_slot_pair_is_newer (psv_version val) bs best_version best_bytes)
            then Some (psv_version val, bs, val) else best)
     | Panic \<Rightarrow> Panic
     | _ \<Rightarrow> pick_best_peer E ns name address scope w rs (ok_count + 1) failures best)"
| "pick_best_peer E ns name address scope w ((kind, Err err) # rs) ok_count failures best =
    pick_best_peer E ns name address scope w rs ok_count (failures @ [(kind, err)]) best"
| "pick_best_peer E ns name address scope w ((kind, Panic) # rs) ok_count failures best = Panic"

definition get_address ::
  "'z envelope_env_scheme \<Rightarrow> ('w, 'st) peer_namespace \<Rightarrow> 'w peer_schedule \<Rightarrow> string \<Rightarrow> peer_address \<Rightarrow> peer_slot_scope \<Rightarrow>
    ('w, 'st) peer_world \<Rightarrow> ('w, 'st) peer_world \<times> (peer_slot_error, peer_slot_value option) res" where
  "get_address E ns sched name address scope w =
    (case peer_tasks E ns [address] Slot name of
       Ok tasks \<Rightarrow>
         (let (n, rs) = run_peer_tasks t_get (sched tasks) (pw_net w); w = w\<lparr>pw_net := n\<rparr>
          in (w, bind_res (pick_best_peer E ns name address scope w rs 0 [] None) (\<lambda>(ok_count, failures, best).
                   if ok_count = 0 \<and> failures \<noteq> [] then Err (PeerSlotAllFailed failures)
                   else Ok (map_option (\<lambda>(_, _, val). val) best))))
     | Err e \<Rightarrow> (w, Err e)
     | Panic \<Rightarrow> (w, Panic))"

definition get_pairwise ::
  "'z envelope_env_scheme \<Rightarrow> ('w, 'st) peer_namespace \<Rightarrow> 'w peer_schedule \<Rightarrow> string \<Rightarrow>
    ('w, 'st) peer_world \<Rightarrow> ('w, 'st) peer_world \<times> (peer_slot_error, peer_slot_value option) res" where
  "get_pairwise E ns sched name w = get_address E ns sched name (PairwiseAddr (namespace_peer_id E ns)) PairwiseScope w"

definition get_publisher ::
  "'z envelope_env_scheme \<Rightarrow> ('w, 'st) peer_namespace \<Rightarrow> 'w peer_schedule \<Rightarrow> string \<Rightarrow> bytes \<Rightarrow>
    ('w, 'st) peer_world \<Rightarrow> ('w, 'st) peer_world \<times> (peer_slot_error, peer_slot_value option) res" where
  "get_publisher E ns sched name publisher w =
    get_address E ns sched name (PublisherAddr publisher) (PublisherScope publisher) w"

definition get_group ::
  "'z envelope_env_scheme \<Rightarrow> ('w, 'st) peer_namespace \<Rightarrow> 'w peer_schedule \<Rightarrow> string \<Rightarrow> bytes \<Rightarrow>
    ('w, 'st) peer_world \<Rightarrow> ('w, 'st) peer_world \<times> (peer_slot_error, peer_slot_value option) res" where
  "get_group E ns sched name grp w = get_address E ns sched name (GroupAddr grp) (GroupScope grp) w"

section \<open>Well-formed worlds\<close>

text \<open>
  The tables are maps, every trusted peer is filed under its own id with a card that validates, and
  every group key under its own key id.
\<close>

definition world_wf :: "'z suite_scheme \<Rightarrow> ('w, 'st) peer_world \<Rightarrow> bool" where
  "world_wf S w \<longleftrightarrow>
    hm_ok (pw_trusted w) \<and> hm_ok (pw_group_keys w)
    \<and> (\<forall>p t. hm_get (pw_trusted w) p = Some t \<longrightarrow> trusted_peer_id t = p \<and> card_validate S (tp_card t) = Ok ())
    \<and> (\<forall>g k key. hm_get (pw_group_keys w) (g, k) = Some key \<longrightarrow> gk_id key = k)"

datatype namespace_op =
  TrustOp trusted_peer | UntrustOp bytes | AddKeyOp bytes group_key | RemoveKeyOp bytes bytes

fun namespace_step ::
  "'z suite_scheme \<Rightarrow> ('w, 'st) peer_namespace \<Rightarrow> ('w, 'st) peer_world \<Rightarrow> namespace_op \<Rightarrow> ('w, 'st) peer_world" where
  "namespace_step S ns w (TrustOp peer) = fst (trust_peer S ns peer w)"
| "namespace_step S ns w (UntrustOp p) = fst (remove_trusted_peer ns p w)"
| "namespace_step S ns w (AddKeyOp g key) = fst (add_group_key ns g key w)"
| "namespace_step S ns w (RemoveKeyOp g k) = fst (remove_group_key ns g k w)"

lemma world_wf_cong:
  "pw_trusted w' = pw_trusted w \<Longrightarrow> pw_group_keys w' = pw_group_keys w \<Longrightarrow> world_wf S w \<Longrightarrow> world_wf S w'"
  by (simp add: world_wf_def)

lemma world_wf_add_group_key: "world_wf S w \<Longrightarrow> world_wf S (fst (add_group_key ns g key w))"
  by (auto simp: add_group_key_def world_wf_def split: prod.split res.split if_splits)

lemma world_wf_remove_group_key: "world_wf S w \<Longrightarrow> world_wf S (fst (remove_group_key ns g k w))"
  by (auto simp: remove_group_key_def world_wf_def split: prod.split res.split if_splits)

lemma world_wf_trust_peer: "world_wf S w \<Longrightarrow> world_wf S (fst (trust_peer S ns peer w))"
  by (auto simp: trust_peer_def world_wf_def Let_def split: prod.split res.split if_splits)

lemma world_wf_remove_trusted_peer: "world_wf S w \<Longrightarrow> world_wf S (fst (remove_trusted_peer ns p w))"
  by (auto simp: remove_trusted_peer_def world_wf_def Let_def split: prod.split res.split if_splits)

lemmas world_wf_ops = world_wf_add_group_key world_wf_remove_group_key world_wf_trust_peer world_wf_remove_trusted_peer

lemma world_wf_step: "world_wf S w \<Longrightarrow> world_wf S (namespace_step S ns w x)"
  by (cases x) (simp_all add: world_wf_ops)

lemma world_wf_run: "world_wf S w \<Longrightarrow> world_wf S (foldl (namespace_step S ns) w ops)"
  by (induction ops arbitrary: w) (simp_all add: world_wf_step)

lemma world_wf_insert_trusted:
  "world_wf S w \<Longrightarrow> card_validate S (tp_card t) = Ok () \<Longrightarrow>
    world_wf S (w\<lparr>pw_trusted := hm_insert (trusted_peer_id t) t (pw_trusted w)\<rparr>)"
  by (auto simp: world_wf_def split: if_splits)

lemma world_wf_seed_trusted: "world_wf S w \<Longrightarrow> world_wf S (fst (seed_trusted S ts w))"
proof (induction ts arbitrary: w)
  case (Cons t ts)
  show ?case
  proof (cases "card_validate S (tp_card t)")
    case (Ok u)
    then show ?thesis using Cons.IH[OF world_wf_insert_trusted[OF Cons.prems, of t]] by simp
  qed (use Cons.prems in simp_all)
qed simp

lemma world_wf_seed_group_keys: "world_wf S w \<Longrightarrow> world_wf S (fst (seed_group_keys ns gks w))"
proof (induction ns gks w rule: seed_group_keys.induct)
  case (2 ns g key rest w)
  have "world_wf S (fst (add_group_key ns g key w))" using 2(2) by (rule world_wf_add_group_key)
  with 2(1) show ?case by (auto split: prod.split res.split group_key_error.split)
qed simp

lemma world_wf_open: "world_wf S (fst (peer_namespace_open S B store identity config n st))"
proof -
  obtain n' st' r where t: "open_transports S B identity config n st = (n', st', r)" by (metis surj_pair)
  let ?w = "\<lparr> pw_net = n', pw_store = st', pw_trusted = [], pw_group_keys = [] \<rparr>"
  have w: "world_wf S ?w" by (simp add: world_wf_def)
  obtain w1 r1 where s: "seed_trusted S (pcf_trusted_peers config) ?w = (w1, r1)" by fastforce
  have w1: "world_wf S w1" using world_wf_seed_trusted[OF w, of "pcf_trusted_peers config"] s by simp
  show ?thesis
    using w w1 world_wf_seed_group_keys[OF w1]
    by (auto simp: peer_namespace_open_def t s Let_def split: res.split prod.split)
      (metis fst_conv)
qed

section \<open>What is received\<close>

lemma trusted_snapshot_iff:
  "world_wf S w \<Longrightarrow> t \<in> set (trusted_snapshot w) \<longleftrightarrow> hm_get (pw_trusted w) (trusted_peer_id t) = Some t"
  by (force simp: trusted_snapshot_def world_wf_def hm_get_mem)

lemma validated_id: "card_validate S (tp_card t) = Ok () \<Longrightarrow> trusted_peer_id t = peer_id_from_signing_key S (card_signing_key (tp_card t))"
  by (auto simp: card_validate_def card_is_consistent_def trusted_peer_id_def split: if_splits)

text \<open>A peer the namespace trusts, by its id and signing key.\<close>

definition trusts :: "'z suite_scheme \<Rightarrow> ('w, 'st) peer_world \<Rightarrow> bytes \<Rightarrow> bytes \<Rightarrow> bool" where
  "trusts S w sender signed_by \<longleftrightarrow>
    (\<exists>t. hm_get (pw_trusted w) sender = Some t \<and> card_signing_key (tp_card t) = signed_by
      \<and> sender = peer_id_from_signing_key S signed_by)"

text \<open>A signature of \<open>key\<close> over an envelope for this channel.\<close>

definition peer_signed :: "'z envelope_env_scheme \<Rightarrow> channel_kind \<Rightarrow> string \<Rightarrow> bytes \<Rightarrow> bytes \<Rightarrow> bool" where
  "peer_signed E kind name bs key \<longleftrightarrow>
    (\<exists>env p. peer_from_bytes E bs = Ok env \<and> pe_kind env = kind \<and> pe_name env = name
      \<and> peer_signature_preimage env = (Ok p :: (peer_envelope_error, bytes) res) \<and> verify E key p (pe_signature env))"

definition group_signed :: "'z envelope_env_scheme \<Rightarrow> channel_kind \<Rightarrow> string \<Rightarrow> bytes \<Rightarrow> bytes \<Rightarrow> bool" where
  "group_signed E kind name bs key \<longleftrightarrow>
    (\<exists>env p. group_from_bytes E bs = Ok env \<and> gv_kind env = kind \<and> gv_name env = name
      \<and> group_signature_preimage env = (Ok p :: (group_envelope_error, bytes) res) \<and> verify E key p (gv_signature env))"

lemma peer_open_bytes_authentic:
  assumes "world_wf E w" "peer_open_bytes_or_drop E bs r kind name (trusted_snapshot w) = Ok (Some m)"
  shows "trusts E w (pem_sender m) (pem_signed_by m) \<and> peer_signed E kind name bs (pem_signed_by m)"
proof -
  from assms(2) obtain env where env: "peer_from_bytes E bs = Ok env" "peer_open E r kind name (trusted_snapshot w) env = Ok m"
    by (auto simp: peer_open_bytes_or_drop_def peer_open_bytes_def res_simps)
  from peer_open_OkD[OF env(2)] obtain t p where t: "t \<in> set (trusted_snapshot w)" "trusted_peer_id t = pe_sender env"
    "card_validate E (tp_card t) = Ok ()" "peer_signature_preimage env = (Ok p :: (peer_envelope_error, bytes) res)"
    "verify E (card_signing_key (tp_card t)) p (pe_signature env)" "pe_kind env = kind" "pe_name env = name"
    "pem_sender m = pe_sender env" "pem_signed_by m = card_signing_key (tp_card t)" by blast
  then show ?thesis
    using assms(1) validated_id[OF t(3)] env(1) by (auto simp: trusts_def peer_signed_def trusted_snapshot_iff)
qed

lemma group_keys_for_envelope_mem:
  "(g, key) \<in> set (group_keys_for_envelope env w) \<Longrightarrow>
    \<exists>k. hm_get (pw_group_keys w) (g, k) = Some key"
  by (auto simp: group_keys_for_envelope_def List.map_filter_def)

lemma open_group_authentic:
  assumes "world_wf E w" "open_group_envelope_or_drop E bs kind name (trusted_snapshot w) w = Ok (Some m)"
  shows "trusts E w (gem_sender m) (gem_signed_by m) \<and> group_signed E kind name bs (gem_signed_by m)
    \<and> hm_get (pw_group_keys w) (gem_group m, gem_key_id m) \<noteq> None"
proof -
  from assms(2) obtain env where env: "group_from_bytes E bs = Ok env"
    "group_open E kind name (trusted_snapshot w) (group_keys_for_envelope env w) env = Ok m"
    by (auto simp: open_group_envelope_or_drop_def open_group_envelope_def res_simps)
  then obtain t where t: "find (\<lambda>peer. trusted_peer_id peer = gv_sender env) (trusted_snapshot w) = Some t"
    "card_validate E (tp_card t) = Ok ()" "gv_kind env = kind" "gv_name env = name"
    "group_try_entries E env (tp_card t) kind name (List.product (gv_entries env) (group_keys_for_envelope env w)) False = Ok m"
    by (auto simp: group_open_def res_simps split: if_splits)
  then have mem: "t \<in> set (trusted_snapshot w)" "trusted_peer_id t = gv_sender env" by (auto simp: find_Some_iff)
  from group_try_entries_OkD[OF t(5)] obtain e key p where
    e: "(e, gem_group m, key) \<in> set (List.product (gv_entries env) (group_keys_for_envelope env w))" "gk_id key = gem_key_id m"
    "group_signature_preimage env = (Ok p :: (group_envelope_error, bytes) res)"
    "verify E (card_signing_key (tp_card t)) p (gv_signature env)"
    "gem_sender m = gv_sender env" "gem_signed_by m = card_signing_key (tp_card t)" by blast
  from e(1) group_keys_for_envelope_mem obtain k where "hm_get (pw_group_keys w) (gem_group m, k) = Some key" by fastforce
  with assms(1) e(2) have "hm_get (pw_group_keys w) (gem_group m, gem_key_id m) = Some key" by (auto simp: world_wf_def)
  with assms(1) e t mem env(1) validated_id[OF t(2)] show ?thesis
    by (auto simp: trusts_def group_signed_def trusted_snapshot_iff)
qed

text \<open>
  A message a mailbox may return: it is what some bytes open to, these bytes carry a signature of a
  trusted peer for this mailbox, and a group message names a key the namespace holds.
\<close>

definition authentic ::
  "'z envelope_env_scheme \<Rightarrow> ('w, 'st) peer_namespace \<Rightarrow> ('w, 'st) peer_world \<Rightarrow> string \<Rightarrow> peer_mailbox_message \<Rightarrow> bytes \<Rightarrow> bool" where
  "authentic E ns w name m bs \<longleftrightarrow>
    trusts E w (pmm_sender m) (pmm_signed_by m)
    \<and> (case (pmm_group m, pmm_key_id m) of
         (Some g, Some k) \<Rightarrow>
           hm_get (pw_group_keys w) (g, k) \<noteq> None \<and> open_message E ns name (pmm_via m) w bs (GroupAddr g) = Ok (Some m)
           \<and> group_signed E Mailbox name bs (pmm_signed_by m)
       | (None, None) \<Rightarrow>
           open_message E ns name (pmm_via m) w bs (PairwiseAddr (namespace_peer_id E ns)) = Ok (Some m)
           \<and> peer_signed E Mailbox name bs (pmm_signed_by m)
       | _ \<Rightarrow> False)"

lemma map_ok_map_option: "map_ok (map_option f) r = Ok (Some y) \<longleftrightarrow> (\<exists>x. r = Ok (Some x) \<and> y = f x)"
  by (cases r) (auto dest: sym)

lemma open_message_authentic:
  assumes "world_wf E w" "open_message E ns name via w bs address = Ok (Some m)"
  shows "authentic E ns w name m bs"
proof (cases address)
  case (GroupAddr g)
  then obtain x where "open_group_envelope_or_drop E bs Mailbox name (trusted_snapshot w) w = (Ok (Some x) :: (recv_error, _) res)"
    "pmm_via m = via" "pmm_sender m = gem_sender x" "pmm_signed_by m = gem_signed_by x" "pmm_group m = Some (gem_group x)" "pmm_key_id m = Some (gem_key_id x)"
    using assms(2) by (auto simp: map_ok_map_option)
  with open_group_authentic[OF assms(1) this(1)] assms(2) GroupAddr show ?thesis by (simp add: authentic_def)
next
  case (PairwiseAddr p)
  then obtain x where "peer_open_bytes_or_drop E bs (pn_identity ns) Mailbox name (trusted_snapshot w) = (Ok (Some x) :: (recv_error, _) res)"
    "pmm_via m = via" "pmm_sender m = pem_sender x" "pmm_signed_by m = pem_signed_by x" "pmm_group m = None" "pmm_key_id m = None"
    using assms(2) by (auto simp: map_ok_map_option)
  with peer_open_bytes_authentic[OF assms(1) this(1)] assms(2) PairwiseAddr show ?thesis by (simp add: authentic_def)
next
  case (PublisherAddr p)
  then obtain x where "peer_open_bytes_or_drop E bs (pn_identity ns) Mailbox name (trusted_snapshot w) = (Ok (Some x) :: (recv_error, _) res)"
    "pmm_via m = via" "pmm_sender m = pem_sender x" "pmm_signed_by m = pem_signed_by x" "pmm_group m = None" "pmm_key_id m = None"
    using assms(2) by (auto simp: map_ok_map_option)
  with peer_open_bytes_authentic[OF assms(1) this(1)] assms(2) PublisherAddr show ?thesis by (simp add: authentic_def)
qed

lemma peer_recv_round_authentic:
  "peer_recv_round E L ns name wait ts w d b = (w', d', PeerGot m) \<Longrightarrow> world_wf E w \<Longrightarrow> world_wf E w' \<and> (\<exists>bs. authentic E ns w' name m bs)"
proof (induction ts arbitrary: w d b)
  case (Cons t ts)
  obtain endpoint cid address where t: "t = ((endpoint, cid), address)" by (metis surj_pair)
  obtain n r where recv: "t_recv (ct_transport endpoint) (pw_net w) cid wait = (n, r)" by fastforce
  let ?w = "w\<lparr>pw_net := n\<rparr>"
  have wf: "world_wf E ?w" using Cons.prems(2) by (simp add: world_wf_def)
  show ?case
  proof (cases "r = Ok None \<or> (\<exists>e. r = Err e) \<or> r = Panic")
    case True
    then show ?thesis using Cons.prems(1) Cons.IH[OF _ wf] by (auto simp: t recv Let_def)
  next
    case False
    then obtain bs where r: "r = Ok (Some bs)" by (cases r) auto
    obtain e dup where obs: "observe E L d bs = (e, dup)" by fastforce
    show ?thesis
    proof (cases "\<not> dup \<and> (\<exists>x. open_message E ns name (ct_kind endpoint) ?w bs address = Ok (Some x))")
      case True
      then obtain x where x: "open_message E ns name (ct_kind endpoint) ?w bs address = Ok (Some x)" "\<not> dup" by blast
      then have "w' = ?w" "m = x" using Cons.prems(1) by (simp_all add: t recv r obs Let_def)
      with wf open_message_authentic[OF wf x(1)] show ?thesis by blast
    next
      case False
      then show ?thesis using Cons.prems(1) Cons.IH[OF _ wf] by (auto simp: t recv r obs Let_def split: if_splits res.splits option.splits)
    qed
  qed
qed simp

lemma peer_recv_round_net: "peer_recv_round E L ns name wait ts w d b = (w', d', x) \<Longrightarrow> \<exists>n. w' = w\<lparr>pw_net := n\<rparr>"
proof (induction ts arbitrary: w d b)
  case Nil
  then show ?case by (auto intro: exI[of _ "pw_net w'"])
next
  case (Cons t ts)
  obtain endpoint cid address where t: "t = ((endpoint, cid), address)" by (metis surj_pair)
  obtain n r where recv: "t_recv (ct_transport endpoint) (pw_net w) cid wait = (n, r)" by fastforce
  let ?w = "w\<lparr>pw_net := n\<rparr>"
  have "w' = ?w \<or> (\<exists>d b. peer_recv_round E L ns name wait ts ?w d b = (w', d', x))"
    using Cons.prems by (auto simp: t recv Let_def split: res.splits option.splits prod.splits if_splits)
  then show ?case
  proof
    assume "\<exists>d b. peer_recv_round E L ns name wait ts ?w d b = (w', d', x)"
    then obtain n' where "w' = ?w\<lparr>pw_net := n'\<rparr>" using Cons.IH by blast
    then show ?thesis by (intro exI[of _ n']) simp
  qed blast
qed

text \<open>
  The calls of other tasks between the rounds keep an invariant of the tables; so does the receive,
  and what it returns is authentic in the world it returns.
\<close>

lemma peer_recv_timeout_authentic:
  assumes "peer_recv_timeout E L ns name wait rounds w d = (w', d', Some (Ok m))" "I w"
    and others: "\<And>sched f v. (sched, f) \<in> set rounds \<Longrightarrow> I v \<Longrightarrow> I (f v)"
    and net: "\<And>v n. I v \<Longrightarrow> I (v\<lparr>pw_net := n\<rparr>)" and wf: "\<And>v. I v \<Longrightarrow> world_wf E v"
  shows "I w' \<and> (\<exists>bs. authentic E ns w' name m bs)"
  using assms(1-3)
proof (induction rounds arbitrary: w d)
  case (Cons round rounds)
  obtain sched f where r: "round = (sched, f)" by fastforce
  have I: "I (f w)" using Cons.prems(2,3) by (auto simp: r)
  obtain ts where ts: "peer_tasks E ns (recv_addresses E ns (f w)) Mailbox name = (Ok ts :: (recv_error, _) res)"
    using Cons.prems(1) by (auto simp: r Let_def split: res.splits)
  obtain w1 d1 x where rr: "peer_recv_round E L ns name wait (sched ts) (f w) d False = (w1, d1, x)" by (metis surj_pair)
  have I1: "I w1" using peer_recv_round_net[OF rr] net[OF I] by auto
  show ?case
  proof (cases x)
    case (PeerGot y)
    then show ?thesis
      using Cons.prems(1) I1 rr ts peer_recv_round_authentic[OF rr[unfolded PeerGot] wf[OF I]] by (auto simp: r)
  next
    case (PeerDone b)
    then have "peer_recv_timeout E L ns name wait rounds w1 d1 = (w', d', Some (Ok m))"
      using Cons.prems(1) rr ts by (auto simp: r split: if_splits)
    then show ?thesis using Cons.IH I1 Cons.prems(3) by (metis list.set_intros(2))
  next
    case PeerRoundPanic
    then show ?thesis using Cons.prems(1) rr ts by (auto simp: r)
  qed
qed simp

section \<open>The newest value\<close>

interpretation peer_pairs: pair_order peer_slot_pair_is_newer
  by unfold_locales (simp add: peer_slot_pair_is_newer_def)

definition peer_candidates ::
  "'z envelope_env_scheme \<Rightarrow> ('w, 'st) peer_namespace \<Rightarrow> string \<Rightarrow> peer_address \<Rightarrow> peer_slot_scope \<Rightarrow> ('w, 'st) peer_world \<Rightarrow>
    (transport_kind \<times> (transport_error, (u64 \<times> bytes) option) res) list \<Rightarrow> (u64 \<times> bytes \<times> peer_slot_value) list" where
  "peer_candidates E ns name address scope w rs =
    List.map_filter (\<lambda>(kind, r).
      case r of
        Ok (Some (_, bs)) \<Rightarrow>
          (case open_slot_value E ns name kind scope w bs address of
             Ok (Some val) \<Rightarrow> Some (psv_version val, bs, val) | _ \<Rightarrow> None)
      | _ \<Rightarrow> None) rs"

lemma pick_best_peer_newest:
  "pick_best_peer E ns name address scope w rs k fs best = Ok (k', fs', best') \<Longrightarrow>
    best' = newest peer_slot_pair_is_newer (peer_candidates E ns name address scope w rs) best"
  by (induction E ns name address scope w rs k fs best rule: pick_best_peer.induct)
    (auto simp: peer_candidates_def List.map_filter_simps split: res.splits option.splits)

lemma open_slot_value_group:
  "open_slot_value E ns name kind scope w bs (GroupAddr g) = Ok (Some val) \<longleftrightarrow>
    (\<exists>m version payload. open_group_envelope_or_drop E bs Slot name (trusted_snapshot w) w = (Ok (Some m) :: (peer_slot_error, _) res)
      \<and> decode_peer_slot_payload E (gem_payload m) = Ok (version, payload)
      \<and> val = \<lparr> psv_version = version, psv_sender = gem_sender m, psv_signed_by = gem_signed_by m, psv_payload = payload,
                psv_via = kind, psv_scope = scope, psv_key_id = Some (gem_key_id m) \<rparr>)"
  by (auto simp: bind_res_Ok_iff map_ok_map_option res_ok_Ok_iff split: option.splits)

lemma open_slot_value_peer:
  assumes "address = PairwiseAddr p \<or> address = PublisherAddr p"
  shows "open_slot_value E ns name kind scope w bs address = Ok (Some val) \<longleftrightarrow>
    (\<exists>m version payload.
      peer_open_bytes_or_drop E bs (pn_identity ns) Slot name (trusted_snapshot w) = (Ok (Some m) :: (peer_slot_error, _) res)
      \<and> decode_peer_slot_payload E (pem_payload m) = Ok (version, payload)
      \<and> val = \<lparr> psv_version = version, psv_sender = pem_sender m, psv_signed_by = pem_signed_by m, psv_payload = payload,
                psv_via = kind, psv_scope = scope, psv_key_id = None \<rparr>)"
  using assms by (auto simp: bind_res_Ok_iff map_ok_map_option res_ok_Ok_iff split: option.splits)

lemma open_slot_value_authentic:
  assumes "world_wf E w" "open_slot_value E ns name kind scope w bs address = Ok (Some val)"
  shows "trusts E w (psv_sender val) (psv_signed_by val)"
proof (cases "\<exists>g. address = GroupAddr g")
  case True
  then obtain m where m: "open_group_envelope_or_drop E bs Slot name (trusted_snapshot w) w = (Ok (Some m) :: (peer_slot_error, _) res)"
    "psv_sender val = gem_sender m" "psv_signed_by val = gem_signed_by m"
    using assms(2) by (auto simp: open_slot_value_group simp del: open_slot_value.simps)
  from open_group_authentic[OF assms(1) m(1)] m show ?thesis by simp
next
  case False
  then obtain p where "address = PairwiseAddr p \<or> address = PublisherAddr p" by (cases address) auto
  from assms(2)[unfolded open_slot_value_peer[OF this]] obtain m where
    m: "peer_open_bytes_or_drop E bs (pn_identity ns) Slot name (trusted_snapshot w) = (Ok (Some m) :: (peer_slot_error, _) res)"
    "psv_sender val = pem_sender m" "psv_signed_by val = pem_signed_by m" by auto
  from peer_open_bytes_authentic[OF assms(1) m(1)] m show ?thesis by simp
qed

section \<open>Separation\<close>

lemma peer_address_info_inject:
  "snd (peer_address_domain a) = snd (peer_address_domain b) \<Longrightarrow>
    peer_address_info a kind name = peer_address_info b kind' name' \<longleftrightarrow> a = b \<and> kind = kind' \<and> name = name'"
  by (cases a; cases b; cases kind; cases kind') (auto simp: peer_address_info_def simp del: str_bytes_append)

lemma hex_encode_no_nul: "CHR 0x00 \<notin> set (hex_encode bs)"
proof
  assume "CHR 0x00 \<in> set (hex_encode bs)"
  then have "is_lower_hex (CHR 0x00)" using hex_encode_lower[of bs] by (simp add: list_all_iff)
  then show False by (simp add: is_lower_hex_def)
qed

lemma peer_slot_state_key_inject:
  assumes "valid_name name" "valid_name name'"
  shows "peer_slot_state_key name a = peer_slot_state_key name' b \<longleftrightarrow> name = name' \<and> a = b"
  using assms valid_name_no_nul hex_encode_no_nul by (cases a; cases b) (simp_all add: append_Cons_eq_iff conj_commute)

lemma peer_slot_state_key_not_name: "valid_name name' \<Longrightarrow> peer_slot_state_key name a \<noteq> name'"
  using valid_name_no_nul[of name'] by (cases a) auto

section \<open>Admission by Iroh\<close>

definition iroh_handle_of :: "'g gossip \<Rightarrow> ('g iroh_transport \<Rightarrow> iroh_endpoint_addr) \<Rightarrow> 'g iroh_transport iroh_handle" where
  "iroh_handle_of G addr = \<lparr> ih_allow = allow_peer G, ih_revoke = revoke_peer G, ih_endpoint_addr = addr \<rparr>"

definition iroh_builder ::
  "'g gossip \<Rightarrow> ('g iroh_transport \<Rightarrow> iroh_endpoint_addr) \<Rightarrow> 'st state_store \<Rightarrow> bytes \<Rightarrow> 'g \<Rightarrow> iroh_config \<Rightarrow> bytes list option \<Rightarrow>
    'g iroh_transport \<Rightarrow> 'st \<Rightarrow>
    'g iroh_transport \<times> 'st \<times> (iroh_init_error, 'g iroh_transport transport \<times> 'g iroh_transport iroh_handle) res" where
  "iroh_builder G addr store generated g0 config allowed n st =
    (case iroh_new_with_allowed_endpoints G store generated config allowed g0 st of
       (st, Ok t) \<Rightarrow> (t, st, Ok (iroh_as_transport G, iroh_handle_of G addr))
     | (st, Err e) \<Rightarrow> (n, st, Err e)
     | (st, Panic) \<Rightarrow> (n, st, Panic))"

lemma update_iroh_allowed:
  "it_allowed n = None \<Longrightarrow> it_allowed (update_iroh_trusted_endpoint (Some (iroh_handle_of G addr)) old endpoint n) = None"
  by (auto simp: update_iroh_trusted_endpoint_def iroh_handle_of_def Let_def allow_peer_allowed revoke_peer_allowed
      split: option.split)

lemma unguarded_step:
  assumes "pn_iroh ns = Some (iroh_handle_of G addr)" "it_allowed (pw_net w) = None"
  shows "it_allowed (pw_net (namespace_step S ns w x)) = None"
  using assms by (cases x)
    (auto simp: trust_peer_def remove_trusted_peer_def add_group_key_def remove_group_key_def Let_def update_iroh_allowed
      split: res.split prod.split)

lemma unguarded_run:
  assumes "pn_iroh ns = Some (iroh_handle_of G addr)" "it_allowed (pw_net w) = None"
  shows "it_allowed (pw_net (foldl (namespace_step S ns) w ops)) = None"
  using assms(2) by (induction ops arbitrary: w) (auto simp: unguarded_step[OF assms(1)])

section \<open>A concrete codec\<close>

text \<open>A codec of envelopes as lists of byte fields, used to exhibit instances.\<close>

fun recipients_of :: "bytes list \<Rightarrow> peer_recipient_envelope list" where
  "recipients_of (r # n # c # fs) = \<lparr> pr_recipient = r, pr_nonce = n, pr_ciphertext = c \<rparr> # recipients_of fs"
| "recipients_of _ = []"

fun entries_of :: "bytes list \<Rightarrow> group_envelope_entry list" where
  "entries_of (g # k # n # c # fs) = \<lparr> ge_group = g, ge_key_id = k, ge_nonce = n, ge_ciphertext = c \<rparr> # entries_of fs"
| "entries_of _ = []"

definition plain_envelope_env :: envelope_env where
  "plain_envelope_env =
    peer_env.extend plain_env
      \<lparr> peer_ser = (\<lambda>w. Some (fields_enc ([pw_version w] # pw_sender_peer_id w # [pw_channel_kind w] # str_bytes (pw_channel_name w)
            # pw_signature w # concat (map (\<lambda>r. [pr_recipient r, pr_nonce r, pr_ciphertext r]) (pw_recipients w))))),
        peer_de = (\<lambda>b. case fields_dec [] b of
            [v] # s # [k] # n # sig # fs \<Rightarrow>
              Some \<lparr> pw_version = v, pw_sender_peer_id = s, pw_channel_kind = k, pw_channel_name = bytes_str n,
                     pw_recipients = recipients_of fs, pw_signature = sig \<rparr>
          | _ \<Rightarrow> None),
        group_ser = (\<lambda>w. Some (fields_enc ([gw_version w] # gw_sender_peer_id w # [gw_channel_kind w] # str_bytes (gw_channel_name w)
            # gw_signature w # concat (map (\<lambda>e. [ge_group e, ge_key_id e, ge_nonce e, ge_ciphertext e]) (gw_entries w))))),
        group_de = (\<lambda>b. case fields_dec [] b of
            [v] # s # [k] # n # sig # fs \<Rightarrow>
              Some \<lparr> gw_version = v, gw_sender_peer_id = s, gw_channel_kind = k, gw_channel_name = bytes_str n,
                     gw_entries = entries_of fs, gw_signature = sig \<rparr>
          | _ \<Rightarrow> None),
        slot_ser = (\<lambda>i. Some (fields_enc [[psi_version i], replicate (unat (psi_slot_version i)) 0, psi_payload i])),
        slot_de = (\<lambda>b. case fields_dec [] b of
            [[v], n, p] \<Rightarrow> Some \<lparr> psi_version = v, psi_slot_version = of_nat (length n), psi_payload = p \<rparr>
          | _ \<Rightarrow> None) \<rparr>"

lemma recipients_of_flat [simp]: "recipients_of (concat (map (\<lambda>r. [pr_recipient r, pr_nonce r, pr_ciphertext r]) rs)) = rs"
  by (induction rs) simp_all

lemma entries_of_flat [simp]: "entries_of (concat (map (\<lambda>e. [ge_group e, ge_key_id e, ge_nonce e, ge_ciphertext e]) es)) = es"
  by (induction es) simp_all

lemma plain_envelope_env_sel [simp]:
  "hkdf_expand plain_envelope_env = hkdf_expand plain_suite" "sha256 plain_envelope_env = sha256 plain_suite"
  "aead_encrypt plain_envelope_env = aead_encrypt plain_suite" "aead_decrypt plain_envelope_env = aead_decrypt plain_suite"
  "ed_public plain_envelope_env = ed_public plain_suite" "ed_valid plain_envelope_env = ed_valid plain_suite"
  "ed_sign plain_envelope_env = ed_sign plain_suite" "ed_verify plain_envelope_env = ed_verify plain_suite"
  "x_public plain_envelope_env = x_public plain_suite" "x_dh plain_envelope_env = x_dh plain_suite"
  by (simp_all add: plain_envelope_env_def plain_env_def peer_env.defs suite.defs plain_suite_def)

lemma plain_envelope_env_ok [simp]:
  "hkdf_ok plain_envelope_env" "aead_ok plain_envelope_env" "ed_ok plain_envelope_env" "dh_ok plain_envelope_env"
  "envelope_codec_ok plain_envelope_env" "peer_ser plain_envelope_env w \<noteq> None"
proof -
  show "envelope_codec_ok plain_envelope_env" "peer_ser plain_envelope_env w \<noteq> None"
    by (auto simp: envelope_codec_ok_def plain_envelope_env_def peer_env.defs)
qed (use plain_suite_hkdf plain_suite_aead plain_suite_ed plain_suite_dh in
    \<open>simp_all add: hkdf_ok_def aead_ok_def ed_ok_def dh_ok_def\<close>)

lemma alice_bob_env [simp]:
  "card_validate plain_envelope_env (identity_card plain_envelope_env alice) = Ok ()"
  "card_validate plain_envelope_env (identity_card plain_envelope_env bob) = Ok ()"
  "trusted_peer_id (trusted_new (identity_card plain_envelope_env i)) = identity_peer_id plain_envelope_env i"
  "card_peer_id (identity_card plain_envelope_env i) = identity_peer_id plain_envelope_env i"
  "card_exchange_key (identity_card plain_envelope_env i) = x_public plain_suite (id_exchange i)"
  "identity_peer_id plain_envelope_env alice \<noteq> identity_peer_id plain_envelope_env bob"
  by (simp_all add: alice_def bob_def identity_generate_def card_validate_def card_is_consistent_def trusted_new_def trusted_peer_id_def
      identity_card_def identity_peer_id_def peer_id_from_signing_key_def card_new_def list_all_iff)
   (simp_all add: plain_suite_def)

section \<open>One message\<close>

text \<open>The bytes a namespace sends to peers, and what a trusted recipient makes of them.\<close>

lemma sealed_note_opens:
  assumes "hkdf_ok E" "aead_ok E" "ed_ok E" "dh_ok E" "envelope_codec_ok E" "\<And>w. peer_ser E w \<noteq> None"
    and "valid_name name" "\<forall>i. length (rng i) = 24" "length (id_signing sender) = 32"
    and "length payload + 16 < 2 ^ 32" "length cards < 2 ^ 32"
    and "\<forall>c \<in> set cards. card_validate E c = Ok ()" "identity_card E r \<in> set cards"
    and "\<forall>c \<in> set cards. card_peer_id c = identity_peer_id E r \<longrightarrow> card_exchange_key c = x_public E (id_exchange r)"
    and "find (\<lambda>p. trusted_peer_id p = identity_peer_id E sender) trusted = Some t"
    and "tp_card t = identity_card E sender" "card_validate E (tp_card t) = Ok ()"
  shows "\<exists>bs. bind_res (peer_seal E rng sender kind name payload cards) (peer_to_bytes E) = Ok bs
    \<and> peer_open_bytes E bs r kind name trusted
      = Ok \<lparr> pem_sender = identity_peer_id E sender, pem_signed_by = ed_public E (id_signing sender), pem_payload = payload \<rparr>"
proof -
  from peer_seal_open[OF assms(1-4,7-17)] obtain env where env: "peer_seal E rng sender kind name payload cards = Ok env"
    "length (pe_signature env) = 64" "pe_recipients env \<noteq> []" "pe_kind env = kind" "pe_name env = name"
    "peer_open E r kind name trusted env
      = Ok \<lparr> pem_sender = identity_peer_id E sender, pem_signed_by = ed_public E (id_signing sender), pem_payload = payload \<rparr>"
    by blast
  obtain bs where bs: "peer_ser E (peer_to_wire env) = Some bs" using assms(6) by blast
  have "peer_try_from_wire (peer_to_wire env) = Ok env"
    using env(2-5) assms(7) by (cases kind) (auto simp: peer_try_from_wire_def peer_to_wire_def channel_kind_from_code_def crypto_consts)
  moreover have "peer_de E bs = Some (peer_to_wire env)" using assms(5) bs by (simp add: envelope_codec_ok_def)
  ultimately show ?thesis
    using env(1,6) bs by (simp add: peer_to_bytes_def peer_open_bytes_def peer_from_bytes_def)
qed

text \<open>The receive loop returns what the first task that has a message opens.\<close>

lemma peer_recv_one:
  assumes "pn_transports ns = [ep]" "pw_group_keys w = []" "peer_fair sched"
    and "peer_transport_id E (ct_kind ep) (PairwiseAddr (namespace_peer_id E ns)) Mailbox name = (Ok cid :: (recv_error, _) res)"
    and "t_recv (ct_transport ep) (pw_net w) cid wait = (n, Ok (Some bs))" "observe E L d bs = (d', False)"
    and "peer_open_bytes E bs (pn_identity ns) Mailbox name (trusted_snapshot w) = Ok x"
  shows "peer_recv_timeout E L ns name wait ((sched, \<lambda>w. w) # rounds) w d =
    (w\<lparr>pw_net := n\<rparr>, d', Some (Ok \<lparr> pmm_sender = pem_sender x, pmm_signed_by = pem_signed_by x, pmm_payload = pem_payload x,
      pmm_via = ct_kind ep, pmm_group = None, pmm_key_id = None \<rparr>))"
proof -
  let ?t = "((ep, cid), PairwiseAddr (namespace_peer_id E ns))"
  have "recv_addresses E ns w = [PairwiseAddr (namespace_peer_id E ns)]"
    using assms(2) by (simp add: recv_addresses_def group_ids_def)
  moreover have "peer_tasks E ns [PairwiseAddr (namespace_peer_id E ns)] Mailbox name = (Ok [?t] :: (recv_error, _) res)"
    using assms(1,4) by (simp add: peer_tasks_def)
  moreover have "sched [?t] = [?t]" using assms(3) by (simp add: peer_fair_def flip: mset_single_iff)
  moreover have "trusted_snapshot (w\<lparr>pw_net := n\<rparr>) = trusted_snapshot w" by (simp add: trusted_snapshot_def)
  ultimately show ?thesis using assms(5-7) by (simp add: peer_open_bytes_or_drop_def Let_def)
qed

lemma shut_out_update:
  assumes "shut_out eid n" "\<And>e. endpoint = Some e \<Longrightarrow> ea_endpoint_id e \<noteq> eid"
  shows "shut_out eid (update_iroh_trusted_endpoint (Some (iroh_handle_of G addr)) old endpoint n)"
proof -
  have revoke: "shut_out eid (revoke_peer G x n)" for x using shut_out_step[OF assms(1), of "RevokeOp x" G] by simp
  have allow: "shut_out eid (allow_peer G e m)" if "endpoint = Some e" "shut_out eid m" for e m
    using shut_out_step[OF that(2), of "AllowOp e" G] assms(2)[OF that(1)] by simp
  show ?thesis using assms(1) revoke allow
    by (auto simp: update_iroh_trusted_endpoint_def iroh_handle_of_def Let_def split: option.split)
qed

lemma shut_out_namespace_step:
  assumes "pn_iroh ns = Some (iroh_handle_of G addr)" "shut_out eid (pw_net w)"
    and "\<And>t e. x = TrustOp t \<Longrightarrow> card_iroh_endpoint (tp_card t) = Some e \<Longrightarrow> ea_endpoint_id e \<noteq> eid"
  shows "shut_out eid (pw_net (namespace_step S ns w x))"
proof (cases x)
  case (TrustOp t)
  have "shut_out eid (update_iroh_trusted_endpoint (Some (iroh_handle_of G addr)) old (card_iroh_endpoint (tp_card t)) (pw_net w))" for old
    by (rule shut_out_update[OF assms(2)]) (use assms(3) TrustOp in blast)
  then show ?thesis using assms(1,2) TrustOp by (auto simp: trust_peer_def Let_def split: res.split prod.split)
next
  case (UntrustOp p)
  have "shut_out eid (update_iroh_trusted_endpoint (Some (iroh_handle_of G addr)) old None (pw_net w))" for old
    by (rule shut_out_update[OF assms(2)]) simp
  then show ?thesis using assms(1,2) UntrustOp by (auto simp: remove_trusted_peer_def Let_def split: res.split prod.split)
qed (use assms(2) in \<open>auto simp: add_group_key_def remove_group_key_def Let_def split: res.split prod.split\<close>)

lemma shut_out_namespace_run:
  assumes "pn_iroh ns = Some (iroh_handle_of G addr)" "shut_out eid (pw_net w)"
    and "\<And>t e. TrustOp t \<in> set ops \<Longrightarrow> card_iroh_endpoint (tp_card t) = Some e \<Longrightarrow> ea_endpoint_id e \<noteq> eid"
  shows "shut_out eid (pw_net (foldl (namespace_step S ns) w ops))"
  using assms(2,3)
proof (induction ops arbitrary: w)
  case (Cons x ops)
  have "shut_out eid (pw_net (namespace_step S ns w x))"
    by (rule shut_out_namespace_step[OF assms(1) Cons.prems(1)]) (use Cons.prems(2) in auto)
  then show ?case using Cons.IH[of "namespace_step S ns w x"] Cons.prems(2) by auto
qed simp

lemma iroh_new_unlisted:
  assumes "iroh_new_with_allowed_endpoints G store generated config None g0 st = (st', Ok t)"
  shows "it_allowed t = None"
proof -
  obtain st1 secret where k: "(case ss_iroh_keypair store st of
             Ok (Some secret) \<Rightarrow> (st, Ok secret)
           | Ok None \<Rightarrow> apsnd (map_ok (\<lambda>_. generated)) (ss_store_iroh_keypair store st generated)
           | Err e \<Rightarrow> (st, Err e)
           | Panic \<Rightarrow> (st, Panic)) = (st1, secret)" by fastforce
  show ?thesis using assms unfolding iroh_new_with_allowed_endpoints_def k
    by (auto simp: res_simps case_prod_beta)
qed

lemma open_unlisted:
  assumes "open_peer_iroh_transport B config n st = (n', st', Ok ir)"
    and "tb_iroh B = iroh_builder G addr store generated g0"
    and "pcf_iroh config = Some ic" "trusted_iroh_endpoints (pcf_trusted_peers config) = []"
  shows "it_allowed n' = None \<and> ir = Some (iroh_as_transport G, iroh_handle_of G addr)"
proof -
  obtain st1 r where r: "iroh_new_with_allowed_endpoints G store generated ic None g0 st = (st1, r)" by fastforce
  show ?thesis using assms r iroh_new_unlisted[of G store generated ic g0 st st1]
    by (cases r) (auto simp: open_peer_iroh_transport_def iroh_builder_def Let_def)
qed

lemma seed_trusted_net: "pw_net (fst (seed_trusted S ts w)) = pw_net w"
  by (induction S ts w rule: seed_trusted.induct) (auto split: res.split)

lemma seed_group_keys_net: "pw_net (fst (seed_group_keys ns gks w)) = pw_net w"
proof (induction ns gks w rule: seed_group_keys.induct)
  case (2 ns g key rest w)
  have "pw_net (fst (add_group_key ns g key w)) = pw_net w"
    by (auto simp: add_group_key_def split: prod.split res.split)
  with 2 show ?case by (auto split: prod.split res.split group_key_error.split)
qed simp

lemma open_OkD:
  assumes "peer_namespace_open S B store identity config n st = (w, Ok ns)"
  shows "\<exists>st' tr ir. open_transports S B identity config n st = (pw_net w, st', Ok (tr, ir)) \<and> pn_iroh ns = ir"
proof -
  obtain n' st' tr ir where t: "open_transports S B identity config n st = (n', st', Ok (tr, ir))"
    using assms by (auto simp: peer_namespace_open_def Let_def split: prod.splits res.splits)
  let ?w = "\<lparr> pw_net = n', pw_store = st', pw_trusted = [], pw_group_keys = [] \<rparr>"
  let ?ns = "\<lparr> pn_identity = identity, pn_state = store, pn_transports = tr, pn_iroh = ir \<rparr>"
  obtain w1 where w1: "seed_trusted S (pcf_trusted_peers config) ?w = (w1, Ok ())"
    using assms t by (auto simp: peer_namespace_open_def Let_def split: prod.splits res.splits)
  obtain w2 r where w2: "seed_group_keys ?ns (pcf_group_keys config) w1 = (w2, r)" by fastforce
  have "w2 = w" "ns = ?ns" using assms t w1 w2 by (auto simp: peer_namespace_open_def Let_def res_simps)
  then show ?thesis
    using t w1 w2 seed_trusted_net[of S "pcf_trusted_peers config" ?w] seed_group_keys_net[of ?ns "pcf_group_keys config" w1]
    by simp
qed

lemma world_wf_net: "world_wf E v \<Longrightarrow> world_wf E (v\<lparr>pw_net := n\<rparr>)"
  by (simp add: world_wf_def)

section \<open>Properties\<close>

text \<open>
  C16: A well-formed namespace. However a namespace is opened, successfully or not, and whatever trust and
  group-key operations follow, succeed or fail, the tables stay maps in which every trusted peer is
  filed under its own id with a valid card and every group key under its own id.
\<close>

theorem namespace_stays_well_formed:
  assumes "peer_namespace_open S B store identity config n st = (w, r)"
  shows "world_wf S (foldl (namespace_step S ns) w ops)"
  using world_wf_run[OF world_wf_open[of S B store identity config n st], of ns ops] assms by simp

definition no_builders :: "('w, 'st) transport_builders" where
  "no_builders =
    \<lparr> tb_http = (\<lambda>c w. (w, Err Unsupported)), tb_pkarr = (\<lambda>s c w. (w, Err Unsupported)),
      tb_iroh = (\<lambda>c a w st. (w, st, Err (InitTransport Unsupported))) \<rparr>"

definition bare_config :: "'w peer_config" where
  "bare_config =
    \<lparr> pcf_trusted_peers = [trusted_new (identity_card plain_suite alice)], pcf_group_keys = [], pcf_http = None,
      pcf_pkarr = None, pcf_iroh = None, pcf_transports = [] \<rparr>"

definition bare_namespace :: "(unit, inner) peer_namespace" where
  "bare_namespace = \<lparr> pn_identity = bob, pn_state = memory_store, pn_transports = [], pn_iroh = None \<rparr>"

lemma bare_config_endpoints: "trusted_iroh_endpoints [trusted_new (identity_card plain_suite i)] = []"
  by (simp add: trusted_iroh_endpoints_def trusted_new_def identity_card_def card_new_def)

lemma open_bare:
  "peer_namespace_open plain_suite no_builders memory_store bob bare_config () inner_default =
    (\<lparr> pw_net = (), pw_store = inner_default,
       pw_trusted = [(identity_peer_id plain_suite alice, trusted_new (identity_card plain_suite alice))], pw_group_keys = [] \<rparr>,
     Ok bare_namespace)"
  by (simp add: peer_namespace_open_def open_transports_def open_builtin_def open_peer_iroh_transport_def bare_config_def
      bare_namespace_def alice_bob_setup Let_def)

theorem namespace_stays_well_formed_witness:
  "\<exists>w. peer_namespace_open plain_suite no_builders memory_store bob bare_config () inner_default = (w, Ok bare_namespace)
    \<and> pw_trusted w \<noteq> []
    \<and> world_wf plain_suite (foldl (namespace_step plain_suite bare_namespace) w [UntrustOp [], AddKeyOp [1] \<lparr>gk_id = [2], gk_secret = [3]\<rparr>])"
  using namespace_stays_well_formed[OF open_bare, of bare_namespace "[UntrustOp [], AddKeyOp [1] \<lparr>gk_id = [2], gk_secret = [3]\<rparr>]"]
  by (simp add: open_bare)

text \<open>
  C12: A received message is authentic. When the receive loop of a peer mailbox returns a message, after
  any number of rounds, on any transports and with any schedule, its sender is a peer the namespace
  trusts at that moment, identified by the hash of the reported signing key, some envelope for this
  mailbox carries a signature that verifies under that key, and a group message names a key the
  namespace holds.
\<close>

theorem peer_mail_is_authentic:
  assumes "peer_recv_timeout E L ns name wait rounds w d = (w', d', Some (Ok m))" "world_wf E w"
    and "\<And>sched f v. (sched, f) \<in> set rounds \<Longrightarrow> world_wf E v \<Longrightarrow> world_wf E (f v)"
  shows "\<exists>bs. authentic E ns w' name m bs"
  by (rule peer_recv_timeout_authentic[where I = "world_wf E", OF assms(1,2), THEN conjunct2])
    (blast intro: assms(3) world_wf_net)+

text \<open>A namespace of \<open>bob\<close> whose only transport always has the given bytes.\<close>

definition bob_namespace :: "bytes \<Rightarrow> (unit, inner) peer_namespace" where
  "bob_namespace bs =
    \<lparr> pn_identity = bob, pn_state = memory_store,
      pn_transports = [\<lparr> ct_kind = Http, ct_transport =
        \<lparr> t_subscribe = default_subscribe, t_send = (\<lambda>n cid b. (n, Ok ())), t_recv = (\<lambda>n cid wait. (n, Ok (Some bs))),
          t_put = (\<lambda>n cid v b. (n, Ok ())), t_get = (\<lambda>n cid. (n, Ok None)) \<rparr> \<rparr>],
      pn_iroh = None \<rparr>"

definition bob_world :: "peer_identity list \<Rightarrow> (unit, inner) peer_world" where
  "bob_world peers =
    \<lparr> pw_net = (), pw_store = inner_default,
      pw_trusted = map (\<lambda>i. (identity_peer_id plain_envelope_env i, trusted_new (identity_card plain_envelope_env i))) peers,
      pw_group_keys = [] \<rparr>"

lemma bob_world_wf: "peers \<in> {[alice], [alice, bob]} \<Longrightarrow> world_wf plain_envelope_env (bob_world peers)"
  by (auto simp: bob_world_def world_wf_def hm_ok_def alice_bob_setup split: if_splits)

lemma bob_receives:
  "\<exists>bs. \<forall>peers \<in> {[alice], [alice, bob]}. \<exists>d m.
    peer_recv_timeout plain_envelope_env list_lru (bob_namespace bs) ''a'' 0 [(\<lambda>ts. ts, \<lambda>w. w)] (bob_world peers) (dedup_new list_lru 4)
      = (bob_world peers, d, Some (Ok m)) \<and> pmm_payload m = [9]"
proof -
  let ?E = plain_envelope_env
  let ?seal = "bind_res (peer_seal ?E fixed_rng alice Mailbox ''a'' [9] [identity_card ?E bob]) (peer_to_bytes ?E)"
  have opens: "\<exists>bs. ?seal = Ok bs \<and> peer_open_bytes ?E bs bob Mailbox ''a'' (trusted_snapshot (bob_world peers))
      = Ok \<lparr> pem_sender = identity_peer_id ?E alice, pem_signed_by = ed_public ?E (id_signing alice), pem_payload = [9] \<rparr>"
    if "peers \<in> {[alice], [alice, bob]}" for peers
    by (rule sealed_note_opens[where t = "trusted_new (identity_card ?E alice)"])
      (use that in \<open>auto simp: alice_bob_setup bob_world_def trusted_snapshot_def\<close>)
  from opens[of "[alice]"] obtain bs where bs: "?seal = Ok bs" by auto
  have "\<exists>d m. peer_recv_timeout ?E list_lru (bob_namespace bs) ''a'' 0 [(\<lambda>ts. ts, \<lambda>w. w)] (bob_world peers) (dedup_new list_lru 4)
      = (bob_world peers, d, Some (Ok m)) \<and> pmm_payload m = [9]" if p: "peers \<in> {[alice], [alice, bob]}" for peers
  proof -
    obtain cid where cid: "peer_transport_id ?E Http (PairwiseAddr (namespace_peer_id ?E (bob_namespace bs))) Mailbox ''a'' = (Ok cid :: (recv_error, _) res)"
      by (simp add: peer_transport_id_def peer_address_id_def hkdf_sha256_def)
    obtain d where d: "observe ?E list_lru (dedup_new list_lru 4) bs = (d, False)"
      by (simp add: observe_def dedup_new_def list_lru_def)
    from opens[OF p] bs have o: "peer_open_bytes ?E bs bob Mailbox ''a'' (trusted_snapshot (bob_world peers))
      = Ok \<lparr> pem_sender = identity_peer_id ?E alice, pem_signed_by = ed_public ?E (id_signing alice), pem_payload = [9] \<rparr>" by auto
    show ?thesis
      using peer_recv_one[of "bob_namespace bs" _ "bob_world peers" "\<lambda>ts. ts" ?E "''a''" cid 0 _ bs list_lru "dedup_new list_lru 4" d]
        cid d o by (simp add: bob_namespace_def bob_world_def peer_fair_def)
  qed
  then show ?thesis by blast
qed

theorem peer_mail_is_authentic_witness:
  "\<exists>bs w d m. peer_recv_timeout plain_envelope_env list_lru (bob_namespace bs) ''a'' 0 [(\<lambda>ts. ts, \<lambda>w. w)] (bob_world [alice])
        (dedup_new list_lru 4) = (w, d, Some (Ok m))
    \<and> pmm_payload m = [9] \<and> (\<exists>bs'. authentic plain_envelope_env (bob_namespace bs) w ''a'' m bs')"
proof -
  from bob_receives obtain bs d m where r: "peer_recv_timeout plain_envelope_env list_lru (bob_namespace bs) ''a'' 0 [(\<lambda>ts. ts, \<lambda>w. w)] (bob_world [alice])
        (dedup_new list_lru 4) = (bob_world [alice], d, Some (Ok m))" "pmm_payload m = [9]" by blast
  have "\<exists>bs'. authentic plain_envelope_env (bob_namespace bs) (bob_world [alice]) ''a'' m bs'"
    by (rule peer_mail_is_authentic[OF r(1)]) (auto simp: bob_world_wf)
  with r show ?thesis by blast
qed

text \<open>
  C13: A revoked peer is silent. After a trusted peer has been removed, no receive returns a message of
  that peer, whatever the transports deliver and whatever the other tasks do, as long as they do not
  trust the peer again.
\<close>

theorem revoked_peer_is_silent:
  assumes "remove_trusted_peer ns p w0 = (w, Ok ())" "world_wf E w0"
    and "peer_recv_timeout E L ns name wait rounds w d = (w', d', Some (Ok m))"
    and "\<And>sched f v. (sched, f) \<in> set rounds \<Longrightarrow> world_wf E v \<Longrightarrow> world_wf E (f v)"
    and "\<And>sched f v. (sched, f) \<in> set rounds \<Longrightarrow> hm_get (pw_trusted v) p = None \<Longrightarrow> hm_get (pw_trusted (f v)) p = None"
  shows "pmm_sender m \<noteq> p"
proof -
  let ?I = "\<lambda>v. world_wf E v \<and> hm_get (pw_trusted v) p = None"
  have "?I w"
    using assms(1) world_wf_remove_trusted_peer[OF assms(2), of ns p]
    by (auto simp: remove_trusted_peer_def Let_def split: prod.splits res.splits)
  moreover have "?I (f v)" if "(sched, f) \<in> set rounds" "?I v" for sched f v using that assms(4,5) by blast
  moreover have "?I (v\<lparr>pw_net := n\<rparr>)" if "?I v" for v n using that world_wf_net by auto
  ultimately obtain bs where "?I w' \<and> authentic E ns w' name m bs"
    using peer_recv_timeout_authentic[OF assms(3), of ?I] by blast
  then show ?thesis by (auto simp: authentic_def trusts_def)
qed

theorem revoked_peer_is_silent_witness:
  "\<exists>bs w d m. remove_trusted_peer (bob_namespace bs) (identity_peer_id plain_envelope_env bob) (bob_world [alice, bob]) = (w, Ok ())
    \<and> peer_recv_timeout plain_envelope_env list_lru (bob_namespace bs) ''a'' 0 [(\<lambda>ts. ts, \<lambda>w. w)] w (dedup_new list_lru 4) = (w, d, Some (Ok m))
    \<and> pmm_sender m \<noteq> identity_peer_id plain_envelope_env bob"
proof -
  from bob_receives obtain bs d m where r: "peer_recv_timeout plain_envelope_env list_lru (bob_namespace bs) ''a'' 0 [(\<lambda>ts. ts, \<lambda>w. w)]
        (bob_world [alice]) (dedup_new list_lru 4) = (bob_world [alice], d, Some (Ok m))" by blast
  have rem: "remove_trusted_peer (bob_namespace bs) (identity_peer_id plain_envelope_env bob) (bob_world [alice, bob]) = (bob_world [alice], Ok ())"
    by (simp add: remove_trusted_peer_def bob_namespace_def bob_world_def memory_store_def inner_remove_trusted_peer_def inner_default_def
        update_iroh_trusted_endpoint_def)
  have "pmm_sender m \<noteq> identity_peer_id plain_envelope_env bob"
    by (rule revoked_peer_is_silent[OF rem _ r]) (auto simp: bob_world_wf)
  with rem r show ?thesis by blast
qed

text \<open>
  C17: Channels of a namespace do not collide. Two addresses for which the derivation of the transport
  identifier gets the same secret and the same context are the same address of the same kind of
  channel with the same name; and two peer slots whose versions are counted under the same key are
  the same slot, which is never a slot of a shared-seed namespace.
\<close>

theorem peer_channels_are_separate:
  assumes "valid_name name" "valid_name name'"
  shows "((snd (peer_address_domain a), peer_address_info a kind name) = (snd (peer_address_domain b), peer_address_info b kind' name')
      \<longleftrightarrow> a = b \<and> kind = kind' \<and> name = name')
    \<and> (peer_slot_state_key name s = peer_slot_state_key name' t \<longleftrightarrow> name = name' \<and> s = t)
    \<and> peer_slot_state_key name s \<noteq> name'"
  using assms
  using peer_address_info_inject[of a b kind name kind' name'] peer_slot_state_key_inject peer_slot_state_key_not_name
  by auto

theorem peer_channels_are_separate_witness:
  "peer_slot_state_key ''a'' PairwiseKey \<noteq> peer_slot_state_key ''a'' (GroupKeyScope [1]) \<and> peer_slot_state_key ''a'' PairwiseKey \<noteq> ''a''"
  using peer_channels_are_separate[of "''a''" "''a''" _ _ _ _ PairwiseKey "GroupKeyScope [1]"] by (simp add: alice_bob_setup)

text \<open>
  C15: A removed peer cannot connect. When the namespace uses an Iroh transport with an allow list,
  removing a trusted peer makes the transport reject the handshake of the endpoint named in the
  peer's card, whatever trust and key operations follow that do not name the endpoint again.
\<close>

theorem removed_peer_cannot_connect:
  assumes "pn_iroh ns = Some (iroh_handle_of G addr)" "it_allowed (pw_net w) \<noteq> None"
    and "hm_get (pw_trusted w) p = Some t" "card_iroh_endpoint (tp_card t) = Some e" "gs_endpoint_ok G (ea_endpoint_id e)"
    and "remove_trusted_peer ns p w = (w', Ok ())"
    and "\<And>t e'. TrustOp t \<in> set ops \<Longrightarrow> card_iroh_endpoint (tp_card t) = Some e' \<Longrightarrow> ea_endpoint_id e' \<noteq> ea_endpoint_id e"
  shows "snd (after_handshake (ea_endpoint_id e) (pw_net (foldl (namespace_step S ns) w' ops))) = Reject 403 ''endpoint not trusted''"
proof -
  have "shut_out (ea_endpoint_id e) (pw_net w')"
    using assms(1-6) revoke_shuts_out[OF assms(2,5)]
    by (auto simp: remove_trusted_peer_def update_iroh_trusted_endpoint_def iroh_handle_of_def endpoint_id_of_def Let_def
        split: prod.splits res.splits)
  then have "shut_out (ea_endpoint_id e) (pw_net (foldl (namespace_step S ns) w' ops))"
    by (rule shut_out_namespace_run[OF assms(1)]) (use assms(7) in blast)
  then show ?thesis by (simp add: shut_out_rejected)
qed

definition listed_namespace :: "(unit iroh_transport, inner) peer_namespace" where
  "listed_namespace =
    \<lparr> pn_identity = bob, pn_state = memory_store, pn_transports = [],
      pn_iroh = Some (iroh_handle_of quiet_gossip (\<lambda>n. \<lparr> ea_endpoint_id = it_endpoint_id n, ea_relay_urls = [], ea_direct_addrs = [] \<rparr>)) \<rparr>"

definition listed_world :: "(unit iroh_transport, inner) peer_world" where
  "listed_world =
    \<lparr> pw_net = sample_iroh\<lparr>it_allowed := Some [replicate 32 5]\<rparr>, pw_store = inner_default,
      pw_trusted = [(card_peer_id sample_card, trusted_new sample_card)], pw_group_keys = [] \<rparr>"

lemma quiet_gossip_endpoint_ok: "gs_endpoint_ok quiet_gossip e \<longleftrightarrow> length e = 32"
  by (simp add: quiet_gossip_def)

theorem removed_peer_cannot_connect_witness:
  "\<exists>w. remove_trusted_peer listed_namespace (card_peer_id sample_card) listed_world = (w, Ok ())
    \<and> snd (after_handshake (replicate 32 5) (pw_net listed_world)) = Accept
    \<and> snd (after_handshake (replicate 32 5) (pw_net (foldl (namespace_step plain_suite listed_namespace) w [UntrustOp []])))
        = Reject 403 ''endpoint not trusted''"
proof -
  obtain w where w: "remove_trusted_peer listed_namespace (card_peer_id sample_card) listed_world = (w, Ok ())"
    by (simp add: remove_trusted_peer_def listed_namespace_def memory_store_def)
  have "snd (after_handshake (ea_endpoint_id \<lparr> ea_endpoint_id = replicate 32 5, ea_relay_urls = [''https://r''], ea_direct_addrs = [''192.0.2.1:1''] \<rparr>)
      (pw_net (foldl (namespace_step plain_suite listed_namespace) w [UntrustOp []]))) = Reject 403 ''endpoint not trusted''"
    by (rule removed_peer_cannot_connect[OF _ _ _ _ _ w, where t = "trusted_new sample_card" and G = quiet_gossip])
      (simp_all add: listed_namespace_def listed_world_def sample_iroh_def trusted_new_def sample_card_def card_new_def
        quiet_gossip_endpoint_ok)
  with w show ?thesis
    by (simp add: listed_world_def sample_iroh_def after_handshake_def)
qed

text \<open>
  C37: Without a trusted endpoint at the start there is no allow list. A namespace opened with an Iroh
  transport and no trusted peer that names an endpoint never rejects a handshake as untrusted: not
  after peers have been trusted, and not after they have been removed again.
\<close>

theorem unlisted_namespace_admits_everyone:
  assumes "peer_namespace_open S B store identity config n st = (w, Ok ns)"
    and "tb_iroh B = iroh_builder G addr store generated g0"
    and "pcf_iroh config = Some ic" "trusted_iroh_endpoints (pcf_trusted_peers config) = []"
  shows "snd (after_handshake eid (pw_net (foldl (namespace_step S ns) w ops))) \<noteq> Reject 403 ''endpoint not trusted''"
proof -
  from open_OkD[OF assms(1)] obtain st' tr where
    t: "open_transports S B identity config n st = (pw_net w, st', Ok (tr, pn_iroh ns))" by blast
  then obtain n1 ir st1 where "open_peer_iroh_transport B config n1 st = (pw_net w, st1, Ok ir)" "pn_iroh ns = map_option snd ir"
    by (auto simp: open_transports_def res_simps split: prod.splits res.splits)
  with open_unlisted[OF this(1) assms(2-4)]
  have "pn_iroh ns = Some (iroh_handle_of G addr)" "it_allowed (pw_net w) = None" by auto
  then have "it_allowed (pw_net (foldl (namespace_step S ns) w ops)) = None" using unguarded_run by blast
  then show ?thesis by (auto simp: after_handshake_def Let_def)
qed

theorem unlisted_namespace_admits_everyone_witness:
  "\<exists>w ns. peer_namespace_open plain_suite (no_builders\<lparr>tb_iroh := iroh_builder quiet_gossip (\<lambda>n. undefined) memory_store (replicate 32 1) ()\<rparr>)
      memory_store bob (bare_config\<lparr>pcf_iroh := Some iroh_config_default\<rparr>) sample_iroh inner_default = (w, Ok ns)
    \<and> snd (after_handshake [] (pw_net (foldl (namespace_step plain_suite ns) w
        [TrustOp (trusted_new sample_card), UntrustOp (card_peer_id sample_card)]))) \<noteq> Reject 403 ''endpoint not trusted''"
proof -
  let ?B = "no_builders\<lparr>tb_iroh := iroh_builder quiet_gossip (\<lambda>n. undefined) memory_store (replicate 32 1) ()\<rparr>"
  let ?c = "bare_config\<lparr>pcf_iroh := Some iroh_config_default\<rparr>"
  obtain w ns where o: "peer_namespace_open plain_suite ?B memory_store bob ?c sample_iroh inner_default = (w, Ok ns)"
    by (simp add: peer_namespace_open_def open_transports_def open_builtin_def open_peer_iroh_transport_def bare_config_def
      no_builders_def iroh_builder_def iroh_new_with_allowed_endpoints_def memory_store_def inner_default_def quiet_gossip_def
      bare_config_endpoints iroh_config_default_def alice_bob_setup Let_def)
  have "snd (after_handshake [] (pw_net (foldl (namespace_step plain_suite ns) w
        [TrustOp (trusted_new sample_card), UntrustOp (card_peer_id sample_card)]))) \<noteq> Reject 403 ''endpoint not trusted''"
    by (rule unlisted_namespace_admits_everyone[OF o, where ic = iroh_config_default])
      (simp_all add: bare_config_def bare_config_endpoints)
  with o show ?thesis by blast
qed

end
