(* ===== verification/Pkarr.thy ===== *)
theory Pkarr
  imports Config Contracts
begin

text \<open>
  \<open>crates/enlace/src/transports/pkarr.rs\<close>: slots as TXT records of a signed DNS packet that a key pair
  publishes. The parts of \<open>vendor/pkarr\<close> it calls are modelled too: names and construction of packets,
  their records, which packet is more recent, and how a resolution chooses among the packets that
  arrive. The DNS encoding, the text codecs and the network are parameters; what other parties do to the
  network between two calls, and the time of each signature, are arguments.
\<close>

section \<open>Signed packets\<close>

type_synonym txt_data = "bytes list"

datatype rdata = TXT txt_data | OtherRData bytes

record resource_record =
  rr_name :: string
  rr_class :: u16
  rr_ttl :: u32
  rr_rdata :: rdata

definition CLASS_IN :: u16 where "CLASS_IN = 1"

text \<open>The answers are what the encoded packet parses to.\<close>

record signed_packet =
  sp_public_key :: bytes
  sp_signature :: bytes
  sp_timestamp :: u64
  sp_encoded :: bytes
  sp_answers :: "resource_record list"

record pkarr_env = suite +
  pk_z32 :: "bytes \<Rightarrow> string"
  pk_build :: "resource_record list \<Rightarrow> (string, bytes) res"
  pk_parse :: "bytes \<Rightarrow> resource_record list option"
  pk_name :: "string \<Rightarrow> (string, string) res"
  pk_txt_from :: "string \<Rightarrow> (string, txt_data) res"
  pk_txt_string :: "txt_data \<Rightarrow> (string, string) res"
  pk_b64_encode :: "bytes \<Rightarrow> string"
  pk_b64_decode :: "string \<Rightarrow> (string, bytes) res"

datatype signed_packet_build_error = PacketTooLarge nat | FailedToWrite string

definition normalize_name :: "string \<Rightarrow> string \<Rightarrow> string" where
  "normalize_name origin name =
    (let name = (if name \<noteq> [] \<and> last name = CHR ''.'' then butlast name else name);
         last_part = rev (takeWhile (\<lambda>c. c \<noteq> CHR ''.'') (rev name))
     in if last_part = origin then name
        else if last_part = ''@'' \<or> last_part = [] then origin
        else name @ ''.'' @ origin)"

definition signable :: "u64 \<Rightarrow> bytes \<Rightarrow> bytes" where
  "signable timestamp v =
    str_bytes (''3:seqi'' @ dec_string (unat timestamp) @ ''e1:v'' @ dec_string (length v) @ '':'') @ v"

definition signed_packet_new ::
  "'z pkarr_env_scheme \<Rightarrow> bytes \<Rightarrow> resource_record list \<Rightarrow> u64 \<Rightarrow> (signed_packet_build_error, signed_packet) res" where
  "signed_packet_new E secret answers timestamp =
    (let public = ed_public E secret;
         origin = pk_z32 E public;
         normalized = map (\<lambda>rr. rr\<lparr>rr_name := normalize_name origin (rr_name rr)\<rparr>) answers
     in bind_res (map_err FailedToWrite (pk_build E normalized)) (\<lambda>encoded.
          if length encoded > 1000 then Err (PacketTooLarge (length encoded))
          else bind_res (expect (pk_parse E encoded)) (\<lambda>parsed.
            Ok \<lparr> sp_public_key = public, sp_signature = ed_sign E secret (signable timestamp encoded),
                 sp_timestamp = timestamp, sp_encoded = encoded, sp_answers = parsed \<rparr>)))"

definition more_recent_than :: "signed_packet \<Rightarrow> signed_packet \<Rightarrow> bool" where
  "more_recent_than p q \<longleftrightarrow>
    (if sp_timestamp p = sp_timestamp q then sp_encoded q < sp_encoded p else sp_timestamp q < sp_timestamp p)"

definition strip_suffix :: "string \<Rightarrow> string \<Rightarrow> string option" where
  "strip_suffix suffix s =
    (if length suffix \<le> length s \<and> drop (length s - length suffix) s = suffix
     then Some (take (length s - length suffix) s) else None)"

definition resource_records :: "'z pkarr_env_scheme \<Rightarrow> string \<Rightarrow> signed_packet \<Rightarrow> resource_record list" where
  "resource_records E name packet =
    (let normalized_name = normalize_name (pk_z32 E (sp_public_key packet)) name
     in filter (\<lambda>rr.
          if normalized_name \<noteq> [] \<and> hd normalized_name = CHR ''*''
          then (case strip_suffix (tl normalized_name) (rr_name rr) of None \<Rightarrow> False | Some m \<Rightarrow> CHR ''.'' \<notin> set m)
          else rr_name rr = normalized_name) (sp_answers packet))"

section \<open>The client\<close>

datatype query_error = QueryTimeout | NoClosestNodes | DhtErrorResponse int string | BadRequest
datatype concurrency_error = ConflictRisk | NotMostRecent | CasFailed
datatype publish_error = PublishQuery query_error | PublishConcurrency concurrency_error | UnexpectedResponses

fun query_error_display :: "query_error \<Rightarrow> string" where
  "query_error_display QueryTimeout = ''Publish query timed out with no responses neither success or errors.''"
| "query_error_display NoClosestNodes = ''Publishing SignedPacket to Mainline failed.''"
| "query_error_display (DhtErrorResponse code description) =
    ''Publishing SignedPacket to Mainline failed code: ''
      @ (if code < 0 then ''-'' else '''') @ dec_string (nat \<bar>code\<bar>) @ '', description: '' @ description @ ''.''"
| "query_error_display BadRequest = ''Most relays responded with bad request''"

fun publish_error_display :: "publish_error \<Rightarrow> string" where
  "publish_error_display (PublishQuery e) = query_error_display e"
| "publish_error_display (PublishConcurrency ConflictRisk) =
    ''A different SignedPacket is being concurrently published for the same PublicKey.''"
| "publish_error_display (PublishConcurrency NotMostRecent) =
    ''Found a more recent SignedPacket in the client's cache''"
| "publish_error_display (PublishConcurrency CasFailed) =
    ''Compare and swap failed; there is a more recent SignedPacket than the one seen before publishing''"
| "publish_error_display UnexpectedResponses =
    ''All relays responded with unexpected responses, check debug logs.''"

text \<open>
  The network: the packets that answer a query, in the order they arrive; the publication of a
  packet; and the end of the bootstrap of the DHT node.
\<close>

record 'w pkarr_network =
  pn_query :: "'w \<Rightarrow> bytes \<Rightarrow> 'w \<times> signed_packet list"
  pn_publish :: "'w \<Rightarrow> signed_packet \<Rightarrow> u64 option \<Rightarrow> 'w \<times> (publish_error, unit) res"
  pn_bootstrapped :: "'w \<Rightarrow> 'w"

text \<open>The cache of a resolution is its own and holds one packet.\<close>

definition filter_incoming_signed_packet :: "signed_packet option \<Rightarrow> signed_packet \<Rightarrow> signed_packet option" where
  "filter_incoming_signed_packet cached packet =
    (case cached of
       None \<Rightarrow> Some packet
     | Some c \<Rightarrow> if more_recent_than packet c then Some packet else cached)"

definition resolve_most_recent :: "'w pkarr_network \<Rightarrow> 'w \<Rightarrow> bytes \<Rightarrow> 'w \<times> signed_packet option" where
  "resolve_most_recent C w public_key =
    (case pn_query C w public_key of (w, packets) \<Rightarrow> (w, foldl filter_incoming_signed_packet None packets))"

section \<open>Slot records\<close>

definition RECORD_PREFIX :: string where "RECORD_PREFIX = ''enlace-slot-v1''"
definition DEFAULT_RECORD_TTL :: u32 where "DEFAULT_RECORD_TTL = 300"
definition MAX_PUBLISH_ATTEMPTS :: nat where "MAX_PUBLISH_ATTEMPTS = 4"

fun splitn :: "nat \<Rightarrow> char \<Rightarrow> string \<Rightarrow> string list" where
  "splitn 0 c s = []"
| "splitn (Suc 0) c s = [s]"
| "splitn (Suc (Suc n)) c s =
    (case dropWhile (\<lambda>x. x \<noteq> c) s of
       [] \<Rightarrow> [s]
     | _ # r \<Rightarrow> takeWhile (\<lambda>x. x \<noteq> c) s # splitn (Suc n) c r)"

definition digit16 :: "char \<Rightarrow> nat option" where
  "digit16 c =
    (let n = of_char c in
     if 65 \<le> n \<and> n \<le> (70 :: nat) then Some (n - 55) else hex_value c)"

fun radix16_digits :: "nat \<Rightarrow> string \<Rightarrow> (string, nat) res" where
  "radix16_digits acc [] = Ok acc"
| "radix16_digits acc (c # s) =
    (case digit16 c of
       None \<Rightarrow> Err ''invalid digit found in string''
     | Some d \<Rightarrow>
         if acc * 16 + d \<ge> 2 ^ 64 then Err ''number too large to fit in target type''
         else radix16_digits (acc * 16 + d) s)"

text \<open>\<open>u64::from_str_radix\<close> with radix 16.\<close>

definition u64_from_str_radix16 :: "string \<Rightarrow> (string, u64) res" where
  "u64_from_str_radix16 s =
    (if s = [] then Err ''cannot parse integer from empty string''
     else if s = ''+'' then Err ''invalid digit found in string''
     else map_ok of_nat (radix16_digits 0 (if hd s = CHR ''+'' then tl s else s)))"

definition decode_slot_record :: "'z pkarr_env_scheme \<Rightarrow> txt_data \<Rightarrow> (transport_error, u64 \<times> bytes) res" where
  "decode_slot_record E txt_record =
    bind_res (map_err Other (pk_txt_string E txt_record)) (\<lambda>encoded.
      case splitn 3 (CHR '':'') encoded of
        [prefix, version, sealed] \<Rightarrow>
          if prefix \<noteq> RECORD_PREFIX then Err (Network ''malformed pkarr slot record'')
          else bind_res (map_err Other (u64_from_str_radix16 version)) (\<lambda>version.
               bind_res (map_err Other (pk_b64_decode E sealed)) (\<lambda>sealed.
               Ok (version, sealed)))
      | _ \<Rightarrow> Err (Network ''malformed pkarr slot record''))"

definition encode_slot_record :: "'z pkarr_env_scheme \<Rightarrow> u64 \<Rightarrow> bytes \<Rightarrow> string" where
  "encode_slot_record E version sealed =
    RECORD_PREFIX @ '':'' @ hex_encode (u64_be version) @ '':'' @ pk_b64_encode E sealed"

definition record_name :: "bytes \<Rightarrow> string" where
  "record_name cid = hex_encode cid"

definition normalized_record_name :: "'z pkarr_env_scheme \<Rightarrow> bytes \<Rightarrow> string \<Rightarrow> string" where
  "normalized_record_name E public_key name = name @ ''.'' @ pk_z32 E public_key"

definition slot_record :: "'z pkarr_env_scheme \<Rightarrow> signed_packet \<Rightarrow> bytes \<Rightarrow> (transport_error, (u64 \<times> bytes) option) res" where
  "slot_record E packet cid =
    (case List.map_filter (\<lambda>rr. case rr_rdata rr of TXT t \<Rightarrow> Some t | _ \<Rightarrow> None)
        (resource_records E (record_name cid) packet) of
       [] \<Rightarrow> Ok None
     | t # _ \<Rightarrow> map_ok Some (decode_slot_record E t))"

fun map_build_error :: "signed_packet_build_error \<Rightarrow> transport_error" where
  "map_build_error (PacketTooLarge _) = BodyTooLarge"
| "map_build_error (FailedToWrite err) = Other err"

definition sign_packet ::
  "'z pkarr_env_scheme \<Rightarrow> bytes \<Rightarrow> resource_record list \<Rightarrow> string \<Rightarrow> string \<Rightarrow> u32 \<Rightarrow> u64 \<Rightarrow>
    (transport_error, signed_packet) res" where
  "sign_packet E secret preserved name val ttl now =
    bind_res (map_err Other (pk_name E name)) (\<lambda>name.
    bind_res (map_err Other (pk_txt_from E val)) (\<lambda>txt.
      map_err map_build_error
        (signed_packet_new E secret
          (preserved @ [\<lparr> rr_name = name, rr_class = CLASS_IN, rr_ttl = ttl, rr_rdata = TXT txt \<rparr>]) now)))"

text \<open>The loop of \<open>build_packet\<close>: the preserved records are given up from the end until the packet fits.\<close>

function sign_fitting ::
  "'z pkarr_env_scheme \<Rightarrow> bytes \<Rightarrow> resource_record list \<Rightarrow> string \<Rightarrow> string \<Rightarrow> u32 \<Rightarrow> u64 \<Rightarrow>
    (transport_error, signed_packet) res" where
  "sign_fitting E secret preserved name val ttl now =
    (case sign_packet E secret preserved name val ttl now of
       Ok packet \<Rightarrow> Ok packet
     | Err err \<Rightarrow>
         if err = BodyTooLarge \<and> preserved \<noteq> [] then sign_fitting E secret (butlast preserved) name val ttl now
         else Err err
     | Panic \<Rightarrow> Panic)"
  by pat_completeness auto
termination by (relation "measure (\<lambda>(E, secret, preserved, _). length preserved)") auto

declare sign_fitting.simps [simp del]

definition build_packet ::
  "'z pkarr_env_scheme \<Rightarrow> bytes \<Rightarrow> bytes \<Rightarrow> signed_packet option \<Rightarrow> bytes \<Rightarrow> u64 \<Rightarrow> bytes \<Rightarrow> u32 \<Rightarrow> u64 \<Rightarrow>
    (transport_error, signed_packet) res" where
  "build_packet E secret public_key current cid version sealed ttl now =
    (let name = record_name cid;
         target = normalized_record_name E public_key name;
         preserved = filter (\<lambda>rr. rr_name rr \<noteq> target) (case current of None \<Rightarrow> [] | Some p \<Rightarrow> sp_answers p)
     in sign_fitting E secret preserved name (encode_slot_record E version sealed) ttl now)"

section \<open>The transport\<close>

record pkarr_transport =
  pt_keypair :: bytes
  pt_public_key :: bytes
  pt_record_ttl :: u32
  pt_poll_interval :: duration

record pkarr_slot_id =
  ps_keypair :: bytes
  ps_public_key :: bytes
  ps_record :: bytes

definition pkarr_keypair :: "'z suite_scheme \<Rightarrow> bytes \<Rightarrow> ('e, bytes) res" where
  "pkarr_keypair S seed = derive_key32 S seed (str_bytes ''enlace/v1/key/pkarr-id'')"

definition record_ttl :: "duration \<Rightarrow> u32" where
  "record_ttl interval =
    (if as_secs interval < 2 ^ 32
     then (if as_secs interval = 0 then DEFAULT_RECORD_TTL else of_nat (as_secs interval))
     else - 1)"

definition poll_interval :: "duration \<Rightarrow> duration" where
  "poll_interval interval = (if interval = 0 then from_secs (unat DEFAULT_RECORD_TTL) else interval)"

text \<open>The client builder, with its defaults cleared; whether DHT support is compiled in is a flag.\<close>

record 'b client_builder =
  cb_dht_feature :: bool
  cb_start :: 'b
  cb_relays :: "'b \<Rightarrow> string list \<Rightarrow> (string, 'b) res"
  cb_dht :: "'b \<Rightarrow> 'b"
  cb_bootstrap :: "'b \<Rightarrow> string list \<Rightarrow> 'b"
  cb_request_timeout :: "'b \<Rightarrow> duration \<Rightarrow> 'b"

definition apply_relays :: "'b client_builder \<Rightarrow> pkarr_config \<Rightarrow> 'b \<Rightarrow> (transport_error, 'b) res" where
  "apply_relays B config b = map_err Other (cb_relays B b (effective_resolvers config))"

definition apply_dht :: "'b client_builder \<Rightarrow> pkarr_config \<Rightarrow> 'b \<Rightarrow> (transport_error, 'b) res" where
  "apply_dht B config b =
    (if cb_dht_feature B
     then (let b = cb_dht B b; bootstrap = effective_bootstrap config
           in Ok (if bootstrap = [] then b else cb_bootstrap B b bootstrap))
     else Err (Network ''pkarr DHT mode requires the 'pkarr-dht' feature on a non-wasm target''))"

definition pkarr_new ::
  "'z suite_scheme \<Rightarrow> 'b client_builder \<Rightarrow> ('b \<Rightarrow> (string, 'c) res) \<Rightarrow> bytes \<Rightarrow> pkarr_config \<Rightarrow>
    (transport_error, 'c \<times> pkarr_transport) res" where
  "pkarr_new S B build seed config =
    bind_res (case pc_network config of
        Relays \<Rightarrow> apply_relays B config (cb_start B)
      | DhtOnly \<Rightarrow> apply_dht B config (cb_start B)
      | Both \<Rightarrow> bind_res (apply_relays B config (cb_start B)) (apply_dht B config)) (\<lambda>b.
    let b = (if pc_request_timeout config = 0 then b else cb_request_timeout B b (pc_request_timeout config))
    in bind_res (map_err Other (build b)) (\<lambda>client.
       bind_res (pkarr_keypair S seed) (\<lambda>keypair.
       Ok (client,
           \<lparr> pt_keypair = keypair, pt_public_key = ed_public S keypair,
             pt_record_ttl = record_ttl (pc_republish_interval config),
             pt_poll_interval = poll_interval (pc_republish_interval config) \<rparr>))))"

text \<open>A short id names a record of the transport's own key; a long one is the seed of a key with one record.\<close>

definition pkarr_slot_id_of :: "'z suite_scheme \<Rightarrow> pkarr_transport \<Rightarrow> bytes \<Rightarrow> (transport_error, pkarr_slot_id) res" where
  "pkarr_slot_id_of S T cid =
    (if length cid = 16 then Ok \<lparr> ps_keypair = pt_keypair T, ps_public_key = pt_public_key T, ps_record = cid \<rparr>
     else if length cid = 32 then
       bind_res (pkarr_keypair S cid) (\<lambda>keypair.
         Ok \<lparr> ps_keypair = keypair, ps_public_key = ed_public S keypair, ps_record = replicate 16 0 \<rparr>)
     else Err (Network ''pkarr channel id must be 16 or 32 bytes''))"

definition pkarr_slot_get_since ::
  "'z pkarr_env_scheme \<Rightarrow> 'w pkarr_network \<Rightarrow> pkarr_slot_id \<Rightarrow> u64 \<Rightarrow> 'w \<Rightarrow>
    'w \<times> (transport_error, (u64 \<times> bytes) option) res" where
  "pkarr_slot_get_since E C sid since w =
    (case resolve_most_recent C w (ps_public_key sid) of
       (w, None) \<Rightarrow> (w, Ok None)
     | (w, Some packet) \<Rightarrow>
         (w, map_ok (\<lambda>r. case r of
               None \<Rightarrow> None
             | Some (version, sealed) \<Rightarrow> if version \<le> since then None else Some (version, sealed))
           (slot_record E packet (ps_record sid))))"

fun map_publish_error :: "publish_error \<Rightarrow> transport_error" where
  "map_publish_error (PublishConcurrency _) = Stale"
| "map_publish_error (PublishQuery QueryTimeout) = Timeout"
| "map_publish_error err = Other (publish_error_display err)"

definition is_transient_publish_error :: "publish_error \<Rightarrow> bool" where
  "is_transient_publish_error err \<longleftrightarrow>
    (case err of
       PublishConcurrency _ \<Rightarrow> True
     | PublishQuery e \<Rightarrow> e \<in> {NoClosestNodes, BadRequest}
     | UnexpectedResponses \<Rightarrow> False)"

text \<open>
  The attempts of a put. Attempt \<open>i\<close> starts after \<open>sched_before i\<close>, other parties act once more between its
  resolution and its publication (\<open>sched_between i\<close>), and it signs at time \<open>sched_now i\<close>.
\<close>

record 'w put_schedule =
  sched_before :: "nat \<Rightarrow> 'w \<Rightarrow> 'w"
  sched_between :: "nat \<Rightarrow> 'w \<Rightarrow> 'w"
  sched_now :: "nat \<Rightarrow> u64"

fun put_attempts ::
  "'z pkarr_env_scheme \<Rightarrow> 'w pkarr_network \<Rightarrow> pkarr_transport \<Rightarrow> pkarr_slot_id \<Rightarrow> u64 \<Rightarrow> bytes \<Rightarrow> 'w put_schedule \<Rightarrow>
    nat list \<Rightarrow> transport_error option \<Rightarrow> 'w \<Rightarrow> 'w \<times> (transport_error, unit) res" where
  "put_attempts E C T sid version sealed X [] last_err w = (w, Err (case last_err of None \<Rightarrow> Stale | Some e \<Rightarrow> e))"
| "put_attempts E C T sid version sealed X (attempt # attempts) last_err w =
    (case resolve_most_recent C (sched_before X attempt w) (ps_public_key sid) of
       (w, current) \<Rightarrow>
         (case (case current of None \<Rightarrow> Ok None | Some packet \<Rightarrow> slot_record E packet (ps_record sid)) of
            Err e \<Rightarrow> (w, Err e)
          | Panic \<Rightarrow> (w, Panic)
          | Ok found \<Rightarrow>
              if (case found of None \<Rightarrow> False | Some (current_version, _) \<Rightarrow> current_version \<ge> version)
              then (w, Err Stale)
              else
                (case build_packet E (ps_keypair sid) (ps_public_key sid) current (ps_record sid) version sealed
                    (pt_record_ttl T) (sched_now X attempt) of
                   Err e \<Rightarrow> (w, Err e)
                 | Panic \<Rightarrow> (w, Panic)
                 | Ok packet \<Rightarrow>
                     (case pn_publish C (sched_between X attempt w) packet (map_option sp_timestamp current) of
                        (w, Ok _) \<Rightarrow> (w, Ok ())
                      | (w, Panic) \<Rightarrow> (w, Panic)
                      | (w, Err err) \<Rightarrow>
                          if \<not> is_transient_publish_error err then (w, Err (map_publish_error err))
                          else
                            (let needs_bootstrap = (err = PublishQuery NoClosestNodes);
                                 w = (if attempt + 1 < MAX_PUBLISH_ATTEMPTS \<and> needs_bootstrap
                                      then pn_bootstrapped C w else w)
                             in put_attempts E C T sid version sealed X attempts (Some (map_publish_error err)) w)))))"

definition pkarr_put ::
  "'z pkarr_env_scheme \<Rightarrow> 'w pkarr_network \<Rightarrow> pkarr_transport \<Rightarrow> 'w put_schedule \<Rightarrow> 'w \<Rightarrow> bytes \<Rightarrow> u64 \<Rightarrow> bytes \<Rightarrow>
    'w \<times> (transport_error, unit) res" where
  "pkarr_put E C T X w cid version sealed =
    (case pkarr_slot_id_of E T cid of
       Ok sid \<Rightarrow> put_attempts E C T sid version sealed X [0..<MAX_PUBLISH_ATTEMPTS] None w
     | Err e \<Rightarrow> (w, Err e)
     | Panic \<Rightarrow> (w, Panic))"

definition pkarr_get ::
  "'z pkarr_env_scheme \<Rightarrow> 'w pkarr_network \<Rightarrow> pkarr_transport \<Rightarrow> 'w \<Rightarrow> bytes \<Rightarrow>
    'w \<times> (transport_error, (u64 \<times> bytes) option) res" where
  "pkarr_get E C T w cid =
    (case pkarr_slot_id_of E T cid of
       Ok sid \<Rightarrow> pkarr_slot_get_since E C sid 0 w
     | Err e \<Rightarrow> (w, Err e)
     | Panic \<Rightarrow> (w, Panic))"

text \<open>The watch polls; each round starts with what other parties did since the last one.\<close>

fun pkarr_watch_loop ::
  "'z pkarr_env_scheme \<Rightarrow> 'w pkarr_network \<Rightarrow> pkarr_slot_id \<Rightarrow> u64 \<Rightarrow> ('w \<Rightarrow> 'w) list \<Rightarrow> 'w \<Rightarrow>
    (transport_error, u64 \<times> bytes) res list" where
  "pkarr_watch_loop E C sid since [] w = []"
| "pkarr_watch_loop E C sid since (others # rounds) w =
    (case pkarr_slot_get_since E C sid since (others w) of
       (w, Ok (Some (version, val))) \<Rightarrow> Ok (version, val) # pkarr_watch_loop E C sid version rounds w
     | (w, Ok None) \<Rightarrow> pkarr_watch_loop E C sid since rounds w
     | (w, Err err) \<Rightarrow> Err err # pkarr_watch_loop E C sid since rounds w
     | (w, Panic) \<Rightarrow> [Panic])"

definition pkarr_watch ::
  "'z pkarr_env_scheme \<Rightarrow> 'w pkarr_network \<Rightarrow> pkarr_transport \<Rightarrow> bytes \<Rightarrow> u64 \<Rightarrow> ('w \<Rightarrow> 'w) list \<Rightarrow> 'w \<Rightarrow>
    (transport_error, u64 \<times> bytes) res list" where
  "pkarr_watch E C T cid since rounds w =
    (case pkarr_slot_id_of E T cid of
       Ok sid \<Rightarrow> pkarr_watch_loop E C sid since rounds w
     | _ \<Rightarrow> [Err (Network ''pkarr channel id must be 16 or 32 bytes'')])"

definition pkarr_as_transport ::
  "'z pkarr_env_scheme \<Rightarrow> 'w pkarr_network \<Rightarrow> pkarr_transport \<Rightarrow> 'w put_schedule \<Rightarrow> 'w transport" where
  "pkarr_as_transport E C T X =
    \<lparr> t_subscribe = default_subscribe, t_send = (\<lambda>w cid sealed. (w, Err Unsupported)),
      t_recv = (\<lambda>w cid wait. (w, Err Unsupported)), t_put = pkarr_put E C T X, t_get = pkarr_get E C T \<rparr>"

section \<open>What the codecs promise\<close>

definition pkarr_codec_ok :: "'z pkarr_env_scheme \<Rightarrow> bool" where
  "pkarr_codec_ok E \<longleftrightarrow>
    (\<forall>rs b. pk_build E rs = Ok b \<longrightarrow> pk_parse E b = Some rs)
    \<and> (\<forall>s t. pk_txt_from E s = Ok t \<longrightarrow> pk_txt_string E t = Ok s)
    \<and> (\<forall>n m. pk_name E n = Ok m \<longrightarrow> m = n)
    \<and> (\<forall>b. pk_b64_decode E (pk_b64_encode E b) = Ok b)
    \<and> (\<forall>k. length (pk_z32 E k) = 52 \<and> CHR ''.'' \<notin> set (pk_z32 E k) \<and> CHR ''*'' \<notin> set (pk_z32 E k))"

section \<open>Slot records\<close>

lemma digit16_hex_char: "n < 16 \<Longrightarrow> digit16 (hex_char n) = Some n"
proof -
  have "list_all (\<lambda>n. digit16 (hex_char n) = Some n) [0..<16]" by code_simp
  then show "n < 16 \<Longrightarrow> ?thesis" by (simp add: list_all_iff)
qed

lemma be_val_append: "be_val (xs @ ys) = be_val xs * 256 ^ length ys + be_val ys"
  by (induction ys rule: rev_induct) (simp_all add: algebra_simps flip: append_assoc)

lemma be_val_Cons: "be_val (b # bs) = unat b * 256 ^ length bs + be_val bs"
  using be_val_append[of "[b]" bs] be_val_snoc[of "[]" b] by simp

lemma radix16_byte:
  assumes "h < 16" "l < 16" "acc * 256 + (h * 16 + l) < 2 ^ 64"
  shows "radix16_digits acc (hex_char h # hex_char l # s) = radix16_digits (acc * 256 + (h * 16 + l)) s"
proof -
  have "(acc * 16 + h) * 16 + l = acc * 256 + (h * 16 + l)" by (simp add: algebra_simps)
  moreover have "acc * 16 + h < 2 ^ 64" using assms(3) by simp
  ultimately show ?thesis using assms(3) by (simp add: digit16_hex_char[OF assms(1)] digit16_hex_char[OF assms(2)] not_le algebra_simps del: power_numeral)
qed

lemma radix16_hex:
  "acc * 256 ^ length bs + be_val bs < 2 ^ 64 \<Longrightarrow> radix16_digits acc (hex_encode bs) = Ok (acc * 256 ^ length bs + be_val bs)"
proof (induction bs arbitrary: acc)
  case (Cons b bs)
  have b: "unat b div 16 * 16 + unat b mod 16 = unat b" by simp
  have tot: "(acc * 256 + unat b) * 256 ^ length bs + be_val bs = acc * 256 ^ length (b # bs) + be_val (b # bs)"
    by (simp add: be_val_Cons algebra_simps)
  with Cons.prems have lt: "(acc * 256 + unat b) * 256 ^ length bs + be_val bs < 2 ^ 64" by (simp only:)
  have "acc * 256 + unat b \<le> (acc * 256 + unat b) * 256 ^ length bs" by simp
  with lt have "acc * 256 + unat b < 2 ^ 64" by (simp only:)
  then have "radix16_digits acc (hex_encode (b # bs)) = radix16_digits (acc * 256 + unat b) (hex_encode bs)"
    unfolding hex_encode_Cons by (subst radix16_byte) (simp_all only: b unat_u8_div mod_less_divisor zero_less_numeral)
  with Cons.IH[OF lt] tot show ?case by (simp only:)
qed simp

lemma hex_no: "c \<notin> set ''0123456789abcdef'' \<Longrightarrow> c \<notin> set (hex_encode bs)"
  using hex_encode_lower[of bs] unfolding list_all_iff is_lower_hex_def by blast

lemma from_str_radix16_hex: "u64_from_str_radix16 (hex_encode (u64_be v)) = Ok v"
proof -
  have ne: "hex_encode (u64_be v) \<noteq> []" by (metis length_0_conv length_hex_encode length_u64_be mult_eq_0_iff zero_neq_numeral)
  have "CHR ''+'' \<notin> set (hex_encode (u64_be v))" by (rule hex_no) simp
  then have "hd (hex_encode (u64_be v)) \<noteq> CHR ''+''" "hex_encode (u64_be v) \<noteq> ''+''"
    using ne by (metis hd_in_set, metis list.set_intros(1))
  moreover have "be_val (u64_be v) < 2 ^ 64" using be_val_less[of "u64_be v"] by simp
  moreover have "of_nat (be_val (u64_be v)) = v" using u64_of_be_u64_be[of v] by (simp add: u64_of_be_def)
  ultimately show ?thesis using ne radix16_hex[of 0 "u64_be v"] by (simp add: u64_from_str_radix16_def)
qed

lemma takeWhile_sep: "c \<notin> set a \<Longrightarrow> takeWhile (\<lambda>x. x \<noteq> c) (a @ c # b) = a"
  by (induction a) auto

lemma dropWhile_sep: "c \<notin> set a \<Longrightarrow> dropWhile (\<lambda>x. x \<noteq> c) (a @ c # b) = c # b"
  by (induction a) auto

lemma splitn_sep: "c \<notin> set a \<Longrightarrow> splitn (Suc (Suc n)) c (a @ c # b) = a # splitn (Suc n) c b"
  by (simp add: takeWhile_sep dropWhile_sep)

text \<open>A record is read back as it was written.\<close>

lemma decode_encode_slot_record:
  assumes "pkarr_codec_ok E" "pk_txt_from E (encode_slot_record E version sealed) = Ok t"
  shows "decode_slot_record E t = Ok (version, sealed)"
proof -
  have "CHR '':'' \<notin> set (hex_encode (u64_be version))" by (rule hex_no) simp
  then have "splitn 3 (CHR '':'') (encode_slot_record E version sealed)
      = [RECORD_PREFIX, hex_encode (u64_be version), pk_b64_encode E sealed]"
    using splitn_sep[of "CHR '':''" RECORD_PREFIX 1 "hex_encode (u64_be version) @ CHR '':'' # pk_b64_encode E sealed"]
      splitn_sep[of "CHR '':''" "hex_encode (u64_be version)" 0 "pk_b64_encode E sealed"]
    by (simp add: encode_slot_record_def numeral_3_eq_3 RECORD_PREFIX_def del: splitn.simps(3))
  then show ?thesis using assms by (auto simp: decode_slot_record_def pkarr_codec_ok_def from_str_radix16_hex)
qed

section \<open>Names\<close>

lemma last_part_append: "c \<notin> set b \<Longrightarrow> rev (takeWhile (\<lambda>x. x \<noteq> c) (rev (a @ c # b))) = b"
  using takeWhile_sep[of c "rev b" "rev a"] by simp

lemma normalize_under_origin:
  assumes "CHR ''.'' \<notin> set origin" "origin \<noteq> []"
  shows "normalize_name origin (name @ ''.'' @ origin) = name @ ''.'' @ origin"
proof -
  have "last origin \<noteq> CHR ''.''" using assms last_in_set by metis
  then have "last (name @ ''.'' @ origin) \<noteq> CHR ''.''" using assms(2) by simp
  then show ?thesis using last_part_append[of "CHR ''.''" origin name] assms by (simp add: normalize_name_def Let_def)
qed

lemma normalize_label:
  assumes "CHR ''.'' \<notin> set name" "name \<noteq> []" "name \<noteq> ''@''" "name \<noteq> origin"
  shows "normalize_name origin name = name @ ''.'' @ origin"
proof -
  have "rev (takeWhile (\<lambda>c. c \<noteq> CHR ''.'') (rev name)) = name"
    using assms(1) by (subst takeWhile_eq_all_conv[THEN iffD2]) auto
  moreover have "last name \<noteq> CHR ''.''" using assms(1,2) last_in_set by metis
  ultimately show ?thesis using assms by (simp add: normalize_name_def Let_def)
qed

lemma normalize_record_name:
  assumes "pkarr_codec_ok E" "length cid = 16"
  shows "normalize_name (pk_z32 E k) (record_name cid) = normalized_record_name E k (record_name cid)"
proof -
  have "length (record_name cid) = 32" using assms(2) by (simp add: record_name_def)
  moreover have "CHR ''.'' \<notin> set (record_name cid)" unfolding record_name_def by (rule hex_no) simp
  moreover have "length (pk_z32 E k) = 52" using assms(1) by (simp add: pkarr_codec_ok_def)
  ultimately show ?thesis unfolding normalized_record_name_def by (intro normalize_label) auto
qed

lemma normalized_record_name_inject:
  "normalized_record_name E k (record_name a) = normalized_record_name E k (record_name b) \<longleftrightarrow> a = b"
  by (simp add: normalized_record_name_def record_name_def)

text \<open>A packet of a key: its records are named below the key.\<close>

definition packet_ok :: "'z pkarr_env_scheme \<Rightarrow> bytes \<Rightarrow> signed_packet \<Rightarrow> bool" where
  "packet_ok E k p \<longleftrightarrow>
    sp_public_key p = k \<and> list_all (\<lambda>rr. normalize_name (pk_z32 E k) (rr_name rr) = rr_name rr) (sp_answers p)"

definition txt_of :: "resource_record \<Rightarrow> txt_data option" where
  "txt_of rr = (case rr_rdata rr of TXT t \<Rightarrow> Some t | _ \<Rightarrow> None)"

definition records_at :: "'z pkarr_env_scheme \<Rightarrow> bytes \<Rightarrow> bytes \<Rightarrow> resource_record list \<Rightarrow> resource_record list" where
  "records_at E k cid rrs = filter (\<lambda>rr. rr_name rr = normalized_record_name E k (record_name cid)) rrs"

lemma resource_records_at:
  assumes "pkarr_codec_ok E" "sp_public_key p = k" "length cid = 16"
  shows "resource_records E (record_name cid) p = records_at E k cid (sp_answers p)"
proof -
  have n: "normalize_name (pk_z32 E k) (record_name cid) = normalized_record_name E k (record_name cid)"
    using normalize_record_name assms by blast
  have "record_name cid \<noteq> []" using assms(3) by (auto simp: record_name_def simp flip: length_0_conv)
  moreover have "CHR ''*'' \<notin> set (record_name cid)" unfolding record_name_def by (rule hex_no) simp
  ultimately have "hd (normalized_record_name E k (record_name cid)) \<noteq> CHR ''*''"
    by (metis hd_append2 hd_in_set normalized_record_name_def)
  with n assms(2) show ?thesis by (simp add: resource_records_def records_at_def Let_def)
qed

definition first_slot :: "'z pkarr_env_scheme \<Rightarrow> resource_record list \<Rightarrow> (transport_error, (u64 \<times> bytes) option) res" where
  "first_slot E rrs = (case List.map_filter txt_of rrs of [] \<Rightarrow> Ok None | t # _ \<Rightarrow> map_ok Some (decode_slot_record E t))"

lemma slot_record_at:
  assumes "pkarr_codec_ok E" "sp_public_key p = k" "length cid = 16"
  shows "slot_record E p cid = first_slot E (records_at E k cid (sp_answers p))"
  using resource_records_at[OF assms] by (simp add: slot_record_def first_slot_def txt_of_def[abs_def])

section \<open>Building a packet\<close>

lemma sign_packet_OkD:
  assumes "pkarr_codec_ok E" "sign_packet E secret preserved name val ttl now = Ok packet"
  shows "\<exists>t. pk_txt_from E val = Ok t \<and> sp_public_key packet = ed_public E secret \<and> sp_timestamp packet = now
    \<and> sp_answers packet = map (\<lambda>rr. rr\<lparr>rr_name := normalize_name (pk_z32 E (ed_public E secret)) (rr_name rr)\<rparr>)
        (preserved @ [\<lparr> rr_name = name, rr_class = CLASS_IN, rr_ttl = ttl, rr_rdata = TXT t \<rparr>])"
proof -
  from assms(2) obtain m t where mt: "pk_name E name = Ok m" "pk_txt_from E val = Ok t"
    "signed_packet_new E secret (preserved @ [\<lparr> rr_name = m, rr_class = CLASS_IN, rr_ttl = ttl, rr_rdata = TXT t \<rparr>]) now = Ok packet"
    by (auto simp: sign_packet_def res_simps)
  then have "m = name" using assms(1) by (auto simp: pkarr_codec_ok_def)
  with mt assms(1) show ?thesis
    by (auto simp: signed_packet_new_def Let_def res_simps pkarr_codec_ok_def split: if_splits)
qed

lemma sign_fitting_OkD:
  "sign_fitting E secret preserved name val ttl now = Ok packet \<Longrightarrow>
    \<exists>k \<le> length preserved. sign_packet E secret (take k preserved) name val ttl now = Ok packet
      \<and> (\<forall>j. k < j \<and> j \<le> length preserved \<longrightarrow> sign_packet E secret (take j preserved) name val ttl now = Err BodyTooLarge)"
proof (induction E secret preserved name val ttl now rule: sign_fitting.induct)
  case (1 E secret preserved name val ttl now)
  show ?case
  proof (cases "sign_packet E secret preserved name val ttl now")
    case (Ok q)
    with 1(2) show ?thesis by (intro exI[of _ "length preserved"]) (simp add: sign_fitting.simps)
  next
    case (Err err)
    with 1(2) have too: "err = BodyTooLarge" "preserved \<noteq> []"
      "sign_fitting E secret (butlast preserved) name val ttl now = Ok packet"
      by (auto simp: sign_fitting.simps[of E secret preserved] split: if_splits)
    from 1(1)[OF Err _ too(3)] too obtain k where k: "k \<le> length preserved - 1"
      "sign_packet E secret (take k (butlast preserved)) name val ttl now = Ok packet"
      "\<forall>j. k < j \<and> j \<le> length preserved - 1 \<longrightarrow> sign_packet E secret (take j (butlast preserved)) name val ttl now = Err BodyTooLarge"
      by auto
    have "take j (butlast preserved) = take j preserved" if "j \<le> length preserved - 1" for j
      using that by (simp add: butlast_conv_take)
    moreover have "j \<le> length preserved - 1 \<or> take j preserved = preserved" for j by auto
    ultimately show ?thesis using k Err too by (intro exI[of _ k]) (metis diff_le_self le_trans)
  next
    case Panic
    with 1(2) show ?thesis by (simp add: sign_fitting.simps)
  qed
qed

lemma packet_ok_normal:
  "packet_ok E k p \<Longrightarrow> rr \<in> set (sp_answers p) \<Longrightarrow> rr\<lparr>rr_name := normalize_name (pk_z32 E k) (rr_name rr)\<rparr> = rr"
  by (auto simp: packet_ok_def list_all_iff)

text \<open>
  A packet that is built keeps a prefix of the other records, the longest that fits, and ends with
  the new one.
\<close>

definition other_records :: "'z pkarr_env_scheme \<Rightarrow> bytes \<Rightarrow> signed_packet option \<Rightarrow> bytes \<Rightarrow> resource_record list" where
  "other_records E public_key current cid =
    filter (\<lambda>rr. rr_name rr \<noteq> normalized_record_name E public_key (record_name cid))
      (case current of None \<Rightarrow> [] | Some p \<Rightarrow> sp_answers p)"

lemma build_packet_OkD:
  assumes "pkarr_codec_ok E" "length cid = 16" "public_key = ed_public E secret"
    and "\<And>p. current = Some p \<Longrightarrow> packet_ok E public_key p"
    and "build_packet E secret public_key current cid version sealed ttl now = Ok packet"
  shows "\<exists>k t. k \<le> length (other_records E public_key current cid)
    \<and> sp_public_key packet = public_key \<and> sp_timestamp packet = now \<and> packet_ok E public_key packet
    \<and> sp_answers packet = take k (other_records E public_key current cid)
        @ [\<lparr> rr_name = normalized_record_name E public_key (record_name cid), rr_class = CLASS_IN, rr_ttl = ttl, rr_rdata = TXT t \<rparr>]
    \<and> decode_slot_record E t = Ok (version, sealed)
    \<and> (k < length (other_records E public_key current cid) \<longrightarrow>
        sign_packet E secret (other_records E public_key current cid) (record_name cid) (encode_slot_record E version sealed) ttl now
          = Err BodyTooLarge)"
proof -
  let ?P = "other_records E public_key current cid"
  let ?z = "pk_z32 E public_key"
  let ?target = "normalized_record_name E public_key (record_name cid)"
  have z: "CHR ''.'' \<notin> set ?z" "?z \<noteq> []" using assms(1) by (auto simp: pkarr_codec_ok_def simp flip: length_0_conv)
  have "sign_fitting E secret ?P (record_name cid) (encode_slot_record E version sealed) ttl now = Ok packet"
    using assms(5) by (simp add: build_packet_def other_records_def Let_def)
  from sign_fitting_OkD[OF this] obtain k where k: "k \<le> length ?P"
    "sign_packet E secret (take k ?P) (record_name cid) (encode_slot_record E version sealed) ttl now = Ok packet"
    "\<forall>j. k < j \<and> j \<le> length ?P \<longrightarrow> sign_packet E secret (take j ?P) (record_name cid) (encode_slot_record E version sealed) ttl now = Err BodyTooLarge"
    by blast
  from sign_packet_OkD[OF assms(1) k(2)] obtain t where t: "pk_txt_from E (encode_slot_record E version sealed) = Ok t"
    "sp_public_key packet = public_key" "sp_timestamp packet = now"
    "sp_answers packet = map (\<lambda>rr. rr\<lparr>rr_name := normalize_name ?z (rr_name rr)\<rparr>)
        (take k ?P @ [\<lparr> rr_name = record_name cid, rr_class = CLASS_IN, rr_ttl = ttl, rr_rdata = TXT t \<rparr>])"
    using assms(3) by auto
  have "map (\<lambda>rr. rr\<lparr>rr_name := normalize_name ?z (rr_name rr)\<rparr>) (take k ?P) = take k ?P"
    using packet_ok_normal[OF assms(4)] by (intro map_idI) (auto simp: other_records_def dest!: in_set_takeD split: option.splits)
  then have ans: "sp_answers packet = take k ?P @ [\<lparr> rr_name = ?target, rr_class = CLASS_IN, rr_ttl = ttl, rr_rdata = TXT t \<rparr>]"
    using t(4) normalize_record_name[OF assms(1,2), of public_key] by simp
  moreover have "packet_ok E public_key packet"
  proof -
    have "normalize_name ?z (rr_name rr) = rr_name rr" if "rr \<in> set (take k ?P)" for rr
      using that assms(4) by (auto simp: other_records_def packet_ok_def list_all_iff dest!: in_set_takeD split: option.splits)
    moreover have "normalize_name ?z ?target = ?target"
      using normalize_under_origin[OF z] by (simp add: normalized_record_name_def)
    ultimately show ?thesis using t(2) by (auto simp: packet_ok_def ans list_all_iff)
  qed
  ultimately show ?thesis
    using k(1) k(3)[rule_format, of "length ?P"] t(2,3) decode_encode_slot_record[OF assms(1) t(1)] by (intro exI[of _ k] exI[of _ t]) simp
qed

lemma records_at_append: "records_at E k cid (xs @ ys) = records_at E k cid xs @ records_at E k cid ys"
  by (simp add: records_at_def)

lemma first_slot_new:
  "txt_of rr = Some t \<Longrightarrow> decode_slot_record E t = Ok (version, sealed) \<Longrightarrow> first_slot E [rr] = Ok (Some (version, sealed))"
  by (simp add: first_slot_def List.map_filter_def)

text \<open>The new record is found, and so are the records of other slots that were kept.\<close>

lemma built_slot_record:
  assumes "pkarr_codec_ok E" "length cid = 16" "public_key = ed_public E secret"
    and "\<And>p. current = Some p \<Longrightarrow> packet_ok E public_key p"
    and "build_packet E secret public_key current cid version sealed ttl now = Ok packet"
  shows "slot_record E packet cid = Ok (Some (version, sealed))"
proof -
  from build_packet_OkD[OF assms] obtain k t where kt: "sp_public_key packet = public_key"
    "sp_answers packet = take k (other_records E public_key current cid)
        @ [\<lparr> rr_name = normalized_record_name E public_key (record_name cid), rr_class = CLASS_IN, rr_ttl = ttl, rr_rdata = TXT t \<rparr>]"
    "decode_slot_record E t = Ok (version, sealed)" by blast
  have "records_at E public_key cid (take k (other_records E public_key current cid)) = []"
    by (auto simp: records_at_def other_records_def filter_empty_conv dest!: in_set_takeD)
  with kt(2) have "records_at E public_key cid (sp_answers packet)
      = [\<lparr> rr_name = normalized_record_name E public_key (record_name cid), rr_class = CLASS_IN, rr_ttl = ttl, rr_rdata = TXT t \<rparr>]"
    by (simp add: records_at_append) (simp add: records_at_def)
  then show ?thesis
    using slot_record_at[OF assms(1) kt(1) assms(2)] first_slot_new[OF _ kt(3)] by (simp add: txt_of_def)
qed

lemma records_at_others:
  "other \<noteq> cid \<Longrightarrow> records_at E k other (other_records E k (Some p) cid) = records_at E k other (sp_answers p)"
  unfolding records_at_def other_records_def filter_filter option.case
  by (intro filter_cong) (auto simp: normalized_record_name_inject)

section \<open>Putting and getting\<close>

text \<open>
  A network that remembers, per key, the last packet published; \<open>cur\<close> reads it.
\<close>

definition remembers :: "'w pkarr_network \<Rightarrow> ('w \<Rightarrow> bytes \<Rightarrow> signed_packet option) \<Rightarrow> bool" where
  "remembers C cur \<longleftrightarrow>
    (\<forall>w k. resolve_most_recent C w k = (w, cur w k))
    \<and> (\<forall>w p cas w' r. pn_publish C w p cas = (w', r) \<longrightarrow> cur w' = (if r = Ok () then (cur w)(sp_public_key p \<mapsto> p) else cur w))
    \<and> (\<forall>w. cur (pn_bootstrapped C w) = cur w)"

definition key_ok :: "'z pkarr_env_scheme \<Rightarrow> ('w \<Rightarrow> bytes \<Rightarrow> signed_packet option) \<Rightarrow> bytes \<Rightarrow> 'w \<Rightarrow> bool" where
  "key_ok E cur k w \<longleftrightarrow> (\<forall>p. cur w k = Some p \<longrightarrow> packet_ok E k p)"

definition keeps_key_ok :: "'z pkarr_env_scheme \<Rightarrow> ('w \<Rightarrow> bytes \<Rightarrow> signed_packet option) \<Rightarrow> bytes \<Rightarrow> 'w put_schedule \<Rightarrow> bool" where
  "keeps_key_ok E cur k X \<longleftrightarrow>
    (\<forall>i w. key_ok E cur k w \<longrightarrow> key_ok E cur k (sched_before X i w) \<and> key_ok E cur k (sched_between X i w))"

lemma put_attempts_OkD:
  assumes "remembers C cur" "keeps_key_ok E cur (ps_public_key sid) X"
  shows "put_attempts E C T sid version sealed X attempts last_err w = (w', Ok ()) \<Longrightarrow> key_ok E cur (ps_public_key sid) w \<Longrightarrow>
    \<exists>i w1 packet. key_ok E cur (ps_public_key sid) w1
      \<and> build_packet E (ps_keypair sid) (ps_public_key sid) (cur w1 (ps_public_key sid)) (ps_record sid) version sealed
          (pt_record_ttl T) (sched_now X i) = Ok packet
      \<and> (\<forall>p v b. cur w1 (ps_public_key sid) = Some p \<and> slot_record E p (ps_record sid) = Ok (Some (v, b)) \<longrightarrow> v < version)
      \<and> pn_publish C (sched_between X i w1) packet (map_option sp_timestamp (cur w1 (ps_public_key sid))) = (w', Ok ())"
proof (induction attempts arbitrary: last_err w)
  case (Cons i attempts)
  let ?k = "ps_public_key sid"
  let ?w1 = "sched_before X i w"
  have ok1: "key_ok E cur ?k ?w1" using Cons.prems(2) assms(2) by (simp add: keeps_key_ok_def)
  have res: "resolve_most_recent C ?w1 ?k = (?w1, cur ?w1 ?k)" using assms(1) by (simp add: remembers_def)
  let ?found = "case cur ?w1 ?k of None \<Rightarrow> Ok None | Some packet \<Rightarrow> slot_record E packet (ps_record sid)"
  from Cons.prems(1) obtain found where found: "?found = Ok found"
    and fresh: "\<not> (case found of None \<Rightarrow> False | Some (current_version, _) \<Rightarrow> current_version \<ge> version)"
    by (auto simp: res split: res.splits if_splits)
  from Cons.prems(1) obtain packet where packet: "build_packet E (ps_keypair sid) ?k (cur ?w1 ?k) (ps_record sid) version sealed
          (pt_record_ttl T) (sched_now X i) = Ok packet"
    using fresh found by (auto simp: res split: res.splits)
  obtain w2 r where pub: "pn_publish C (sched_between X i ?w1) packet (map_option sp_timestamp (cur ?w1 ?k)) = (w2, r)" by fastforce
  show ?case
  proof (cases r)
    case (Ok u)
    have "v < version" if "cur ?w1 ?k = Some p" "slot_record E p (ps_record sid) = Ok (Some (v, b))" for p v b
      using that found fresh by (auto simp: not_le)
    with Ok pub Cons.prems(1) found fresh packet ok1 res show ?thesis by (intro exI[of _ i] exI[of _ ?w1] exI[of _ packet]) simp
  next
    case (Err err)
    have cur2: "cur w2 = cur (sched_between X i ?w1)" using assms(1) pub Err by (auto simp: remembers_def)
    have ok2: "key_ok E cur ?k (sched_between X i ?w1)" using ok1 assms(2) by (simp add: keeps_key_ok_def)
    let ?w3 = "if i + 1 < MAX_PUBLISH_ATTEMPTS \<and> err = PublishQuery NoClosestNodes then pn_bootstrapped C w2 else w2"
    have "cur ?w3 = cur w2" using assms(1) by (simp add: remembers_def)
    with cur2 ok2 have ok3: "key_ok E cur ?k ?w3" by (simp add: key_ok_def)
    have "put_attempts E C T sid version sealed X attempts (Some (map_publish_error err)) ?w3 = (w', Ok ())"
      using Cons.prems(1) found fresh packet pub Err res by (auto split: if_splits)
    from Cons.IH[OF this ok3] show ?thesis .
  next
    case Panic
    with Cons.prems(1) found fresh packet pub res show ?thesis by simp
  qed
qed simp

lemma slot_id_ok:
  assumes "pkarr_slot_id_of E T cid = Ok sid" "pt_public_key T = ed_public E (pt_keypair T)"
  shows "length (ps_record sid) = 16 \<and> ps_public_key sid = ed_public E (ps_keypair sid)"
  using assms by (auto simp: pkarr_slot_id_of_def res_simps split: if_splits)

lemma get_since_resolved:
  assumes "remembers C cur" "cur w (ps_public_key sid) = Some p" "slot_record E p (ps_record sid) = Ok r"
  shows "pkarr_slot_get_since E C sid since w =
    (w, Ok (case r of None \<Rightarrow> None | Some (v, b) \<Rightarrow> if v \<le> since then None else Some (v, b)))"
  using assms by (simp add: pkarr_slot_get_since_def remembers_def)

text \<open>A transport as its constructor makes it holds its own public key.\<close>

lemma pkarr_new_key: "pkarr_new S B build seed config = Ok (c, T) \<Longrightarrow> pt_public_key T = ed_public S (pt_keypair T)"
  by (auto simp: pkarr_new_def res_simps Let_def)

lemma pkarr_slot_get_since_newer: "pkarr_slot_get_since E C sid since w = (w', Ok (Some (v, b))) \<Longrightarrow> since < v"
  by (auto simp: pkarr_slot_get_since_def res_simps not_le case_prod_beta split: prod.splits option.splits if_splits)

text \<open>
  The most recent packet is chosen. A resolution returns a packet exactly when one arrives, and then
  one that no packet among those that arrived is more recent than, whatever their order.
\<close>

lemma filter_incoming_fold:
  assumes "foldl filter_incoming_signed_packet cached ps = Some p"
  shows "(p \<in> set ps \<or> cached = Some p) \<and> (\<forall>q \<in> set ps. \<not> more_recent_than q p) \<and> (\<forall>c. cached = Some c \<longrightarrow> \<not> more_recent_than c p)"
  using assms
proof (induction ps arbitrary: cached)
  case Nil
  then show ?case by (auto simp: more_recent_than_def)
next
  case (Cons q ps)
  have trans: "\<not> more_recent_than c p" if "\<not> more_recent_than q p" "more_recent_than q c" for c
    using that by (auto simp: more_recent_than_def split: if_splits)
  have weak: "\<not> more_recent_than q p" if "\<not> more_recent_than c p" "\<not> more_recent_than q c" for c
    using that by (auto simp: more_recent_than_def not_less split: if_splits)
  show ?case
  proof (cases cached)
    case None
    with Cons.prems Cons.IH[of "Some q"] show ?thesis by (auto simp: filter_incoming_signed_packet_def)
  next
    case (Some c)
    show ?thesis
    proof (cases "more_recent_than q c")
      case True
      with Some Cons.prems Cons.IH[of "Some q"] trans show ?thesis by (auto simp: filter_incoming_signed_packet_def)
    next
      case False
      with Some Cons.prems Cons.IH[of "Some c"] weak show ?thesis by (auto simp: filter_incoming_signed_packet_def)
    qed
  qed
qed

lemma resolve_is_most_recent:
  "resolve_most_recent C w k = (w', Some p) \<Longrightarrow>
    \<exists>ps. pn_query C w k = (w', ps) \<and> p \<in> set ps \<and> (\<forall>q \<in> set ps. \<not> more_recent_than q p)"
  using filter_incoming_fold[of None "snd (pn_query C w k)" p]
  by (auto simp: resolve_most_recent_def split: prod.splits)

text \<open>
  A put that fits keeps the other slots. When the whole of the old records and the new one fit into one
  packet, and no other writer interferes, every other slot of the key reads after the put as it did before.
\<close>

lemma pkarr_put_keeps_others:
  assumes "pkarr_codec_ok E" "length cid = 16" "length other = 16" "other \<noteq> cid" "public_key = ed_public E secret"
    and "packet_ok E public_key p"
    and "build_packet E secret public_key (Some p) cid version sealed ttl now = Ok packet"
    and "sign_packet E secret (other_records E public_key (Some p) cid) (record_name cid) (encode_slot_record E version sealed) ttl now
          \<noteq> Err BodyTooLarge"
  shows "slot_record E packet other = slot_record E p other"
proof -
  let ?P = "other_records E public_key (Some p) cid"
  from build_packet_OkD[OF assms(1,2,5) _ assms(7)] assms(6,8) obtain k t where
    k: "k \<le> length ?P" "\<not> k < length ?P" "sp_public_key packet = public_key"
    "sp_answers packet = take k ?P
        @ [\<lparr> rr_name = normalized_record_name E public_key (record_name cid), rr_class = CLASS_IN, rr_ttl = ttl, rr_rdata = TXT t \<rparr>]"
    by (metis option.inject)
  then have "records_at E public_key other (sp_answers packet) = records_at E public_key other (sp_answers p)"
    using records_at_others[OF assms(4)] assms(4)
    by (simp add: records_at_append) (simp add: records_at_def normalized_record_name_inject)
  moreover have "sp_public_key p = public_key" using assms(6) by (simp add: packet_ok_def)
  ultimately show ?thesis using slot_record_at[OF assms(1) _ assms(3)] k(3) by metis
qed

text \<open>The versions a watch yields, in order.\<close>

fun ok_pairs :: "(transport_error, u64 \<times> bytes) res list \<Rightarrow> u64 list" where
  "ok_pairs [] = []"
| "ok_pairs (Ok (v, _) # rs) = v # ok_pairs rs"
| "ok_pairs (_ # rs) = ok_pairs rs"

lemma pkarr_watch_increases: "sorted_wrt (<) (since # ok_pairs (pkarr_watch_loop E C sid since rounds w))"
proof (induction rounds arbitrary: since w)
  case (Cons others rounds)
  obtain w' r where r: "pkarr_slot_get_since E C sid since (others w) = (w', r)" by fastforce
  show ?case
  proof (cases "\<exists>v b. r = Ok (Some (v, b))")
    case True
    then obtain v b where "r = Ok (Some (v, b))" by blast
    with r pkarr_slot_get_since_newer[of E C sid since "others w" w' v b] Cons.IH[of v w'] show ?thesis by (auto intro: less_trans)
  next
    case False
    with r Cons.IH[of since w'] show ?thesis by (cases r) (auto split: option.splits)
  qed
qed simp

section \<open>Properties\<close>

text \<open>A concrete codec, which pads every record to more than half a packet, and a network that is a table.\<close>

definition record_fields :: "resource_record \<Rightarrow> bytes list" where
  "record_fields rr =
    [str_bytes (rr_name rr), be_bytes 2 (unat (rr_class rr)), u32_be (rr_ttl rr),
     (case rr_rdata rr of TXT t \<Rightarrow> 0 # fields_enc t | OtherRData b \<Rightarrow> 1 # b)]"

fun records_of :: "bytes list \<Rightarrow> resource_record list" where
  "records_of (n # c # t # d # fs) =
    \<lparr> rr_name = bytes_str n, rr_class = of_nat (be_val c), rr_ttl = u32_of_be t,
      rr_rdata = (if hd d = 0 then TXT (fields_dec [] (tl d)) else OtherRData (tl d)) \<rparr> # records_of fs"
| "records_of _ = []"

definition padded_env :: pkarr_env where
  "padded_env =
    suite.extend plain_suite
      \<lparr> pk_z32 = (\<lambda>k. replicate 52 (CHR ''y'')),
        pk_build = (\<lambda>rs. Ok (replicate (600 * length rs) 0 @ 1 # fields_enc (concat (map record_fields rs)))),
        pk_parse = (\<lambda>b. Some (records_of (fields_dec [] (tl (dropWhile (\<lambda>x. x = 0) b))))),
        pk_name = Ok, pk_txt_from = (\<lambda>s. Ok [str_bytes s]), pk_txt_string = (\<lambda>t. Ok (bytes_str (concat t))),
        pk_b64_encode = bytes_str, pk_b64_decode = (\<lambda>s. Ok (str_bytes s)) \<rparr>"

definition table_network :: "(bytes \<times> signed_packet) list pkarr_network" where
  "table_network =
    \<lparr> pn_query = (\<lambda>w k. (w, case hm_get w k of None \<Rightarrow> [] | Some p \<Rightarrow> [p])),
      pn_publish = (\<lambda>w p cas.
        if cas = None \<or> map_option sp_timestamp (hm_get w (sp_public_key p)) = cas
        then (hm_insert (sp_public_key p) p w, Ok ()) else (w, Err (PublishConcurrency CasFailed))),
      pn_bootstrapped = (\<lambda>w. w) \<rparr>"

definition quiet_schedule :: "'w put_schedule" where
  "quiet_schedule = \<lparr> sched_before = (\<lambda>i w. w), sched_between = (\<lambda>i w. w), sched_now = (\<lambda>i. 7) \<rparr>"

definition sample_pkarr :: pkarr_transport where
  "sample_pkarr =
    \<lparr> pt_keypair = replicate 32 1, pt_public_key = ed_public padded_env (replicate 32 1), pt_record_ttl = 300, pt_poll_interval = 1 \<rparr>"

lemma records_of_fields [simp]: "records_of (concat (map record_fields rs)) = rs"
proof (induction rs)
  case (Cons rr rs)
  have "be_val (be_bytes 2 (unat (rr_class rr))) = unat (rr_class rr)"
    using unsigned_less[of "rr_class rr", where 'a = nat] by (simp add: be_val_be_bytes)
  with Cons show ?case by (auto simp: record_fields_def split: rdata.split)
qed simp

lemma dropWhile_replicate [simp]: "P x \<Longrightarrow> dropWhile P (replicate n x @ xs) = dropWhile P xs"
  by (induction n) auto

lemma padded_env_sel:
  "pk_z32 padded_env = (\<lambda>k. replicate 52 (CHR ''y''))"
  "pk_build padded_env = (\<lambda>rs. Ok (replicate (600 * length rs) 0 @ 1 # fields_enc (concat (map record_fields rs))))"
  "pk_parse padded_env = (\<lambda>b. Some (records_of (fields_dec [] (tl (dropWhile (\<lambda>x. x = 0) b)))))"
  "pk_name padded_env = Ok" "pk_txt_from padded_env = (\<lambda>s. Ok [str_bytes s])" "pk_txt_string padded_env = (\<lambda>t. Ok (bytes_str (concat t)))"
  "pk_b64_encode padded_env = bytes_str" "pk_b64_decode padded_env = (\<lambda>s. Ok (str_bytes s))"
  by (simp_all add: padded_env_def suite.defs)

lemma padded_env_ok: "pkarr_codec_ok padded_env"
  by (auto simp: pkarr_codec_ok_def padded_env_sel)

lemma table_network_remembers: "remembers table_network hm_get"
  by (auto simp: remembers_def table_network_def resolve_most_recent_def filter_incoming_signed_packet_def split: option.splits if_splits)

lemma length_fields_enc: "length (fields_enc fs) = sum_list (map (\<lambda>b. 2 * length b + 1) fs)"
proof -
  have "length (concat (map (\<lambda>x. [1, x]) b)) = 2 * length b" for b :: bytes by (induction b) auto
  then show ?thesis by (induction fs) (auto simp: fields_enc_def)
qed

text \<open>One record fits, two do not.\<close>

lemma padded_one:
  assumes "length cid = 16" "length sealed \<le> 8"
  shows "\<exists>packet. sign_packet padded_env secret [] (record_name cid) (encode_slot_record padded_env v sealed) ttl now = Ok packet"
proof -
  have n: "length (normalize_name (replicate 52 (CHR ''y'')) (record_name cid)) = 85"
    using normalize_record_name[OF padded_env_ok assms(1)] assms(1)
    by (simp add: padded_env_sel normalized_record_name_def record_name_def)
  show ?thesis
    using assms(2) n by (simp add: sign_packet_def signed_packet_new_def padded_env_sel length_fields_enc record_fields_def
        encode_slot_record_def RECORD_PREFIX_def Let_def bytes_str_def)
qed

lemma padded_two:
  "sign_packet padded_env secret [rr] (record_name cid) (encode_slot_record padded_env v sealed) ttl now = Err BodyTooLarge"
  by (simp add: sign_packet_def signed_packet_new_def padded_env_sel Let_def)



text \<open>
  C40: A put can erase another slot. When the records of a key and the new one do not fit into one packet,
  the put succeeds all the same: it gives up the last record of the old packet, and the slot that was
  stored there can no longer be read.
\<close>

theorem pkarr_put_erases_other_slot:
  assumes "pkarr_codec_ok E" "remembers C cur" "pt_public_key T = ed_public E (pt_keypair T)"
    and "length cid = 16" "length other = 16" "other \<noteq> cid"
    and "cur w (pt_public_key T) = Some p" "packet_ok E (pt_public_key T) p"
    and "\<And>i v. sched_before X i v = v" "\<And>i v. sched_between X i v = v"
    and "other_records E (pt_public_key T) (Some p) cid = rrs @ [rr]" "slot_record E p cid = Ok None"
    and "records_at E (pt_public_key T) other rrs = []"
    and "sign_packet E (pt_keypair T) (rrs @ [rr]) (record_name cid) (encode_slot_record E version sealed) (pt_record_ttl T) (sched_now X 0)
          = Err BodyTooLarge"
    and "sign_packet E (pt_keypair T) rrs (record_name cid) (encode_slot_record E version sealed) (pt_record_ttl T) (sched_now X 0) = Ok packet"
    and "pn_publish C w packet (Some (sp_timestamp p)) = (w', Ok ())"
  shows "pkarr_put E C T X w cid version sealed = (w', Ok ()) \<and> pkarr_get E C T w' other = (w', Ok None)"
proof -
  let ?k = "pt_public_key T"
  have "sign_fitting E (pt_keypair T) (rrs @ [rr]) (record_name cid) (encode_slot_record E version sealed) (pt_record_ttl T) (sched_now X 0) = Ok packet"
    using assms(14,15) by (simp add: sign_fitting.simps)
  then have built: "build_packet E (pt_keypair T) ?k (Some p) cid version sealed (pt_record_ttl T) (sched_now X 0) = Ok packet"
    using assms(11) by (simp add: build_packet_def other_records_def Let_def)
  have sid: "pkarr_slot_id_of E T c = Ok \<lparr> ps_keypair = pt_keypair T, ps_public_key = ?k, ps_record = c \<rparr>" if "length c = 16" for c
    using that by (simp add: pkarr_slot_id_of_def)
  have "resolve_most_recent C w ?k = (w, Some p)" using assms(2,7) by (simp add: remembers_def)
  then have put: "pkarr_put E C T X w cid version sealed = (w', Ok ())"
    using assms(9,10,12,16) built by (simp add: pkarr_put_def sid[OF assms(4)] MAX_PUBLISH_ATTEMPTS_def upt_rec numeral_eq_Suc)
  from sign_packet_OkD[OF assms(1,15)] obtain t where t: "sp_public_key packet = ?k"
    "sp_answers packet = map (\<lambda>rr. rr\<lparr>rr_name := normalize_name (pk_z32 E ?k) (rr_name rr)\<rparr>)
        (rrs @ [\<lparr> rr_name = record_name cid, rr_class = CLASS_IN, rr_ttl = pt_record_ttl T, rr_rdata = TXT t \<rparr>])"
    using assms(3) by auto
  have "set rrs \<subseteq> set (sp_answers p)" using assms(11) by (metis Un_iff filter_is_subset option.case(2) other_records_def set_append subset_eq)
  then have "map (\<lambda>rr. rr\<lparr>rr_name := normalize_name (pk_z32 E ?k) (rr_name rr)\<rparr>) rrs = rrs"
    using packet_ok_normal[OF assms(8)] by (intro map_idI) blast
  with t(2) have "records_at E ?k other (sp_answers packet) = []"
    using assms(6,13) normalize_record_name[OF assms(1,4), of ?k]
    by (simp add: records_at_append) (simp add: records_at_def normalized_record_name_inject)
  then have "slot_record E packet other = Ok None"
    using slot_record_at[OF assms(1) t(1) assms(5)] by (simp add: first_slot_def List.map_filter_def)
  moreover have "cur w' ?k = Some packet" using assms(2,16) t(1) by (auto simp: remembers_def)
  ultimately show ?thesis
    using put get_since_resolved[OF assms(2), of w' "\<lparr> ps_keypair = pt_keypair T, ps_public_key = ?k, ps_record = other \<rparr>" packet E]
    by (simp add: pkarr_get_def sid[OF assms(5)])
qed

theorem pkarr_put_erases_other_slot_witness:
  "\<exists>w w'. pkarr_get padded_env table_network sample_pkarr w (replicate 16 3) = (w, Ok (Some (5, [9])))
    \<and> pkarr_put padded_env table_network sample_pkarr quiet_schedule w (replicate 16 4) 1 [8] = (w', Ok ())
    \<and> pkarr_get padded_env table_network sample_pkarr w' (replicate 16 3) = (w', Ok None)"
proof -
  let ?E = padded_env and ?k = "ed_public padded_env (replicate 32 1)" and ?cid = "replicate 16 4 :: bytes" and ?other = "replicate 16 3 :: bytes"
  obtain p where p: "sign_packet ?E (replicate 32 1) [] (record_name ?other) (encode_slot_record ?E 5 [9]) 300 7 = Ok p"
    using padded_one[of ?other "[9]" "replicate 32 1" 5 300 7] by auto
  obtain packet where packet: "sign_packet ?E (replicate 32 1) [] (record_name ?cid) (encode_slot_record ?E 1 [8]) 300 7 = Ok packet"
    using padded_one[of ?cid "[8]" "replicate 32 1" 1 300 7] by auto
  have built: "build_packet ?E (replicate 32 1) ?k None ?other 5 [9] 300 7 = Ok p"
    using p by (simp add: build_packet_def sign_fitting.simps)
  from build_packet_OkD[OF padded_env_ok _ _ _ built] obtain t where
    t: "sp_public_key p = ?k" "packet_ok ?E ?k p"
    "sp_answers p = [\<lparr> rr_name = normalized_record_name ?E ?k (record_name ?other), rr_class = CLASS_IN, rr_ttl = 300, rr_rdata = TXT t \<rparr>]"
    by (auto simp: other_records_def)
  note slot = built_slot_record[OF padded_env_ok _ _ _ built]
  have cid: "slot_record ?E p ?cid = Ok None"
    using slot_record_at[OF padded_env_ok t(1), of ?cid] t(3) by (simp add: records_at_def normalized_record_name_inject first_slot_def List.map_filter_def)
  have others: "other_records ?E ?k (Some p) ?cid = [] @ [\<lparr> rr_name = normalized_record_name ?E ?k (record_name ?other), rr_class = CLASS_IN, rr_ttl = 300, rr_rdata = TXT t \<rparr>]"
    using t(3) by (simp add: other_records_def normalized_record_name_inject)
  let ?w = "[(?k, p)]"
  have k: "sp_public_key packet = ?k" using sign_packet_OkD[OF padded_env_ok packet] by blast
  have T: "pt_public_key sample_pkarr = ?k" "pt_keypair sample_pkarr = replicate 32 1" "pt_record_ttl sample_pkarr = 300" by (simp_all add: sample_pkarr_def)
  have "pkarr_put ?E table_network sample_pkarr quiet_schedule ?w ?cid 1 [8] = (hm_insert ?k packet ?w, Ok ())
    \<and> pkarr_get ?E table_network sample_pkarr (hm_insert ?k packet ?w) ?other = (hm_insert ?k packet ?w, Ok None)"
    by (rule pkarr_put_erases_other_slot[OF padded_env_ok table_network_remembers, where p = p and packet = packet and rrs = "[]"])
      (use t packet cid others k padded_two in \<open>auto simp: T quiet_schedule_def table_network_def records_at_def\<close>)
  moreover have "pkarr_get ?E table_network sample_pkarr ?w ?other = (?w, Ok (Some (5, [9])))"
    using get_since_resolved[OF table_network_remembers, of ?w "\<lparr> ps_keypair = replicate 32 1, ps_public_key = ?k, ps_record = ?other \<rparr>" p ?E] slot
    by (simp add: pkarr_get_def pkarr_slot_id_of_def sample_pkarr_def)
  ultimately show ?thesis by blast
qed

end
