(* ===== verification/Guard.thy ===== *)
theory Guard
  imports Kdf
begin

unbundle bit_operations_syntax

text \<open>
  \<open>crates/enlace/src/guard.rs\<close>: the checks of names and hosts that applications apply to untrusted input,
  with the address classes of the standard library they use. Parsing a URL is a parameter.
\<close>

section \<open>Addresses\<close>

datatype ipv4_addr = Ipv4 u8 u8 u8 u8

datatype ipv6_addr = Ipv6 u16 u16 u16 u16 u16 u16 u16 u16

datatype ip_addr = V4 ipv4_addr | V6 ipv6_addr

datatype host = HostIpv4 ipv4_addr | HostIpv6 ipv6_addr | HostDomain string

record url =
  url_scheme :: string
  url_host :: "host option"

fun ipv4_is_private :: "ipv4_addr \<Rightarrow> bool" where
  "ipv4_is_private (Ipv4 a b c d) \<longleftrightarrow> a = 10 \<or> a = 172 \<and> b AND 0xf0 = 16 \<or> a = 192 \<and> b = 168"

fun ipv4_is_loopback :: "ipv4_addr \<Rightarrow> bool" where
  "ipv4_is_loopback (Ipv4 a b c d) \<longleftrightarrow> a = 127"

fun ipv4_is_link_local :: "ipv4_addr \<Rightarrow> bool" where
  "ipv4_is_link_local (Ipv4 a b c d) \<longleftrightarrow> a = 169 \<and> b = 254"

fun ipv4_is_broadcast :: "ipv4_addr \<Rightarrow> bool" where
  "ipv4_is_broadcast (Ipv4 a b c d) \<longleftrightarrow> a = 255 \<and> b = 255 \<and> c = 255 \<and> d = 255"

fun ipv4_is_documentation :: "ipv4_addr \<Rightarrow> bool" where
  "ipv4_is_documentation (Ipv4 a b c d) \<longleftrightarrow>
    a = 192 \<and> b = 0 \<and> c = 2 \<or> a = 198 \<and> b = 51 \<and> c = 100 \<or> a = 203 \<and> b = 0 \<and> c = 113"

fun ipv4_is_unspecified :: "ipv4_addr \<Rightarrow> bool" where
  "ipv4_is_unspecified (Ipv4 a b c d) \<longleftrightarrow> a = 0 \<and> b = 0 \<and> c = 0 \<and> d = 0"

fun ipv4_is_multicast :: "ipv4_addr \<Rightarrow> bool" where
  "ipv4_is_multicast (Ipv4 a b c d) \<longleftrightarrow> 224 \<le> a \<and> a \<le> 239"

fun ipv6_is_loopback :: "ipv6_addr \<Rightarrow> bool" where
  "ipv6_is_loopback ip \<longleftrightarrow> ip = Ipv6 0 0 0 0 0 0 0 1"

fun ipv6_is_unspecified :: "ipv6_addr \<Rightarrow> bool" where
  "ipv6_is_unspecified ip \<longleftrightarrow> ip = Ipv6 0 0 0 0 0 0 0 0"

fun ipv6_is_unique_local :: "ipv6_addr \<Rightarrow> bool" where
  "ipv6_is_unique_local (Ipv6 a _ _ _ _ _ _ _) \<longleftrightarrow> a AND 0xfe00 = 0xfc00"

fun ipv6_is_unicast_link_local :: "ipv6_addr \<Rightarrow> bool" where
  "ipv6_is_unicast_link_local (Ipv6 a _ _ _ _ _ _ _) \<longleftrightarrow> a AND 0xffc0 = 0xfe80"

fun ipv6_is_multicast :: "ipv6_addr \<Rightarrow> bool" where
  "ipv6_is_multicast (Ipv6 a _ _ _ _ _ _ _) \<longleftrightarrow> a AND 0xff00 = 0xff00"

section \<open>The guards\<close>

definition validate_channel_name :: "string \<Rightarrow> (name_error, unit) res" where
  "validate_channel_name name = validate_name name"

definition ipv4_is_public :: "ipv4_addr \<Rightarrow> bool" where
  "ipv4_is_public ip \<longleftrightarrow>
    \<not> (ipv4_is_private ip \<or> ipv4_is_loopback ip \<or> ipv4_is_link_local ip \<or> ipv4_is_broadcast ip
        \<or> ipv4_is_documentation ip \<or> ipv4_is_unspecified ip \<or> ipv4_is_multicast ip)"

fun is_ipv6_documentation :: "ipv6_addr \<Rightarrow> bool" where
  "is_ipv6_documentation (Ipv6 a b _ _ _ _ _ _) \<longleftrightarrow> a = 0x2001 \<and> b = 0x0db8"

definition ipv6_is_public :: "ipv6_addr \<Rightarrow> bool" where
  "ipv6_is_public ip \<longleftrightarrow>
    \<not> (ipv6_is_loopback ip \<or> ipv6_is_unspecified ip \<or> ipv6_is_unique_local ip \<or> ipv6_is_unicast_link_local ip
        \<or> ipv6_is_multicast ip \<or> is_ipv6_documentation ip)"

definition host_is_public :: "(string \<Rightarrow> url option) \<Rightarrow> string \<Rightarrow> bool" where
  "host_is_public parse text =
    (case parse text of
       None \<Rightarrow> False
     | Some u \<Rightarrow>
         if url_scheme u \<noteq> ''https'' then False
         else case url_host u of
                Some (HostIpv4 ip) \<Rightarrow> ipv4_is_public ip
              | Some (HostIpv6 ip) \<Rightarrow> ipv6_is_public ip
              | _ \<Rightarrow> False)"

section \<open>Properties\<close>

text \<open>The IPv6 address that stands for an IPv4 address, \<open>::ffff:a.b.c.d\<close>.\<close>

fun ipv4_mapped :: "ipv4_addr \<Rightarrow> ipv6_addr" where
  "ipv4_mapped (Ipv4 a b c d) = Ipv6 0 0 0 0 0 0xffff (ucast a * 256 + ucast b) (ucast c * 256 + ucast d)"

text \<open>
  A private host passes as public. The guard that is meant to reject private and loopback hosts
  accepts every one of them when its address is written as an IPv4-mapped IPv6 address, such as
  \<open>https://[::ffff:127.0.0.1]/\<close>, although it rejects the same address written as IPv4.
\<close>

theorem mapped_private_host_passes:
  assumes "parse text = Some \<lparr> url_scheme = ''https'', url_host = Some (HostIpv6 (ipv4_mapped ip)) \<rparr>"
    and "parse plain = Some \<lparr> url_scheme = ''https'', url_host = Some (HostIpv4 ip) \<rparr>"
    and "ipv4_is_private ip \<or> ipv4_is_loopback ip \<or> ipv4_is_link_local ip"
  shows "host_is_public parse text \<and> \<not> host_is_public parse plain"
  using assms by (cases ip) (auto simp: host_is_public_def ipv6_is_public_def ipv4_is_public_def)

theorem mapped_private_host_passes_witness:
  "let parse = (\<lambda>s. Some \<lparr> url_scheme = ''https'', url_host = Some (if s = ''a'' then HostIpv4 (Ipv4 127 0 0 1)
        else HostIpv6 (ipv4_mapped (Ipv4 127 0 0 1))) \<rparr>)
   in host_is_public parse ''b'' \<and> \<not> host_is_public parse ''a''"
  using mapped_private_host_passes[of "\<lambda>s. Some \<lparr> url_scheme = ''https'', url_host = Some (if s = ''a'' then HostIpv4 (Ipv4 127 0 0 1)
        else HostIpv6 (ipv4_mapped (Ipv4 127 0 0 1))) \<rparr>" "''b''" "Ipv4 127 0 0 1" "''a''"] by simp

text \<open>Only secure URLs with an address are public.\<close>

lemma host_is_public_https: "host_is_public parse text \<Longrightarrow> \<exists>u. parse text = Some u \<and> url_scheme u = ''https'' \<and> (\<forall>d. url_host u \<noteq> Some (HostDomain d))"
  by (auto simp: host_is_public_def split: option.splits if_splits host.splits)

end
