(* ===== verification/Agent.thy ===== *)
theory Agent
  imports PeerNamespace Guard Relay
begin

text \<open>
  \<open>crates/enlace-agent/src/lib.rs\<close>: the local daemon. Its configuration, the authorisation of its
  WebSocket listener, the handlers of its requests on the peer namespace, and the sessions with the
  subscriptions that feed them. The file system, TOML, JSON and base64 codecs are parameters; a
  received frame, a step of a subscription and the delivery of a queued response are separate steps.
\<close>

section \<open>Text\<close>

text \<open>The encodings of the characters that \<open>str::trim\<close> removes.\<close>

definition white_space :: "bytes list" where
  "white_space =
    [[9], [10], [11], [12], [13], [32], [0xc2, 0x85], [0xc2, 0xa0], [0xe1, 0x9a, 0x80],
     [0xe2, 0x80, 0x80], [0xe2, 0x80, 0x81], [0xe2, 0x80, 0x82], [0xe2, 0x80, 0x83], [0xe2, 0x80, 0x84],
     [0xe2, 0x80, 0x85], [0xe2, 0x80, 0x86], [0xe2, 0x80, 0x87], [0xe2, 0x80, 0x88], [0xe2, 0x80, 0x89],
     [0xe2, 0x80, 0x8a], [0xe2, 0x80, 0xa8], [0xe2, 0x80, 0xa9], [0xe2, 0x80, 0xaf], [0xe2, 0x81, 0x9f],
     [0xe3, 0x80, 0x80]]"

function trim_start :: "bytes list \<Rightarrow> bytes \<Rightarrow> bytes" where
  "trim_start spaces s =
    (case find (\<lambda>p. p \<noteq> [] \<and> take (length p) s = p) spaces of
       None \<Rightarrow> s
     | Some p \<Rightarrow> trim_start spaces (drop (length p) s))"
  by pat_completeness auto
termination
  by (relation "measure (\<lambda>(_, s). length s)") (auto simp: find_Some_iff intro!: Nat.diff_less)

declare trim_start.simps [simp del]

definition trim :: "string \<Rightarrow> string" where
  "trim s = bytes_str (rev (trim_start (map rev white_space) (rev (trim_start white_space (str_bytes s)))))"

definition trim_end_newlines :: "string \<Rightarrow> string" where
  "trim_end_newlines s = rev (dropWhile (\<lambda>c. c = CHR 0x0D \<or> c = CHR 0x0A) (rev s))"

section \<open>Configuration\<close>

definition DEFAULT_CHANNEL :: string where "DEFAULT_CHANNEL = ''default''"
definition SESSION_BUFFER :: nat where "SESSION_BUFFER = 64"

datatype transport_flag = HttpFlag | PkarrFlag | IrohFlag

text \<open>Which features are compiled in.\<close>

record features =
  ft_http :: bool
  ft_pkarr :: bool
  ft_iroh :: bool
  ft_pkarr_dht :: bool
  ft_unix_socket :: bool

fun flag_str :: "transport_flag \<Rightarrow> string" where
  "flag_str HttpFlag = ''http''"
| "flag_str PkarrFlag = ''pkarr''"
| "flag_str IrohFlag = ''iroh''"

fun flag_enabled :: "features \<Rightarrow> transport_flag \<Rightarrow> bool" where
  "flag_enabled F HttpFlag = ft_http F"
| "flag_enabled F PkarrFlag = ft_pkarr F"
| "flag_enabled F IrohFlag = ft_iroh F"

datatype pkarr_network_arg = RelaysArg | DhtArg | BothArg

definition requires_dht :: "pkarr_network_arg \<Rightarrow> bool" where
  "requires_dht network \<longleftrightarrow> network \<in> {DhtArg, BothArg}"

definition validate_pkarr_network :: "features \<Rightarrow> pkarr_network_arg \<Rightarrow> (string, unit) res" where
  "validate_pkarr_network F network =
    (if requires_dht network \<and> \<not> ft_pkarr_dht F then Err ''pkarr DHT mode requires the 'pkarr-dht' feature'' else Ok ())"

record socket_addr =
  sa_ip :: ip_addr
  sa_port :: u16

fun is_loopback :: "socket_addr \<Rightarrow> bool" where
  "is_loopback addr = (case sa_ip addr of V4 ip \<Rightarrow> ipv4_is_loopback ip | V6 ip \<Rightarrow> ipv6_is_loopback ip)"

record cli =
  cli_config :: "string option"
  cli_seed :: "string option"
  cli_token :: "string option"
  cli_listen_ws :: "socket_addr option"
  cli_listen_unix :: "string option"
  cli_peer :: "string list"
  cli_transport :: "transport_flag list"
  cli_relay :: "string option"
  cli_pkarr_network :: "pkarr_network_arg option"
  cli_pkarr_relay :: "string list"
  cli_pkarr_bootstrap :: "string list"
  cli_data_dir :: "string option"
  cli_log :: "string option"

record file_config =
  fc_seed :: "string option"
  fc_seed_file :: "string option"
  fc_token :: "string option"
  fc_token_file :: "string option"
  fc_listen_ws :: "socket_addr option"
  fc_listen_unix :: "string option"
  fc_peers :: "string list option"
  fc_transports :: "transport_flag list option"
  fc_relay :: "string option"
  fc_pkarr_network :: "pkarr_network_arg option"
  fc_pkarr_relays :: "string list option"
  fc_pkarr_bootstrap :: "string list option"
  fc_data_dir :: "string option"
  fc_log :: "string option"

definition file_config_default :: file_config where
  "file_config_default =
    \<lparr> fc_seed = None, fc_seed_file = None, fc_token = None, fc_token_file = None, fc_listen_ws = None,
      fc_listen_unix = None, fc_peers = None, fc_transports = None, fc_relay = None, fc_pkarr_network = None,
      fc_pkarr_relays = None, fc_pkarr_bootstrap = None, fc_data_dir = None, fc_log = None \<rparr>"

record agent_config =
  ag_seed :: bytes
  ag_token :: "string option"
  ag_listen_ws :: "socket_addr option"
  ag_listen_unix :: "string option"
  ag_peers :: "peer_card list"
  ag_transports :: "string list"
  ag_relay :: "string option"
  ag_pkarr_network :: pkarr_network_arg
  ag_pkarr_relays :: "string list"
  ag_pkarr_bootstrap :: "string list"
  ag_data_dir :: "string option"
  ag_log :: string

datatype agent_request =
    ReqSend (rq_id: string) (rq_to: string) (rq_channel: string) (rq_payload: string)
  | ReqSubscribe string string
  | ReqPutSlot string string string
  | ReqGetSlot string string
  | ReqListPeers string
  | ReqAddPeer string string
  | ReqRemovePeer string string
  | ReqExportCard string
  | ReqHealth "string option"

text \<open>The files the process can read, and the codecs of the agent's own formats.\<close>

record agent_env = envelope_env +
  ae_exists :: "string \<Rightarrow> bool"
  ae_read :: "string \<Rightarrow> string option"
  ae_toml :: "string \<Rightarrow> file_config option"
  ae_request :: "string \<Rightarrow> agent_request option"
  ae_b64_encode :: "bytes \<Rightarrow> string"
  ae_b64_decode :: "string \<Rightarrow> bytes option"
  ae_relay_url :: "string \<Rightarrow> string option"

definition enabled_transports :: "features \<Rightarrow> transport_flag list \<Rightarrow> string list" where
  "enabled_transports F flags =
    map flag_str (filter (flag_enabled F) (if flags = [] then [HttpFlag, PkarrFlag, IrohFlag] else flags))"

fun validate_transport_flags :: "features \<Rightarrow> transport_flag list \<Rightarrow> (string, unit) res" where
  "validate_transport_flags F [] = Ok ()"
| "validate_transport_flags F (flag # flags) =
    (if \<not> flag_enabled F flag then Err (flag_str flag @ '' transport feature is not enabled'')
     else validate_transport_flags F flags)"

definition load_file_config :: "'z agent_env_scheme \<Rightarrow> string \<Rightarrow> (string, file_config) res" where
  "load_file_config E path =
    bind_res (ok_or (''failed to read '' @ path) (ae_read E path)) (\<lambda>text.
      ok_or (''failed to parse '' @ path) (ae_toml E text))"

definition load_secret_file :: "'z agent_env_scheme \<Rightarrow> string \<Rightarrow> (string, string) res" where
  "load_secret_file E path = map_ok trim_end_newlines (ok_or (''failed to read '' @ path) (ae_read E path))"

definition load_secret :: "'z agent_env_scheme \<Rightarrow> string \<Rightarrow> (string, string) res" where
  "load_secret E arg = (if ae_exists E arg then load_secret_file E arg else Ok arg)"

definition parse_hex_seed :: "string \<Rightarrow> (string, bytes) res" where
  "parse_hex_seed text =
    (if length text \<noteq> 64 then Err ''seed must be 32 bytes encoded as 64 hex characters''
     else if \<not> list_all is_lower_hex text then Err ''seed must be lowercase hex''
     else bind_res (ok_or ''seed must be lowercase hex'' (hex_decode text)) (\<lambda>seed.
       if list_all (\<lambda>b. b = 0) seed then Err ''seed must not be all zero'' else Ok seed))"

definition parse_peer_id :: "string \<Rightarrow> (string, bytes) res" where
  "parse_peer_id text =
    (if length text \<noteq> 64 then Err ''peer id must be 32 bytes encoded as 64 hex characters''
     else if \<not> list_all is_lower_hex text then Err ''peer id must be lowercase hex''
     else ok_or ''peer id must be lowercase hex'' (hex_decode text))"

definition load_seed :: "'z agent_env_scheme \<Rightarrow> string \<Rightarrow> (string, bytes) res" where
  "load_seed E arg = bind_res (load_secret E arg) (\<lambda>text. parse_hex_seed (trim text))"

definition load_config_seed :: "'z agent_env_scheme \<Rightarrow> string option \<Rightarrow> file_config \<Rightarrow> (string, bytes) res" where
  "load_config_seed E arg file =
    (case arg of
       Some arg \<Rightarrow> load_seed E arg
     | None \<Rightarrow>
         (case (fc_seed file, fc_seed_file file) of
            (Some _, Some _) \<Rightarrow> Err ''seed and seed_file are mutually exclusive''
          | (Some seed, None) \<Rightarrow> parse_hex_seed (trim seed)
          | (None, Some path) \<Rightarrow> bind_res (load_secret_file E path) (\<lambda>text. parse_hex_seed (trim text))
          | (None, None) \<Rightarrow> Err ''seed is required''))"

definition load_config_token :: "'z agent_env_scheme \<Rightarrow> string option \<Rightarrow> file_config \<Rightarrow> (string, string option) res" where
  "load_config_token E arg file =
    (case arg of
       Some arg \<Rightarrow> map_ok Some (load_secret E arg)
     | None \<Rightarrow>
         (case (fc_token file, fc_token_file file) of
            (Some _, Some _) \<Rightarrow> Err ''token and token_file are mutually exclusive''
          | (Some token, None) \<Rightarrow> Ok (Some token)
          | (None, Some path) \<Rightarrow> map_ok Some (load_secret_file E path)
          | (None, None) \<Rightarrow> Ok None))"

definition load_peer_card :: "'z agent_env_scheme \<Rightarrow> string \<Rightarrow> (string, peer_card) res" where
  "load_peer_card E arg =
    bind_res (load_secret E arg) (\<lambda>text. map_err (\<lambda>_. ''invalid peer card'') (import_string E (trim text)))"

definition load_config_peers :: "'z agent_env_scheme \<Rightarrow> string list \<Rightarrow> file_config \<Rightarrow> (string, peer_card list) res" where
  "load_config_peers E args file =
    traverse (load_peer_card E) (if args = [] then (case fc_peers file of None \<Rightarrow> [] | Some ps \<Rightarrow> ps) else args)"

text \<open>The command line takes precedence over the file.\<close>

definition or_else :: "'a option \<Rightarrow> 'a option \<Rightarrow> 'a option" where
  "or_else a b = (case a of None \<Rightarrow> b | Some _ \<Rightarrow> a)"

definition nonempty_or :: "'a list \<Rightarrow> 'a list option \<Rightarrow> 'a list" where
  "nonempty_or xs ys = (if xs = [] then (case ys of None \<Rightarrow> [] | Some ys \<Rightarrow> ys) else xs)"

definition check_listen_token :: "socket_addr option \<Rightarrow> string option \<Rightarrow> (string, unit) res" where
  "check_listen_token listen_ws token =
    (case (listen_ws, token) of
       (Some addr, None) \<Rightarrow>
         Err (if \<not> is_loopback addr then ''non-loopback WebSocket listener requires --token''
              else ''websocket listener requires --token'')
     | _ \<Rightarrow> Ok ())"

definition cli_load :: "'z agent_env_scheme \<Rightarrow> features \<Rightarrow> cli \<Rightarrow> (string, agent_config) res" where
  "cli_load E F c =
    bind_res (case cli_config c of None \<Rightarrow> Ok file_config_default | Some path \<Rightarrow> load_file_config E path) (\<lambda>file.
    bind_res (load_config_seed E (cli_seed c) file) (\<lambda>seed.
    bind_res (load_config_token E (cli_token c) file) (\<lambda>token.
    bind_res (load_config_peers E (cli_peer c) file) (\<lambda>peers.
    let listen_ws = or_else (cli_listen_ws c) (fc_listen_ws file);
        listen_unix = or_else (cli_listen_unix c) (fc_listen_unix file);
        flags = nonempty_or (cli_transport c) (fc_transports file);
        network = (case or_else (cli_pkarr_network c) (fc_pkarr_network file) of None \<Rightarrow> RelaysArg | Some n \<Rightarrow> n);
        relays = nonempty_or (cli_pkarr_relay c) (fc_pkarr_relays file);
        bootstrap = nonempty_or (cli_pkarr_bootstrap c) (fc_pkarr_bootstrap file)
    in if listen_ws = None \<and> listen_unix = None then Err ''at least one listener is required''
       else
    bind_res (validate_transport_flags F flags) (\<lambda>_.
    let transports = enabled_transports F flags in
    bind_res (if ''pkarr'' \<in> set transports then validate_pkarr_network F network else Ok ()) (\<lambda>_.
      if \<not> ft_unix_socket F \<and> listen_unix \<noteq> None
      then Err ''unix socket listener requires unix-socket feature on unix platforms''
      else
    bind_res (check_listen_token listen_ws token) (\<lambda>_.
      Ok \<lparr> ag_seed = seed, ag_token = token, ag_listen_ws = listen_ws, ag_listen_unix = listen_unix,
           ag_peers = peers, ag_transports = transports, ag_relay = or_else (cli_relay c) (fc_relay file),
           ag_pkarr_network = network, ag_pkarr_relays = relays, ag_pkarr_bootstrap = bootstrap,
           ag_data_dir = or_else (cli_data_dir c) (fc_data_dir file),
           ag_log = (case or_else (cli_log c) (fc_log file) of None \<Rightarrow> ''info'' | Some l \<Rightarrow> l) \<rparr>)))))))"

section \<open>Opening the namespace\<close>

definition derive_identity :: "'z suite_scheme \<Rightarrow> bytes \<Rightarrow> peer_identity" where
  "derive_identity S seed =
    (let expand_key = (\<lambda>info. hkdf_expand S (Some (str_bytes ''enlace-agent/v1/identity'')) seed (str_bytes info) 32)
     in identity_from_parts (expand_key ''signing'') (expand_key ''exchange'') None)"

definition build_pkarr_config :: "agent_config \<Rightarrow> pkarr_config" where
  "build_pkarr_config config =
    (let p = pkarr_config_default\<lparr>pc_network :=
           (case ag_pkarr_network config of RelaysArg \<Rightarrow> Relays | DhtArg \<Rightarrow> DhtOnly | BothArg \<Rightarrow> Both)\<rparr>;
         p = (if ag_pkarr_relays config = [] then p else p\<lparr>pc_resolvers := ag_pkarr_relays config\<rparr>)
     in p\<lparr>pc_bootstrap := ag_pkarr_bootstrap config\<rparr>)"

definition configure_transports ::
  "'z agent_env_scheme \<Rightarrow> features \<Rightarrow> agent_config \<Rightarrow> 'w peer_config \<Rightarrow> (string, 'w peer_config) res" where
  "configure_transports E F config pc =
    bind_res
      (if ft_http F \<and> ''http'' \<in> set (ag_transports config)
       then (case ag_relay config of
               None \<Rightarrow> Ok pc
             | Some relay \<Rightarrow>
                 map_ok (\<lambda>url. pc\<lparr>pcf_http := Some (http_config_new url)\<rparr>) (ok_or ''relay URL is invalid'' (ae_relay_url E relay)))
       else Ok pc) (\<lambda>pc.
    let pc = (if ft_pkarr F \<and> ''pkarr'' \<in> set (ag_transports config) then pc\<lparr>pcf_pkarr := Some (build_pkarr_config config)\<rparr> else pc);
        pc = (if ft_iroh F \<and> ''iroh'' \<in> set (ag_transports config) then pc\<lparr>pcf_iroh := Some iroh_config_default\<rparr> else pc)
    in Ok pc)"

definition peer_config_default :: "'w peer_config" where
  "peer_config_default =
    \<lparr> pcf_trusted_peers = [], pcf_group_keys = [], pcf_http = None, pcf_pkarr = None, pcf_iroh = None, pcf_transports = [] \<rparr>"

text \<open>The state store is opened by the caller, in memory or at the configured directory.\<close>

definition open_namespace ::
  "'z agent_env_scheme \<Rightarrow> features \<Rightarrow> ('w, 'st) transport_builders \<Rightarrow> 'st state_store \<Rightarrow> agent_config \<Rightarrow> 'w \<Rightarrow> 'st \<Rightarrow>
    ('w, 'st) peer_world option \<times> (string, ('w, 'st) peer_namespace) res" where
  "open_namespace E F B store config n st =
    (case bind_res (map_err (\<lambda>_. ''invalid peer card'') (traverse (try_from_card E) (ag_peers config))) (\<lambda>trusted.
        configure_transports E F config (peer_config_default\<lparr>pcf_trusted_peers := trusted\<rparr>)) of
       Err e \<Rightarrow> (None, Err e)
     | Panic \<Rightarrow> (None, Panic)
     | Ok pc \<Rightarrow>
         (case peer_namespace_open E B store (derive_identity E (ag_seed config)) pc n st of
            (w, r) \<Rightarrow> (Some w, map_err (\<lambda>_. ''failed to open peer namespace'') r)))"

lemma cli_load_token:
  assumes "cli_load E F c = Ok config" "ag_listen_ws config \<noteq> None"
  shows "ag_token config \<noteq> None"
proof -
  have "check_listen_token (ag_listen_ws config) (ag_token config) = Ok ()"
    using assms(1) by (auto simp: cli_load_def Let_def bind_res_Ok_iff split: if_split_asm)
  then show ?thesis using assms(2) by (auto simp: check_listen_token_def split: option.splits)
qed

end
