(* ===== verification/AgentServer.thy ===== *)
theory AgentServer
  imports Agent
begin

text \<open>
  The server half of \<open>crates/enlace-agent/src/lib.rs\<close>: the responses, the authorisation of the
  WebSocket listener, one handler per request, and the sessions with the subscriptions that feed
  them. A received frame, a turn of a subscription task, the delivery of a queued response and a
  change of the network are separate steps, in any order.
\<close>

section \<open>Responses\<close>

datatype error_code = InvalidRequest | TransportFailed

fun error_code_display :: "error_code \<Rightarrow> string" where
  "error_code_display InvalidRequest = ''invalid request''"
| "error_code_display TransportFailed = ''transport failed''"

record health_response =
  hl_id :: "string option"
  hl_status :: string
  hl_peer_id :: string
  hl_transports :: "string list"
  hl_relay :: "string option"
  hl_data_dir :: "string option"
  hl_log :: string

record message_response =
  mr_from :: string
  mr_channel :: string
  mr_payload :: string
  mr_received_at :: u64

record peer_response =
  pr_peer_id :: string
  pr_card :: string

record slot_value_response =
  sv_from :: string
  sv_version :: u64
  sv_payload :: string
  sv_via :: string

datatype agent_response =
    OkResponse string
  | HealthResponse health_response
  | MessageResponse message_response
  | PeersResponse string "peer_response list"
  | PeerCardResponse string string string
  | SlotResponse string string "slot_value_response option"
  | ErrorResponse "string option" error_code string

definition error_response :: "string option \<Rightarrow> error_code \<Rightarrow> agent_response" where
  "error_response i code = ErrorResponse i code (error_code_display code)"

definition payload_bytes :: "'z agent_env_scheme \<Rightarrow> string \<Rightarrow> (string, bytes) res" where
  "payload_bytes E s = ok_or ''payload must be base64'' (ae_b64_decode E s)"

definition encode_payload :: "'z agent_env_scheme \<Rightarrow> bytes \<Rightarrow> string" where
  "encode_payload E bs = ae_b64_encode E bs"

definition invalid_name :: "string \<Rightarrow> bool" where
  "invalid_name s \<longleftrightarrow> validate_channel_name s \<noteq> Ok ()"

section \<open>The state of the agent\<close>

record ('w, 'st) agent_state =
  ags_config :: agent_config
  ags_namespace :: "('w, 'st) peer_namespace"

definition agent_state_open ::
  "'z agent_env_scheme \<Rightarrow> features \<Rightarrow> ('w, 'st) transport_builders \<Rightarrow> 'st state_store \<Rightarrow> agent_config \<Rightarrow> 'w \<Rightarrow> 'st \<Rightarrow>
    ('w, 'st) peer_world option \<times> (string, ('w, 'st) agent_state) res" where
  "agent_state_open E F B store config n st =
    (case open_namespace E F B store config n st of
       (w, r) \<Rightarrow> (w, map_ok (\<lambda>ns. \<lparr> ags_config = config, ags_namespace = ns \<rparr>) r))"

definition bearer_token :: "header_map \<Rightarrow> string option" where
  "bearer_token headers =
    Option.bind (hm_get headers ''authorization'') (\<lambda>v. Option.bind (header_to_str v) (strip_prefix ''Bearer ''))"

definition authorize :: "('w, 'st) agent_state \<Rightarrow> header_map \<Rightarrow> (nat \<times> string, unit) res" where
  "authorize A headers =
    (case ag_token (ags_config A) of
       None \<Rightarrow> Ok ()
     | Some expected \<Rightarrow>
         (case bearer_token headers of
            None \<Rightarrow> Err (401, ''unauthorized'')
          | Some actual \<Rightarrow> if actual = expected then Ok () else Err (401, ''unauthorized'')))"

definition agent_health :: "'z suite_scheme \<Rightarrow> ('w, 'st) agent_state \<Rightarrow> string option \<Rightarrow> health_response" where
  "agent_health S A i =
    \<lparr> hl_id = i, hl_status = ''ok'', hl_peer_id = hex_encode (namespace_peer_id S (ags_namespace A)),
      hl_transports = ag_transports (ags_config A), hl_relay = ag_relay (ags_config A),
      hl_data_dir = ag_data_dir (ags_config A), hl_log = ag_log (ags_config A) \<rparr>"

text \<open>
  The router: the two routes lie behind \<open>require_bearer_token\<close>. A request on the first that is no
  WebSocket handshake is refused by the extractor.
\<close>

datatype route_reply =
    Refused nat string
  | HealthJson agent_response
  | Upgraded
  | UpgradeRejected
  | NoRoute

definition ws_router :: "'z suite_scheme \<Rightarrow> ('w, 'st) agent_state \<Rightarrow> header_map \<Rightarrow> string \<Rightarrow> bool \<Rightarrow> (unit, route_reply) res" where
  "ws_router S A headers path handshake =
    (if path \<notin> {''/'', ''/health''} then Ok NoRoute
     else case authorize A headers of
            Err (status, body) \<Rightarrow> Ok (Refused status body)
          | Panic \<Rightarrow> Panic
          | Ok _ \<Rightarrow>
              if path = ''/health'' then Ok (HealthJson (HealthResponse (agent_health S A None)))
              else if handshake then Ok Upgraded else Ok UpgradeRejected)"

section \<open>Requests\<close>

definition exported_card :: "'z suite_scheme \<Rightarrow> ('w, 'st) agent_state \<Rightarrow> ('w, 'st) peer_world \<Rightarrow> peer_card" where
  "exported_card S A w =
    (case iroh_endpoint_addr_of (ags_namespace A) w of
       None \<Rightarrow> namespace_card S (ags_namespace A)
     | Some endpoint \<Rightarrow> (namespace_card S (ags_namespace A))\<lparr>card_iroh_endpoint := Some endpoint\<rparr>)"

definition export_card ::
  "'z peer_env_scheme \<Rightarrow> ('w, 'st) agent_state \<Rightarrow> ('w, 'st) peer_world \<Rightarrow> (unit, string) res" where
  "export_card E A w = export_string E (exported_card E A w)"

definition list_peers :: "'z peer_env_scheme \<Rightarrow> ('w, 'st) peer_world \<Rightarrow> (unit, peer_response list) res" where
  "list_peers E w =
    traverse (\<lambda>peer. map_ok (\<lambda>s. \<lparr> pr_peer_id = hex_encode (card_peer_id peer), pr_card = s \<rparr>) (export_string E peer))
      (trusted_peers w)"

definition agent_add_peer ::
  "'z peer_env_scheme \<Rightarrow> ('w, 'st) agent_state \<Rightarrow> string \<Rightarrow> ('w, 'st) peer_world \<Rightarrow>
    ('w, 'st) peer_world \<times> (string, peer_card) res" where
  "agent_add_peer E A s w =
    (case map_err (\<lambda>_. ''invalid peer card'')
        (bind_res (import_string E (trim s)) (\<lambda>c. map_ok (\<lambda>peer. (c, peer)) (try_from_card E c))) of
       Err e \<Rightarrow> (w, Err e)
     | Panic \<Rightarrow> (w, Panic)
     | Ok (c, peer) \<Rightarrow>
         (case trust_peer E (ags_namespace A) peer w of
            (w, r) \<Rightarrow> (w, map_ok (\<lambda>_. c) (map_err (\<lambda>_. ''failed to trust peer'') r))))"

definition find_peer :: "string \<Rightarrow> ('w, 'st) peer_world \<Rightarrow> peer_card option" where
  "find_peer s w =
    (case parse_peer_id s of
       Ok peer_id \<Rightarrow> find (\<lambda>peer. card_peer_id peer = peer_id) (trusted_peers w)
     | _ \<Rightarrow> None)"

definition handle_add_peer ::
  "'z peer_env_scheme \<Rightarrow> ('w, 'st) agent_state \<Rightarrow> string \<Rightarrow> string \<Rightarrow> ('w, 'st) peer_world \<Rightarrow>
    ('w, 'st) peer_world \<times> (unit, agent_response) res" where
  "handle_add_peer E A i s w =
    (case agent_add_peer E A s w of
       (w, Err _) \<Rightarrow> (w, Ok (error_response (Some i) InvalidRequest))
     | (w, Panic) \<Rightarrow> (w, Panic)
     | (w, Ok c) \<Rightarrow> (w, map_ok (PeerCardResponse i (hex_encode (card_peer_id c))) (export_string E c)))"

definition handle_remove_peer ::
  "('w, 'st) agent_state \<Rightarrow> string \<Rightarrow> string \<Rightarrow> ('w, 'st) peer_world \<Rightarrow>
    ('w, 'st) peer_world \<times> (unit, agent_response) res" where
  "handle_remove_peer A i s w =
    (case parse_peer_id s of
       Err _ \<Rightarrow> (w, Ok (error_response (Some i) InvalidRequest))
     | Panic \<Rightarrow> (w, Panic)
     | Ok peer_id \<Rightarrow>
         (case remove_trusted_peer (ags_namespace A) peer_id w of
            (w, Ok _) \<Rightarrow> (w, Ok (OkResponse i))
          | (w, Err _) \<Rightarrow> (w, Ok (error_response (Some i) InvalidRequest))
          | (w, Panic) \<Rightarrow> (w, Panic)))"

definition report_reply :: "string \<Rightarrow> ('e, 'a) res \<Rightarrow> (unit, agent_response) res" where
  "report_reply i r =
    (case r of
       Ok _ \<Rightarrow> Ok (OkResponse i)
     | Err _ \<Rightarrow> Ok (error_response (Some i) TransportFailed)
     | Panic \<Rightarrow> Panic)"

definition handle_send ::
  "'z agent_env_scheme \<Rightarrow> (nat \<Rightarrow> bytes) \<Rightarrow> 'w peer_schedule \<Rightarrow> ('w, 'st) agent_state \<Rightarrow> string \<Rightarrow> string \<Rightarrow> string \<Rightarrow>
    string \<Rightarrow> ('w, 'st) peer_world \<Rightarrow> ('w, 'st) peer_world \<times> (unit, agent_response) res" where
  "handle_send E rng sched A i dest channel payload w =
    (case payload_bytes E payload of
       Ok bs \<Rightarrow>
         if invalid_name dest \<or> invalid_name channel then (w, Ok (error_response (Some i) InvalidRequest))
         else (case find_peer dest w of
                 None \<Rightarrow> (w, Ok (error_response (Some i) InvalidRequest))
               | Some peer \<Rightarrow>
                   if validate_name channel \<noteq> Ok () then (w, Ok (error_response (Some i) InvalidRequest))
                   else (case send_to_peers E rng (ags_namespace A) sched channel [peer] bs w of
                           (w, r) \<Rightarrow> (w, report_reply i r)))
     | _ \<Rightarrow> (w, Ok (error_response (Some i) InvalidRequest)))"

definition handle_get_slot ::
  "'z agent_env_scheme \<Rightarrow> 'w peer_schedule \<Rightarrow> ('w, 'st) agent_state \<Rightarrow> string \<Rightarrow> string \<Rightarrow>
    ('w, 'st) peer_world \<Rightarrow> ('w, 'st) peer_world \<times> (unit, agent_response) res" where
  "handle_get_slot E sched A i channel w =
    (if invalid_name channel then (w, Ok (error_response (Some i) InvalidRequest))
     else case namespace_slot channel of
            Ok slot \<Rightarrow>
              (case get_pairwise E (ags_namespace A) sched slot w of
                 (w, Ok v) \<Rightarrow>
                   (w, Ok (SlotResponse i channel (map_option (\<lambda>v.
                     \<lparr> sv_from = hex_encode (psv_sender v), sv_version = psv_version v,
                       sv_payload = encode_payload E (psv_payload v), sv_via = transport_kind_str (psv_via v) \<rparr>) v)))
               | (w, Err _) \<Rightarrow> (w, Ok (error_response (Some i) TransportFailed))
               | (w, Panic) \<Rightarrow> (w, Panic))
          | _ \<Rightarrow> (w, Ok (error_response (Some i) InvalidRequest)))"

definition handle_put_slot ::
  "'z agent_env_scheme \<Rightarrow> (nat \<Rightarrow> bytes) \<Rightarrow> 'w peer_schedule \<Rightarrow> ('w, 'st) agent_state \<Rightarrow> string \<Rightarrow> string \<Rightarrow> string \<Rightarrow>
    ('w, 'st) peer_world \<Rightarrow> ('w, 'st) peer_world \<times> (unit, agent_response) res" where
  "handle_put_slot E rng sched A i channel payload w =
    (case payload_bytes E payload of
       Ok bs \<Rightarrow>
         (let recipients = trusted_peers w in
          if invalid_name channel \<or> recipients = [] then (w, Ok (error_response (Some i) InvalidRequest))
          else case namespace_slot channel of
                 Ok slot \<Rightarrow>
                   (case put_for_peers E rng (ags_namespace A) sched slot recipients bs w of
                      (w, r) \<Rightarrow> (w, report_reply i r))
               | _ \<Rightarrow> (w, Ok (error_response (Some i) InvalidRequest)))
     | _ \<Rightarrow> (w, Ok (error_response (Some i) InvalidRequest)))"

section \<open>Sessions and subscriptions\<close>

text \<open>A session is the queue its subscriptions fill and what has been written to its client.\<close>

record session =
  sn_unix :: bool
  sn_queue :: "agent_response list"
  sn_sent :: "agent_response list"

text \<open>A subscription task: either waiting in \<open>recv\<close>, or holding the message it wants to queue.\<close>

record 'c subscription =
  sb_session :: nat
  sb_channel :: string
  sb_dedup :: "'c dedup"
  sb_pending :: "agent_response option"

definition spawn_subscription :: "'c lru \<Rightarrow> string \<Rightarrow> nat \<Rightarrow> 'c subscription option" where
  "spawn_subscription L channel sid =
    (case namespace_mailbox L channel of
       Ok (name, d) \<Rightarrow> Some \<lparr> sb_session = sid, sb_channel = name, sb_dedup = d, sb_pending = None \<rparr>
     | _ \<Rightarrow> None)"

definition message_response_of :: "'z agent_env_scheme \<Rightarrow> string \<Rightarrow> u64 \<Rightarrow> peer_mailbox_message \<Rightarrow> agent_response" where
  "message_response_of E channel time m =
    MessageResponse \<lparr> mr_from = hex_encode (pmm_sender m), mr_channel = channel,
      mr_payload = encode_payload E (pmm_payload m), mr_received_at = time \<rparr>"

text \<open>One round of the \<open>recv\<close> loop; without a message the task goes on with the next round.\<close>

definition subscription_recv ::
  "'z agent_env_scheme \<Rightarrow> 'c lru \<Rightarrow> ('w, 'st) agent_state \<Rightarrow> u64 \<Rightarrow> 'w peer_schedule \<Rightarrow>
    'c subscription \<Rightarrow> ('w, 'st) peer_world \<Rightarrow> ('w, 'st) peer_world \<times> 'c subscription option" where
  "subscription_recv E L A time sched sb w =
    (case peer_recv_timeout E L (ags_namespace A) (sb_channel sb) (from_secs (unat DEFAULT_LONG_POLL_SECS))
        [(sched, \<lambda>w. w)] w (sb_dedup sb) of
       (w, d, None) \<Rightarrow> (w, Some (sb\<lparr>sb_dedup := d\<rparr>))
     | (w, d, Some (Ok m)) \<Rightarrow>
         (w, Some (sb\<lparr>sb_dedup := d, sb_pending := Some (message_response_of E (sb_channel sb) time m)\<rparr>))
     | (w, d, Some _) \<Rightarrow> (w, None))"

text \<open>The send waits while the queue is full and fails once the session has ended.\<close>

definition session_send :: "nat \<Rightarrow> agent_response \<Rightarrow> (nat \<times> session) list \<Rightarrow> (unit, (nat \<times> session) list) res option" where
  "session_send sid r sessions =
    (case hm_get sessions sid of
       None \<Rightarrow> Some (Err ())
     | Some s \<Rightarrow>
         if length (sn_queue s) < SESSION_BUFFER
         then Some (Ok (hm_insert sid (s\<lparr>sn_queue := sn_queue s @ [r]\<rparr>) sessions))
         else None)"

definition handle_text ::
  "'z agent_env_scheme \<Rightarrow> 'c lru \<Rightarrow> (nat \<Rightarrow> bytes) \<Rightarrow> 'w peer_schedule \<Rightarrow> ('w, 'st) agent_state \<Rightarrow> string \<Rightarrow> nat \<Rightarrow>
    ('w, 'st) peer_world \<Rightarrow> ('w, 'st) peer_world \<times> 'c subscription option \<times> (unit, agent_response) res" where
  "handle_text E L rng sched A s sid w =
    (let plain = (\<lambda>(w, r). (w, None, r))
     in case ae_request E s of
          None \<Rightarrow> (w, None, Ok (error_response None InvalidRequest))
        | Some (ReqHealth i) \<Rightarrow> (w, None, Ok (HealthResponse (agent_health E A i)))
        | Some (ReqExportCard i) \<Rightarrow>
            (w, None, map_ok (PeerCardResponse i (hex_encode (namespace_peer_id E (ags_namespace A)))) (export_card E A w))
        | Some (ReqListPeers i) \<Rightarrow> (w, None, map_ok (PeersResponse i) (list_peers E w))
        | Some (ReqAddPeer i c) \<Rightarrow> plain (handle_add_peer E A i c w)
        | Some (ReqRemovePeer i p) \<Rightarrow> plain (handle_remove_peer A i p w)
        | Some (ReqSend i dest channel payload) \<Rightarrow> plain (handle_send E rng sched A i dest channel payload w)
        | Some (ReqSubscribe i channel) \<Rightarrow>
            if invalid_name channel then (w, None, Ok (error_response (Some i) InvalidRequest))
            else (w, spawn_subscription L channel sid, Ok (OkResponse i))
        | Some (ReqGetSlot i channel) \<Rightarrow> plain (handle_get_slot E sched A i channel w)
        | Some (ReqPutSlot i channel payload) \<Rightarrow> plain (handle_put_slot E rng sched A i channel payload w))"

section \<open>Steps of the agent\<close>

record ('w, 'st, 'c) agent_world =
  aw_peers :: "('w, 'st) peer_world"
  aw_sessions :: "(nat \<times> session) list"
  aw_subs :: "(nat \<times> 'c subscription) list"
  aw_fresh :: nat

datatype ws_frame = WsText string | WsBinary bytes | WsPing | WsPong | WsClose | WsError | WsEnd

text \<open>What one turn of a session loop does: answer, ignore the frame, or end.\<close>

datatype session_input = Frame ws_frame | Line "string option"

definition open_session :: "bool \<Rightarrow> ('w, 'st, 'c) agent_world \<Rightarrow> ('w, 'st, 'c) agent_world" where
  "open_session unix v =
    v\<lparr>aw_sessions := hm_insert (aw_fresh v) \<lparr> sn_unix = unix, sn_queue = [], sn_sent = [] \<rparr> (aw_sessions v),
      aw_fresh := aw_fresh v + 1\<rparr>"

definition close_session :: "nat \<Rightarrow> ('w, 'st, 'c) agent_world \<Rightarrow> ('w, 'st, 'c) agent_world" where
  "close_session sid v = v\<lparr>aw_sessions := hm_remove sid (aw_sessions v)\<rparr>"

text \<open>\<open>send_response\<close> and \<open>write_json_line\<close>; a failed write ends the session.\<close>

definition send_response ::
  "nat \<Rightarrow> session \<Rightarrow> agent_response \<Rightarrow> bool \<Rightarrow> ('w, 'st, 'c) agent_world \<Rightarrow> ('w, 'st, 'c) agent_world" where
  "send_response sid s r written v =
    (if written then v\<lparr>aw_sessions := hm_insert sid (s\<lparr>sn_sent := sn_sent s @ [r]\<rparr>) (aw_sessions v)\<rparr>
     else close_session sid v)"

definition add_subscription :: "'c subscription option \<Rightarrow> ('w, 'st, 'c) agent_world \<Rightarrow> ('w, 'st, 'c) agent_world" where
  "add_subscription sub v =
    (case sub of
       None \<Rightarrow> v
     | Some sb \<Rightarrow> v\<lparr>aw_subs := hm_insert (aw_fresh v) sb (aw_subs v), aw_fresh := aw_fresh v + 1\<rparr>)"

definition answer_text ::
  "'z agent_env_scheme \<Rightarrow> 'c lru \<Rightarrow> (nat \<Rightarrow> bytes) \<Rightarrow> 'w peer_schedule \<Rightarrow> ('w, 'st) agent_state \<Rightarrow> nat \<Rightarrow> session \<Rightarrow>
    string \<Rightarrow> bool \<Rightarrow> ('w, 'st, 'c) agent_world \<Rightarrow> ('w, 'st, 'c) agent_world" where
  "answer_text E L rng sched A sid s line written v =
    (case handle_text E L rng sched A line sid (aw_peers v) of
       (w, sub, r) \<Rightarrow>
         (let v = add_subscription sub (v\<lparr>aw_peers := w\<rparr>)
          in case r of
               Ok response \<Rightarrow> send_response sid s response written v
             | _ \<Rightarrow> close_session sid v))"

fun handle_input ::
  "'z agent_env_scheme \<Rightarrow> 'c lru \<Rightarrow> (nat \<Rightarrow> bytes) \<Rightarrow> 'w peer_schedule \<Rightarrow> ('w, 'st) agent_state \<Rightarrow> nat \<Rightarrow> session \<Rightarrow>
    session_input \<Rightarrow> bool \<Rightarrow> ('w, 'st, 'c) agent_world \<Rightarrow> ('w, 'st, 'c) agent_world" where
  "handle_input E L rng sched A sid s (Frame (WsText line)) written v = answer_text E L rng sched A sid s line written v"
| "handle_input E L rng sched A sid s (Frame (WsBinary _)) written v =
    send_response sid s (error_response None InvalidRequest) written v"
| "handle_input E L rng sched A sid s (Frame WsPing) written v = v"
| "handle_input E L rng sched A sid s (Frame WsPong) written v = v"
| "handle_input E L rng sched A sid s (Frame _) written v = close_session sid v"
| "handle_input E L rng sched A sid s (Line (Some line)) written v = answer_text E L rng sched A sid s line written v"
| "handle_input E L rng sched A sid s (Line None) written v = close_session sid v"

definition is_line :: "session_input \<Rightarrow> bool" where
  "is_line x = (case x of Frame _ \<Rightarrow> False | Line _ \<Rightarrow> True)"

text \<open>The other branch of a session loop: the head of the queue is written.\<close>

definition deliver :: "nat \<Rightarrow> session \<Rightarrow> bool \<Rightarrow> ('w, 'st, 'c) agent_world \<Rightarrow> ('w, 'st, 'c) agent_world" where
  "deliver sid s written v =
    (case sn_queue s of
       [] \<Rightarrow> v
     | r # rs \<Rightarrow> send_response sid (s\<lparr>sn_queue := rs\<rparr>) r written v)"

definition subscription_step ::
  "'z agent_env_scheme \<Rightarrow> 'c lru \<Rightarrow> ('w, 'st) agent_state \<Rightarrow> u64 \<Rightarrow> 'w peer_schedule \<Rightarrow> nat \<Rightarrow> 'c subscription \<Rightarrow>
    ('w, 'st, 'c) agent_world \<Rightarrow> ('w, 'st, 'c) agent_world" where
  "subscription_step E L A time sched k sb v =
    (case sb_pending sb of
       None \<Rightarrow>
         (case subscription_recv E L A time sched sb (aw_peers v) of
            (w, None) \<Rightarrow> v\<lparr>aw_peers := w, aw_subs := hm_remove k (aw_subs v)\<rparr>
          | (w, Some sb) \<Rightarrow> v\<lparr>aw_peers := w, aw_subs := hm_insert k sb (aw_subs v)\<rparr>)
     | Some r \<Rightarrow>
         (case session_send (sb_session sb) r (aw_sessions v) of
            None \<Rightarrow> v
          | Some (Ok sessions) \<Rightarrow>
              v\<lparr>aw_sessions := sessions, aw_subs := hm_insert k (sb\<lparr>sb_pending := None\<rparr>) (aw_subs v)\<rparr>
          | Some _ \<Rightarrow> v\<lparr>aw_subs := hm_remove k (aw_subs v)\<rparr>))"

datatype 'w agent_event =
    ConnectWs header_map string bool
  | ConnectUnix
  | Input nat session_input "nat \<Rightarrow> bytes" "'w peer_schedule" bool
  | Deliver nat bool
  | SubTurn nat u64 "'w peer_schedule"
  | Network "'w \<Rightarrow> 'w"

fun agent_step ::
  "'z agent_env_scheme \<Rightarrow> 'c lru \<Rightarrow> ('w, 'st) agent_state \<Rightarrow> ('w, 'st, 'c) agent_world \<Rightarrow> 'w agent_event \<Rightarrow>
    ('w, 'st, 'c) agent_world" where
  "agent_step E L A v (ConnectWs headers path handshake) =
    (if ag_listen_ws (ags_config A) = None then v
     else case ws_router E A headers path handshake of Ok Upgraded \<Rightarrow> open_session False v | _ \<Rightarrow> v)"
| "agent_step E L A v ConnectUnix = (if ag_listen_unix (ags_config A) = None then v else open_session True v)"
| "agent_step E L A v (Input sid x rng sched written) =
    (case hm_get (aw_sessions v) sid of
       None \<Rightarrow> v
     | Some s \<Rightarrow> if sn_unix s = is_line x then handle_input E L rng sched A sid s x written v else v)"
| "agent_step E L A v (Deliver sid written) =
    (case hm_get (aw_sessions v) sid of None \<Rightarrow> v | Some s \<Rightarrow> deliver sid s written v)"
| "agent_step E L A v (SubTurn k time sched) =
    (case hm_get (aw_subs v) k of None \<Rightarrow> v | Some sb \<Rightarrow> subscription_step E L A time sched k sb v)"
| "agent_step E L A v (Network f) = v\<lparr>aw_peers := (aw_peers v)\<lparr>pw_net := f (pw_net (aw_peers v))\<rparr>\<rparr>"

section \<open>Text\<close>

lemma parse_peer_id_hex: "length p = 32 \<Longrightarrow> parse_peer_id (hex_encode p) = Ok p"
  by (simp add: parse_peer_id_def hex_encode_lower)

section \<open>Authorisation\<close>

lemma strip_prefixD: "strip_prefix p s = Some t \<Longrightarrow> s = p @ t"
  by (metis append_take_drop_id option.distinct(1) option.inject strip_prefix_def)

lemma bearer_tokenD:
  assumes "bearer_token headers = Some token"
  shows "hm_get headers ''authorization'' = Some (str_bytes (''Bearer '' @ token))"
proof -
  from assms obtain v s where v: "hm_get headers ''authorization'' = Some v" "header_to_str v = Some s" "strip_prefix ''Bearer '' s = Some token"
    by (auto simp: bearer_token_def bind_eq_Some_conv)
  from v(3) have "s = ''Bearer '' @ token" by (rule strip_prefixD)
  moreover from v(2) have "v = str_bytes s" by (auto simp: header_to_str_def split: if_splits)
  ultimately show ?thesis using v(1) by simp
qed

lemma ws_router_authorized:
  assumes "ws_router S A headers path handshake = Ok Upgraded" "ag_token (ags_config A) = Some token"
  shows "hm_get headers ''authorization'' = Some (str_bytes (''Bearer '' @ token))"
proof -
  from assms have "bearer_token headers = Some token"
    by (auto simp: ws_router_def authorize_def split: if_splits res.splits option.splits)
  then show ?thesis by (rule bearer_tokenD)
qed

section \<open>Steps\<close>

text \<open>The parts of the agent a step works on, one lemma per helper.\<close>

lemma agent_parts [simp]:
  "aw_peers (open_session u v) = aw_peers v" "aw_subs (open_session u v) = aw_subs v"
  "aw_peers (close_session sid v) = aw_peers v" "aw_subs (close_session sid v) = aw_subs v"
  "aw_fresh (close_session sid v) = aw_fresh v" "aw_fresh (open_session u v) = aw_fresh v + 1"
  "aw_peers (send_response sid s r b v) = aw_peers v" "aw_subs (send_response sid s r b v) = aw_subs v"
  "aw_fresh (send_response sid s r b v) = aw_fresh v"
  "aw_peers (deliver sid s b v) = aw_peers v" "aw_subs (deliver sid s b v) = aw_subs v" "aw_fresh (deliver sid s b v) = aw_fresh v"
  "aw_peers (add_subscription sub v) = aw_peers v" "aw_sessions (add_subscription sub v) = aw_sessions v"
  by (auto simp: open_session_def close_session_def send_response_def deliver_def add_subscription_def split: option.splits list.splits)

lemma session_updates [simp]:
  "hm_get (aw_sessions (open_session u v)) j
    = (if j = aw_fresh v then Some \<lparr> sn_unix = u, sn_queue = [], sn_sent = [] \<rparr> else hm_get (aw_sessions v) j)"
  "hm_get (aw_sessions (close_session sid v)) j = (if j = sid then None else hm_get (aw_sessions v) j)"
  "hm_get (aw_sessions (send_response sid s r b v)) j
    = (if j = sid then (if b then Some (s\<lparr>sn_sent := sn_sent s @ [r]\<rparr>) else None) else hm_get (aw_sessions v) j)"
  by (simp_all add: open_session_def close_session_def send_response_def)

lemma handle_input_shape:
  obtains (same) "handle_input E L rng sched A sid s x written v = v"
  | (closed) "handle_input E L rng sched A sid s x written v = close_session sid v"
  | (invalid) "handle_input E L rng sched A sid s x written v = send_response sid s (error_response None InvalidRequest) written v"
  | (line) line where "handle_input E L rng sched A sid s x written v = answer_text E L rng sched A sid s line written v"
proof (cases x)
  case (Frame frame)
  then show ?thesis using same closed invalid line by (cases frame) simp_all
next
  case (Line line)
  then show ?thesis using closed that(4) by (cases line) simp_all
qed

lemma answer_text_shape:
  assumes h: "handle_text E L rng sched A line sid (aw_peers v) = (w, sub, r)"
  shows "answer_text E L rng sched A sid s line written v =
    (case r of Ok response \<Rightarrow> send_response sid s response written (add_subscription sub (v\<lparr>aw_peers := w\<rparr>))
       | _ \<Rightarrow> close_session sid (add_subscription sub (v\<lparr>aw_peers := w\<rparr>)))"
  unfolding answer_text_def h by (simp add: Let_def)

lemma answer_text_session:
  assumes "hm_get (aw_sessions (answer_text E L rng sched A sid s line written v)) j = Some s'"
  shows "hm_get (aw_sessions v) j = Some s'
    \<or> j = sid \<and> (\<exists>w sub r. handle_text E L rng sched A line sid (aw_peers v) = (w, sub, Ok r) \<and> s' = s\<lparr>sn_sent := sn_sent s @ [r]\<rparr>)"
proof -
  obtain w sub r where h: "handle_text E L rng sched A line sid (aw_peers v) = (w, sub, r)" by (rule prod_cases3)
  have "hm_get (aw_sessions v) j = Some s' \<or> j = sid \<and> (\<exists>x. r = Ok x \<and> s' = s\<lparr>sn_sent := sn_sent s @ [x]\<rparr>)"
    using assms unfolding answer_text_shape[OF h] by (cases r) (simp_all split: if_splits)
  then show ?thesis using h by blast
qed

text \<open>What a step leaves of the sessions, one lemma per event.\<close>

lemma connect_ws_session:
  "hm_get (aw_sessions (agent_step E L A v (ConnectWs headers path handshake))) j = Some s' \<Longrightarrow>
    hm_get (aw_sessions v) j = Some s'
    \<or> ag_listen_ws (ags_config A) \<noteq> None \<and> ws_router E A headers path handshake = Ok Upgraded \<and> j = aw_fresh v
      \<and> s' = \<lparr> sn_unix = False, sn_queue = [], sn_sent = [] \<rparr>"
  by (auto split: if_splits res.splits route_reply.splits)

lemma connect_unix_session:
  "hm_get (aw_sessions (agent_step E L A v ConnectUnix)) j = Some s' \<Longrightarrow>
    hm_get (aw_sessions v) j = Some s' \<or> ag_listen_unix (ags_config A) \<noteq> None \<and> j = aw_fresh v \<and> s' = \<lparr> sn_unix = True, sn_queue = [], sn_sent = [] \<rparr>"
  by (auto split: if_splits)

lemma handle_input_session:
  assumes "hm_get (aw_sessions (handle_input E L rng sched A sid s x written v)) j = Some s'"
  shows "hm_get (aw_sessions v) j = Some s' \<or> j = sid \<and> (\<exists>r. s' = s\<lparr>sn_sent := sn_sent s @ [r]\<rparr>
    \<and> (r = error_response None InvalidRequest \<or> (\<exists>line w sub. handle_text E L rng sched A line sid (aw_peers v) = (w, sub, Ok r))))"
proof (cases rule: handle_input_shape[of E L rng sched A sid s x written v])
  case same
  then show ?thesis using assms by simp
next
  case closed
  then show ?thesis using assms by (simp split: if_splits)
next
  case invalid
  then show ?thesis using assms by (auto split: if_splits)
next
  case (line line)
  then show ?thesis using answer_text_session[of E L rng sched A sid s line written v j s'] assms by auto
qed

lemma deliver_session:
  "hm_get (aw_sessions (deliver sid s written v)) j = Some s' \<Longrightarrow> hm_get (aw_sessions v) j = Some s'
    \<or> j = sid \<and> (\<exists>r rs. sn_queue s = r # rs \<and> s' = s\<lparr>sn_queue := rs, sn_sent := sn_sent s @ [r]\<rparr>)"
  by (cases "sn_queue s") (simp_all add: deliver_def split: if_splits)

lemma subscription_session:
  assumes "hm_get (aw_sessions (subscription_step E L A time sched k sb v)) j = Some s'"
  shows "hm_get (aw_sessions v) j = Some s'
    \<or> (\<exists>s r. j = sb_session sb \<and> hm_get (aw_sessions v) j = Some s \<and> length (sn_queue s) < SESSION_BUFFER \<and> sb_pending sb = Some r
        \<and> s' = s\<lparr>sn_queue := sn_queue s @ [r]\<rparr>)"
proof (cases "sb_pending sb")
  case None
  obtain w sub where "subscription_recv E L A time sched sb (aw_peers v) = (w, sub)" by fastforce
  then show ?thesis using assms None by (cases sub) (simp_all add: subscription_step_def)
next
  case (Some r)
  then show ?thesis using assms
    by (cases "hm_get (aw_sessions v) (sb_session sb)") (auto simp: subscription_step_def session_send_def split: if_splits)
qed

text \<open>
  What can become of a session in one step: it stays, it is written a response, its queue grows by
  a pending message or gives up its head, or it is new.
\<close>

lemma session_step:
  assumes "hm_get (aw_sessions (agent_step E L A v e)) j = Some s'"
  obtains (kept) "hm_get (aw_sessions v) j = Some s'"
  | (answered) s r where "hm_get (aw_sessions v) j = Some s" "s' = s\<lparr>sn_sent := sn_sent s @ [r]\<rparr>"
      "r = error_response None InvalidRequest \<or> (\<exists>rng sched line w sub. handle_text E L rng sched A line j (aw_peers v) = (w, sub, Ok r))"
  | (delivered) s r rs where "hm_get (aw_sessions v) j = Some s" "sn_queue s = r # rs" "s' = s\<lparr>sn_queue := rs, sn_sent := sn_sent s @ [r]\<rparr>"
  | (queued) s r k sb where "hm_get (aw_sessions v) j = Some s" "length (sn_queue s) < SESSION_BUFFER"
      "hm_get (aw_subs v) k = Some sb" "sb_pending sb = Some r" "s' = s\<lparr>sn_queue := sn_queue s @ [r]\<rparr>"
  | (new_ws) headers path handshake where "e = ConnectWs headers path handshake" "ag_listen_ws (ags_config A) \<noteq> None"
      "ws_router E A headers path handshake = Ok Upgraded" "j = aw_fresh v" "s' = \<lparr> sn_unix = False, sn_queue = [], sn_sent = [] \<rparr>"
  | (new_unix) "e = ConnectUnix" "ag_listen_unix (ags_config A) \<noteq> None" "j = aw_fresh v" "s' = \<lparr> sn_unix = True, sn_queue = [], sn_sent = [] \<rparr>"
proof (cases e)
  case (ConnectWs headers path handshake)
  with connect_ws_session assms show ?thesis using kept new_ws[OF ConnectWs] by metis
next
  case ConnectUnix
  with connect_unix_session assms show ?thesis using kept new_unix by metis
next
  case (Input sid x rng sched written)
  show ?thesis
  proof (cases "\<exists>s. hm_get (aw_sessions v) sid = Some s \<and> sn_unix s = is_line x")
    case True
    then obtain s where s: "hm_get (aw_sessions v) sid = Some s" "agent_step E L A v e = handle_input E L rng sched A sid s x written v"
      using Input by auto
    from handle_input_session[OF assms[unfolded s(2)]] show ?thesis using kept answered[of s] s(1) by metis
  next
    case False
    then have "agent_step E L A v e = v" using Input by (auto split: option.split)
    then show ?thesis using assms kept by simp
  qed
next
  case (Deliver sid written)
  show ?thesis
  proof (cases "hm_get (aw_sessions v) sid")
    case (Some s)
    then have "agent_step E L A v e = deliver sid s written v" using Deliver by simp
    with deliver_session assms show ?thesis using kept delivered[of s] Some by metis
  qed (use assms Deliver kept in simp)
next
  case (SubTurn k time sched)
  show ?thesis
  proof (cases "hm_get (aw_subs v) k")
    case (Some sb)
    then have "agent_step E L A v e = subscription_step E L A time sched k sb v" using SubTurn by simp
    with subscription_session assms show ?thesis using kept queued[of _ k sb] Some by metis
  qed (use assms SubTurn kept in simp)
next
  case (Network f)
  then show ?thesis using assms kept by simp
qed

text \<open>What a step leaves of the subscriptions.\<close>

lemma handle_text_sub:
  "handle_text E L rng sched A line sid w = (w', Some sb, r) \<Longrightarrow> \<exists>channel. spawn_subscription L channel sid = Some sb"
  by (auto simp: handle_text_def Let_def case_prod_beta split: option.splits agent_request.splits if_splits)

lemma answer_text_sub:
  assumes "hm_get (aw_subs (answer_text E L rng sched A sid s line written v)) k = Some sb"
  shows "hm_get (aw_subs v) k = Some sb
    \<or> k = aw_fresh v \<and> aw_fresh (answer_text E L rng sched A sid s line written v) = aw_fresh v + 1
      \<and> (\<exists>channel. spawn_subscription L channel sid = Some sb)"
proof -
  obtain w sub r where h: "handle_text E L rng sched A line sid (aw_peers v) = (w, sub, r)" by (rule prod_cases3)
  have same: "aw_subs (answer_text E L rng sched A sid s line written v) = aw_subs (add_subscription sub v)"
    "aw_fresh (answer_text E L rng sched A sid s line written v) = aw_fresh (add_subscription sub v)"
    unfolding answer_text_shape[OF h] by (cases r; cases sub; simp add: add_subscription_def)+
  show ?thesis
  proof (cases sub)
    case (Some x)
    then show ?thesis using handle_text_sub[OF h[unfolded Some]] assms unfolding same by (auto simp: add_subscription_def split: if_splits)
  qed (use assms same in \<open>simp add: add_subscription_def\<close>)
qed

lemma handle_input_sub:
  assumes "hm_get (aw_subs (handle_input E L rng sched A sid s x written v)) k = Some sb"
  shows "hm_get (aw_subs v) k = Some sb
    \<or> k = aw_fresh v \<and> aw_fresh (handle_input E L rng sched A sid s x written v) = aw_fresh v + 1
      \<and> (\<exists>channel. spawn_subscription L channel sid = Some sb)"
proof (cases rule: handle_input_shape[of E L rng sched A sid s x written v])
  case (line line)
  then show ?thesis using answer_text_sub[of E L rng sched A sid s line written v k sb] assms by simp
qed (use assms in simp_all)

lemma subscription_sub:
  assumes "hm_get (aw_subs (subscription_step E L A time sched k sb v)) j = Some sb'" "hm_get (aw_subs v) k = Some sb"
  shows "hm_get (aw_subs v) j = Some sb'
    \<or> j = k \<and> ((\<exists>w d m. sb_pending sb = None
          \<and> peer_recv_timeout E L (ags_namespace A) (sb_channel sb) (from_secs (unat DEFAULT_LONG_POLL_SECS)) [(sched, \<lambda>w. w)] (aw_peers v) (sb_dedup sb)
            = (w, d, Some (Ok m))
          \<and> sb' = sb\<lparr>sb_dedup := d, sb_pending := Some (message_response_of E (sb_channel sb) time m)\<rparr>
          \<and> aw_peers (subscription_step E L A time sched k sb v) = w)
        \<or> (\<exists>d. sb' = sb\<lparr>sb_dedup := d, sb_pending := None\<rparr>))"
  supply peer_recv_timeout.simps [simp del]
proof (cases "sb_pending sb")
  case None
  obtain w d x where rr: "peer_recv_timeout E L (ags_namespace A) (sb_channel sb) (from_secs (unat DEFAULT_LONG_POLL_SECS)) [(sched, \<lambda>w. w)] (aw_peers v) (sb_dedup sb)
    = (w, d, x)" by (rule prod_cases3)
  consider "x = None" | m where "x = Some (Ok m)" | "\<exists>r. x = Some r \<and> (\<forall>m. r \<noteq> Ok m)" by (cases x) auto
  then show ?thesis
  proof cases
    case 1
    then have "subscription_recv E L A time sched sb (aw_peers v) = (w, Some (sb\<lparr>sb_dedup := d\<rparr>))"
      using rr by (simp add: subscription_recv_def)
    then have "hm_get (aw_subs v) j = Some sb' \<or> j = k \<and> sb' = sb\<lparr>sb_dedup := d\<rparr>"
      using assms None by (auto simp: subscription_step_def split: if_splits)
    moreover have "sb\<lparr>sb_dedup := d\<rparr> = sb\<lparr>sb_dedup := d, sb_pending := None\<rparr>" using None by (cases sb) simp
    ultimately show ?thesis by metis
  next
    case (2 m)
    then have "subscription_recv E L A time sched sb (aw_peers v)
        = (w, Some (sb\<lparr>sb_dedup := d, sb_pending := Some (message_response_of E (sb_channel sb) time m)\<rparr>))"
      using rr by (simp add: subscription_recv_def)
    then show ?thesis using assms None rr 2 by (auto simp: subscription_step_def split: if_splits)
  next
    case 3
    then have "subscription_recv E L A time sched sb (aw_peers v) = (w, None)"
      using rr by (auto simp: subscription_recv_def split: res.split)
    then show ?thesis using assms None by (auto simp: subscription_step_def split: if_splits)
  qed
next
  case (Some r)
  then show ?thesis using assms
    by (auto simp: subscription_step_def session_send_def split: if_splits option.splits intro: exI[of _ "sb_dedup sb"])
qed

text \<open>What can become of a subscription task in one step.\<close>

lemma sub_step:
  assumes "hm_get (aw_subs (agent_step E L A v e)) k = Some sb'"
  obtains (kept) "hm_get (aw_subs v) k = Some sb'"
  | (spawned) sid s channel where "k = aw_fresh v" "hm_get (aw_sessions v) sid = Some s" "aw_fresh (agent_step E L A v e) = aw_fresh v + 1"
      "spawn_subscription L channel sid = Some sb'"
  | (received) time sched sb w d m where "e = SubTurn k time sched" "hm_get (aw_subs v) k = Some sb"
      "peer_recv_timeout E L (ags_namespace A) (sb_channel sb) (from_secs (unat DEFAULT_LONG_POLL_SECS)) [(sched, \<lambda>w. w)] (aw_peers v) (sb_dedup sb)
        = (w, d, Some (Ok m))"
      "sb' = sb\<lparr>sb_dedup := d, sb_pending := Some (message_response_of E (sb_channel sb) time m)\<rparr>"
      "aw_peers (agent_step E L A v e) = w"
  | (idle) sb d where "hm_get (aw_subs v) k = Some sb" "sb' = sb\<lparr>sb_dedup := d, sb_pending := None\<rparr>"
proof (cases e)
  case (ConnectWs headers path handshake)
  then have "aw_subs (agent_step E L A v e) = aw_subs v" by (auto split: if_splits res.splits route_reply.splits)
  then show ?thesis using assms kept by simp
next
  case ConnectUnix
  then show ?thesis using assms kept by (simp split: if_splits)
next
  case (Input sid x rng sched written)
  show ?thesis
  proof (cases "\<exists>s. hm_get (aw_sessions v) sid = Some s \<and> sn_unix s = is_line x")
    case True
    then obtain s where s: "hm_get (aw_sessions v) sid = Some s" "agent_step E L A v e = handle_input E L rng sched A sid s x written v"
      using Input by auto
    from handle_input_sub[OF assms[unfolded s(2)]] show ?thesis using kept spawned[of sid s, OF _ s(1)] s(2) by metis
  next
    case False
    then have "agent_step E L A v e = v" using Input by (auto split: option.split)
    then show ?thesis using assms kept by simp
  qed
next
  case (Deliver sid written)
  then have "aw_subs (agent_step E L A v e) = aw_subs v" by (auto split: option.split)
  then show ?thesis using assms kept by simp
next
  case (SubTurn j time sched)
  show ?thesis
  proof (cases "hm_get (aw_subs v) j")
    case (Some sb)
    then have step: "agent_step E L A v e = subscription_step E L A time sched j sb v" using SubTurn by simp
    from subscription_sub[OF assms[unfolded step] Some] show ?thesis
      using kept received[of time sched sb] idle[of sb] SubTurn Some step by metis
  qed (use assms SubTurn kept in simp)
next
  case (Network f)
  then show ?thesis using assms kept by simp
qed

section \<open>Well-formed agents\<close>

lemma send_bytes_tables:
  "send_bytes S ns sched name addresses bs w = (w', r) \<Longrightarrow> pw_trusted w' = pw_trusted w \<and> pw_group_keys w' = pw_group_keys w"
  by (auto simp: send_bytes_def Let_def split: res.splits prod.splits)

lemma send_to_peers_tables:
  "send_to_peers E rng ns sched name cards payload w = (w', r) \<Longrightarrow> pw_trusted w' = pw_trusted w \<and> pw_group_keys w' = pw_group_keys w"
  by (auto simp: send_to_peers_def dest: send_bytes_tables split: res.splits)

lemma put_bytes_tables:
  "put_bytes S ns sched name addresses version bs w = (w', r) \<Longrightarrow> pw_trusted w' = pw_trusted w \<and> pw_group_keys w' = pw_group_keys w"
  by (auto simp: put_bytes_def Let_def split: res.splits prod.splits)

lemma put_for_peers_tables:
  "put_for_peers E rng ns sched name cards payload w = (w', r) \<Longrightarrow> pw_trusted w' = pw_trusted w \<and> pw_group_keys w' = pw_group_keys w"
  by (auto simp: put_for_peers_def put_scoped_def peer_next_version_def dest!: put_bytes_tables split: res.splits prod.splits)

lemma get_pairwise_tables:
  "get_pairwise E ns sched name w = (w', r) \<Longrightarrow> pw_trusted w' = pw_trusted w \<and> pw_group_keys w' = pw_group_keys w"
  by (auto simp: get_pairwise_def get_address_def Let_def split: res.splits prod.splits)

lemma agent_add_peer_wf: "world_wf E w \<Longrightarrow> world_wf E (fst (agent_add_peer E A s w))"
  using world_wf_trust_peer[of E w "ags_namespace A"]
  by (auto simp: agent_add_peer_def case_prod_beta split: res.splits)

lemma handle_add_peer_wf: "world_wf E w \<Longrightarrow> world_wf E (fst (handle_add_peer E A i s w))"
  using agent_add_peer_wf[of E w A s] by (auto simp: handle_add_peer_def split: prod.splits res.splits)

lemma handle_remove_peer_wf: "world_wf E w \<Longrightarrow> world_wf E (fst (handle_remove_peer A i s w))"
  using world_wf_remove_trusted_peer[of E w "ags_namespace A"]
  by (auto simp: handle_remove_peer_def split: prod.splits res.splits) (metis fst_conv)+

lemma handle_send_wf: "world_wf E w \<Longrightarrow> world_wf E (fst (handle_send E rng sched A i dest channel payload w))"
  by (auto simp: handle_send_def dest!: send_to_peers_tables intro: world_wf_cong split: prod.splits res.splits option.splits)

lemma handle_get_slot_wf: "world_wf E w \<Longrightarrow> world_wf E (fst (handle_get_slot E sched A i channel w))"
  by (auto simp: handle_get_slot_def dest!: get_pairwise_tables intro: world_wf_cong split: prod.splits res.splits)

lemma handle_put_slot_wf: "world_wf E w \<Longrightarrow> world_wf E (fst (handle_put_slot E rng sched A i channel payload w))"
  by (auto simp: handle_put_slot_def Let_def dest!: put_for_peers_tables intro: world_wf_cong split: prod.splits res.splits)

lemmas handler_wf = handle_add_peer_wf handle_remove_peer_wf handle_send_wf handle_get_slot_wf handle_put_slot_wf

lemma handle_text_wf: "world_wf E w \<Longrightarrow> world_wf E (fst (handle_text E L rng sched A s sid w))"
  by (auto simp: handle_text_def Let_def case_prod_beta handler_wf split: option.split agent_request.split)

lemma peer_recv_timeout_wf:
  assumes "peer_recv_timeout E L ns name wait [(sched, \<lambda>w. w)] w d = (w', d', r)" "world_wf E w"
  shows "world_wf E w'"
  using assms world_wf_net[OF assms(2)]
  by (auto simp: Let_def dest!: peer_recv_round_net split: res.splits prod.splits peer_round.splits if_splits)

lemma agent_step_world_wf: "world_wf E (aw_peers v) \<Longrightarrow> world_wf E (aw_peers (agent_step E L A v e))"
proof (cases e)
  case (Input sid x rng sched written)
  assume wf: "world_wf E (aw_peers v)"
  have reply: "world_wf E (aw_peers (answer_text E L rng sched A sid s line written v))" for s line
    using handle_text_wf[OF wf, of L rng sched A line sid]
    by (auto simp: answer_text_def Let_def split: prod.splits res.splits)
  show ?thesis
  proof (cases "hm_get (aw_sessions v) sid")
    case (Some s)
    then show ?thesis using Input wf reply
      by (cases "(E, L, rng, sched, A, sid, s, x, written, v)" rule: handle_input.cases) auto
  qed (use Input wf in simp)
next
  case (SubTurn k time sched)
  assume "world_wf E (aw_peers v)"
  then show ?thesis using SubTurn
    by (auto simp: subscription_step_def subscription_recv_def simp del: peer_recv_timeout.simps dest: peer_recv_timeout_wf split: option.splits res.splits prod.splits)
next
  case (Network f)
  assume "world_wf E (aw_peers v)"
  then show ?thesis using Network by (simp add: world_wf_net)
qed (auto split: if_splits res.splits route_reply.splits option.splits)

text \<open>
  The peers' tables are well-formed, the queues are within their bound, ids are issued once, and a
  subscription is on a valid channel of a session that was opened.
\<close>

definition agent_wf :: "'z agent_env_scheme \<Rightarrow> ('w, 'st, 'c) agent_world \<Rightarrow> bool" where
  "agent_wf E v \<longleftrightarrow>
    world_wf E (aw_peers v)
    \<and> (\<forall>sid s. hm_get (aw_sessions v) sid = Some s \<longrightarrow> sid < aw_fresh v \<and> length (sn_queue s) \<le> SESSION_BUFFER)
    \<and> (\<forall>k sb. hm_get (aw_subs v) k = Some sb \<longrightarrow> k < aw_fresh v \<and> sb_session sb < aw_fresh v \<and> valid_name (sb_channel sb))"

lemma answer_text_fresh: "aw_fresh v \<le> aw_fresh (answer_text E L rng sched A sid s line written v)"
proof -
  obtain w sub r where h: "handle_text E L rng sched A line sid (aw_peers v) = (w, sub, r)" by (rule prod_cases3)
  show ?thesis unfolding answer_text_shape[OF h] by (cases r; cases sub; simp add: add_subscription_def)
qed

lemma agent_step_fresh: "aw_fresh v \<le> aw_fresh (agent_step E L A v e)"
proof (cases e)
  case (ConnectWs headers path handshake)
  then show ?thesis by (auto split: res.split route_reply.split)
next
  case (Input sid x rng sched written)
  have "aw_fresh v \<le> aw_fresh (handle_input E L rng sched A sid s x written v)" for s
    using answer_text_fresh[of v] by (cases rule: handle_input_shape[of E L rng sched A sid s x written v]) auto
  then show ?thesis using Input by (auto split: option.split)
next
  case (Deliver sid written)
  then show ?thesis by (auto split: option.split)
next
  case (SubTurn k time sched)
  then show ?thesis by (auto simp: subscription_step_def split: option.split res.split prod.split)
qed auto

lemma connect_fresh:
  "hm_get (aw_sessions (agent_step E L A v e)) j = Some s' \<Longrightarrow> hm_get (aw_sessions v) j = None \<Longrightarrow>
    j < aw_fresh (agent_step E L A v e)"
  by (erule session_step) (auto split: if_splits)

lemma agent_wf_step:
  assumes "agent_wf E v"
  shows "agent_wf E (agent_step E L A v e)"
proof -
  let ?v = "agent_step E L A v e"
  note fresh = agent_step_fresh[of v E L A e]
  have "sid < aw_fresh ?v \<and> length (sn_queue s') \<le> SESSION_BUFFER" if s: "hm_get (aw_sessions ?v) sid = Some s'" for sid s'
  proof
    show "sid < aw_fresh ?v" using connect_fresh[OF s] assms fresh unfolding agent_wf_def by (metis not_None_eq order_less_le_trans)
    have bound: "length (sn_queue s) \<le> SESSION_BUFFER" if "hm_get (aw_sessions v) sid = Some s" for s
      using that assms unfolding agent_wf_def by blast
    from s show "length (sn_queue s') \<le> SESSION_BUFFER"
      by (cases rule: session_step) (use bound in \<open>fastforce simp: Suc_le_eq\<close>)+
  qed
  moreover have "k < aw_fresh ?v \<and> sb_session sb < aw_fresh ?v \<and> valid_name (sb_channel sb)" if k: "hm_get (aw_subs ?v) k = Some sb" for k sb
    using k
  proof (cases rule: sub_step)
    case (spawned sid s channel)
    then have "sb_session sb = sid" "valid_name (sb_channel sb)"
      by (auto simp: spawn_subscription_def namespace_mailbox_def res_simps split: res.splits)
    moreover have "sid < aw_fresh v" using spawned(2) assms by (auto simp: agent_wf_def)
    ultimately show ?thesis using spawned(1,3) by simp
  qed (use assms fresh in \<open>force simp: agent_wf_def\<close>)+
  ultimately show ?thesis using assms agent_step_world_wf[of E v L A e] by (simp add: agent_wf_def)
qed

lemma agent_wf_run: "agent_wf E v \<Longrightarrow> agent_wf E (foldl (agent_step E L A) v es)"
  by (induction es arbitrary: v) (simp_all add: agent_wf_step)

section \<open>Traces\<close>

text \<open>A WebSocket session exists only because a request with the agent's token opened it.\<close>

definition presents :: "string \<Rightarrow> 'w agent_event \<Rightarrow> bool" where
  "presents token e \<longleftrightarrow>
    (\<exists>headers path handshake. e = ConnectWs headers path handshake \<and>
      hm_get headers ''authorization'' = Some (str_bytes (''Bearer '' @ token)))"

lemma ws_session_step:
  assumes "cli_load E F c = Ok (ags_config A)" "hm_get (aw_sessions (agent_step E L A v e)) sid = Some s'" "\<not> sn_unix s'"
  shows "(\<exists>s. hm_get (aw_sessions v) sid = Some s \<and> \<not> sn_unix s) \<or> (\<exists>token. ag_token (ags_config A) = Some token \<and> presents token e)"
  using assms(2)
proof (cases rule: session_step)
  case (new_ws headers path handshake)
  then obtain token where token: "ag_token (ags_config A) = Some token" using cli_load_token[OF assms(1)] by blast
  with ws_router_authorized[OF new_ws(3) token] new_ws(1) show ?thesis unfolding presents_def by blast
qed (use assms(3) in auto)

lemma ws_session_run:
  assumes "cli_load E F c = Ok (ags_config A)" "hm_get (aw_sessions (foldl (agent_step E L A) v es)) sid = Some s" "\<not> sn_unix s"
    and "aw_sessions v = []"
  shows "\<exists>token. ag_token (ags_config A) = Some token \<and> (\<exists>e \<in> set es. presents token e)"
  using assms(2,3)
proof (induction es arbitrary: s rule: rev_induct)
  case (snoc e es)
  from ws_session_step[OF assms(1)] snoc.prems
  have "(\<exists>s. hm_get (aw_sessions (foldl (agent_step E L A) v es)) sid = Some s \<and> \<not> sn_unix s)
      \<or> (\<exists>token. ag_token (ags_config A) = Some token \<and> presents token e)" by simp blast
  then show ?case using snoc.IH by auto
qed (use assms(4) in simp)

text \<open>
  A message response is justified by a trace when some turn of a subscription on its channel
  received a message that was authentic for the namespace at that moment.
\<close>

definition justified ::
  "'z agent_env_scheme \<Rightarrow> 'c lru \<Rightarrow> ('w, 'st) agent_state \<Rightarrow> ('w, 'st, 'c) agent_world \<Rightarrow> 'w agent_event list \<Rightarrow> message_response \<Rightarrow> bool" where
  "justified E L A v es r \<longleftrightarrow>
    (\<exists>es1 k time sched es2 m bs. es = es1 @ SubTurn k time sched # es2
      \<and> MessageResponse r = message_response_of E (mr_channel r) time m
      \<and> authentic E (ags_namespace A) (aw_peers (foldl (agent_step E L A) v (es1 @ [SubTurn k time sched]))) (mr_channel r) m bs)"

lemma justified_snoc: "justified E L A v es r \<Longrightarrow> justified E L A v (es @ [e]) r"
  by (fastforce simp: justified_def)

lemma handlers_no_message:
  "report_reply i r \<noteq> Ok (MessageResponse x)" "error_response j code \<noteq> MessageResponse x"
  by (auto simp: report_reply_def error_response_def split: res.split)

lemma handler_replies:
  "handle_add_peer E A i s w = (w', Ok (MessageResponse x)) \<Longrightarrow> False"
  "handle_remove_peer A i s w = (w', Ok (MessageResponse x)) \<Longrightarrow> False"
  "handle_send E' rng sched A i dest channel payload w = (w', Ok (MessageResponse x)) \<Longrightarrow> False"
  "handle_get_slot E' sched A i channel w = (w', Ok (MessageResponse x)) \<Longrightarrow> False"
  "handle_put_slot E' rng sched A i channel payload w = (w', Ok (MessageResponse x)) \<Longrightarrow> False"
  subgoal by (auto simp: handle_add_peer_def handlers_no_message res_simps split: prod.splits res.splits)
  subgoal by (auto simp: handle_remove_peer_def handlers_no_message split: prod.splits res.splits)
  subgoal by (auto simp: handle_send_def handlers_no_message split: prod.splits res.splits option.splits if_splits)
  subgoal by (auto simp: handle_get_slot_def handlers_no_message split: prod.splits res.splits if_splits)
  subgoal by (auto simp: handle_put_slot_def Let_def handlers_no_message split: prod.splits res.splits if_splits)
  done

lemma handle_text_no_message: "handle_text E L rng sched A line sid w = (w', sub, Ok (MessageResponse x)) \<Longrightarrow> False"
  by (auto simp: handle_text_def Let_def handlers_no_message res_simps dest: handler_replies
      split: option.splits agent_request.splits if_splits prod.splits)

text \<open>Every message that is held by a subscription, queued or written is justified.\<close>

definition traced ::
  "'z agent_env_scheme \<Rightarrow> 'c lru \<Rightarrow> ('w, 'st) agent_state \<Rightarrow> ('w, 'st, 'c) agent_world \<Rightarrow> 'w agent_event list \<Rightarrow> bool" where
  "traced E L A v es \<longleftrightarrow>
    (let v' = foldl (agent_step E L A) v es in
      (\<forall>sid s r. hm_get (aw_sessions v') sid = Some s \<longrightarrow> MessageResponse r \<in> set (sn_queue s) \<union> set (sn_sent s) \<longrightarrow> justified E L A v es r)
      \<and> (\<forall>k sb r. hm_get (aw_subs v') k = Some sb \<longrightarrow> sb_pending sb = Some (MessageResponse r) \<longrightarrow> justified E L A v es r))"

lemma received_justified:
  assumes "world_wf E (aw_peers v')" "v' = foldl (agent_step E L A) v es"
    and "peer_recv_timeout E L (ags_namespace A) channel wait [(sched, \<lambda>w. w)] (aw_peers v') d = (w, d', Some (Ok m))"
    and "aw_peers (agent_step E L A v' (SubTurn k time sched)) = w" "MessageResponse r = message_response_of E channel time m"
  shows "justified E L A v (es @ [SubTurn k time sched]) r"
proof -
  have "world_wf E w \<and> (\<exists>bs. authentic E (ags_namespace A) w channel m bs)"
    by (rule peer_recv_timeout_authentic[where I = "world_wf E", OF assms(3,1)]) (auto intro: world_wf_net)
  then obtain bs where "authentic E (ags_namespace A) w channel m bs" by blast
  moreover have "mr_channel r = channel" using assms(5) by (simp add: message_response_of_def)
  ultimately show ?thesis unfolding justified_def using assms(2,4,5)
    by (intro exI[of _ es] exI[of _ k] exI[of _ time] exI[of _ sched] exI[of _ "[]"] exI[of _ m] exI[of _ bs]) simp
qed

lemma traced_step:
  assumes "traced E L A v es" "world_wf E (aw_peers (foldl (agent_step E L A) v es))"
  shows "traced E L A v (es @ [e])"
proof -
  let ?v = "foldl (agent_step E L A) v es"
  have old: "justified E L A v (es @ [e]) r" if "justified E L A v es r" for r using that by (rule justified_snoc)
  have "justified E L A v (es @ [e]) r"
    if "hm_get (aw_sessions (agent_step E L A ?v e)) sid = Some s'" "MessageResponse r \<in> set (sn_queue s') \<union> set (sn_sent s')" for sid s' r
    using that(1)
  proof (cases rule: session_step)
    case (answered s x)
    then have "x \<noteq> MessageResponse r" using handle_text_no_message handlers_no_message(2) by metis
    then show ?thesis using answered(1,2) that(2) assms(1) old unfolding traced_def Let_def by force
  qed (use that(2) assms(1) old in \<open>force simp: traced_def Let_def\<close>)+
  moreover have "justified E L A v (es @ [e]) r"
    if "hm_get (aw_subs (agent_step E L A ?v e)) k = Some sb'" "sb_pending sb' = Some (MessageResponse r)" for k sb' r
    using that(1)
  proof (cases rule: sub_step)
    case (received time sched sb w d m)
    with received_justified[OF assms(2) refl received(3)] that(2) show ?thesis by auto
  next
    case (spawned sid s channel)
    then show ?thesis using that(2) by (auto simp: spawn_subscription_def split: res.splits prod.splits)
  qed (use that(2) assms(1) old in \<open>force simp: traced_def Let_def\<close>)+
  ultimately show ?thesis unfolding traced_def Let_def by simp
qed

lemma traced_run:
  assumes "world_wf E (aw_peers v)" "aw_sessions v = []" "aw_subs v = []"
  shows "traced E L A v es \<and> world_wf E (aw_peers (foldl (agent_step E L A) v es))"
proof (induction es rule: rev_induct)
  case Nil
  then show ?case using assms by (simp add: traced_def)
next
  case (snoc e es)
  then show ?case using traced_step[of E L A v es e] agent_step_world_wf[of E "foldl (agent_step E L A) v es" L A e] by simp
qed

section \<open>Pairing\<close>

text \<open>The base64 alphabet has no white space.\<close>

definition printable :: "char \<Rightarrow> bool" where
  "printable c \<longleftrightarrow> (33 :: u8) \<le> of_char c \<and> of_char c < (127 :: u8)"

definition b64_printable :: "'z peer_env_scheme \<Rightarrow> bool" where
  "b64_printable P \<longleftrightarrow> (\<forall>bs. list_all printable (b64_encode P bs))"

lemma trim_start_id:
  assumes "\<forall>p \<in> set spaces. p \<noteq> [] \<and> hd p \<noteq> b"
  shows "trim_start spaces (b # s) = b # s"
proof -
  have "find (\<lambda>p. p \<noteq> [] \<and> take (length p) (b # s) = p) spaces = None"
    using assms by (auto simp: find_None_iff) (metis hd_take length_greater_0_conv list.sel(1))
  then show ?thesis by (simp add: trim_start.simps)
qed

lemma white_space_hd:
  assumes "(33 :: u8) \<le> b" "b < 127"
  shows "\<forall>p \<in> set white_space. p \<noteq> [] \<and> hd p \<noteq> b" "\<forall>p \<in> set (map rev white_space). p \<noteq> [] \<and> hd p \<noteq> b"
  using assms by (auto simp: white_space_def)

lemma trim_id:
  assumes "list_all printable s"
  shows "trim s = s"
proof (cases s rule: rev_cases)
  case (snoc t c)
  have byte: "(33 :: u8) \<le> b \<and> b < 127" if "b \<in> set (str_bytes s)" for b
    using assms that by (auto simp: list_all_iff printable_def str_bytes_def)
  have "str_bytes s \<noteq> []" using snoc by (simp add: str_bytes_def)
  then obtain b rest where "str_bytes s = b # rest" by (cases "str_bytes s") auto
  then have 1: "trim_start white_space (str_bytes s) = str_bytes s" using trim_start_id white_space_hd(1) byte by (metis list.set_intros(1))
  obtain l r where "rev (str_bytes s) = l # r" using \<open>str_bytes s \<noteq> []\<close> by (cases "rev (str_bytes s)") auto
  then have 2: "trim_start (map rev white_space) (rev (str_bytes s)) = rev (str_bytes s)"
    using trim_start_id white_space_hd(2) byte by (metis list.set_intros(1) set_rev)
  show ?thesis by (simp add: trim_def 1 2)
qed (simp add: trim_def str_bytes_def bytes_str_def trim_start.simps white_space_def)

lemma exported_string:
  assumes "b64_ok E" "b64_printable E" "card_wf E c" "card_validate E c = Ok ()" "length (card_enc c) < 2 ^ 64"
  shows "\<exists>s. export_string E c = (Ok s :: (unit, string) res) \<and> trim s = s \<and> import_string E s = Ok c"
proof -
  have "list_all printable (PEER_CARD_EXPORT_PREFIX @ b64_encode E bs)" for bs
    using assms(2) by (simp add: b64_printable_def PEER_CARD_EXPORT_PREFIX_def) (simp add: printable_def)
  then have "trim (PEER_CARD_EXPORT_PREFIX @ b64_encode E bs) = PEER_CARD_EXPORT_PREFIX @ b64_encode E bs" for bs by (rule trim_id)
  then show ?thesis using card_from_bytes_enc[OF assms(3-5)] assms(1)
    by (simp add: export_string_def import_string_def b64_ok_def card_to_bytes_eq[OF assms(3)] strip_prefix_def)
qed

lemma find_peer_trusted:
  assumes "world_wf E w" "hm_get (pw_trusted w) p = Some t" "length p = 32"
  shows "find_peer (hex_encode p) w = Some (tp_card t)"
proof -
  have t: "card_peer_id (tp_card t) = p" using assms by (auto simp: world_wf_def trusted_peer_id_def)
  have only: "c = tp_card t" if "c \<in> set (trusted_peers w)" "card_peer_id c = p" for c
  proof -
    from that(1) obtain q u where "(q, u) \<in> set (pw_trusted w)" "c = tp_card u" by (auto simp: trusted_peers_def)
    moreover from this have "hm_get (pw_trusted w) q = Some u" using assms(1) by (simp add: hm_get_mem world_wf_def)
    ultimately show ?thesis using assms(1,2) that(2) by (auto simp: world_wf_def trusted_peer_id_def)
  qed
  have "tp_card t \<in> set (trusted_peers w)" using assms(1,2) by (force simp: trusted_peers_def hm_get_mem world_wf_def)
  then have "find (\<lambda>c. card_peer_id c = p) (trusted_peers w) \<noteq> None" using t by (auto simp: find_None_iff)
  then obtain c where "find (\<lambda>c. card_peer_id c = p) (trusted_peers w) = Some c" by blast
  moreover from this have "c = tp_card t" using only by (auto simp: find_Some_iff)
  ultimately show ?thesis using assms(3) by (simp add: find_peer_def parse_peer_id_hex)
qed

lemma handle_add_peer_stored:
  assumes "import_string E (trim s) = Ok c" "export_string E c = (Ok x :: (unit, string) res)" "card_validate E c = Ok ()"
    and "ss_store_trusted_peer (pn_state (ags_namespace A)) (pw_store w) \<lparr> tp_card = c \<rparr> = (st, Ok ())"
  shows "\<exists>n. handle_add_peer E A i s w =
    (w\<lparr>pw_store := st, pw_trusted := hm_insert (card_peer_id c) \<lparr> tp_card = c \<rparr> (pw_trusted w), pw_net := n\<rparr>,
     Ok (PeerCardResponse i (hex_encode (card_peer_id c)) x))"
  using assms by (simp add: handle_add_peer_def agent_add_peer_def try_from_card_def trust_peer_def trusted_peer_id_def Let_def exI)

section \<open>Restarting\<close>

lemma seed_trusted_get:
  "seed_trusted S ts w = (w', Ok u) \<Longrightarrow>
    hm_get (pw_trusted w') p = None \<longleftrightarrow> hm_get (pw_trusted w) p = None \<and> p \<notin> trusted_peer_id ` set ts"
  by (induction S ts w rule: seed_trusted.induct) (auto split: res.splits if_splits)

lemma seed_group_keys_trusted: "pw_trusted (fst (seed_group_keys ns gks w)) = pw_trusted w"
proof (induction ns gks w rule: seed_group_keys.induct)
  case (2 ns g key rest w)
  have "pw_trusted (fst (add_group_key ns g key w)) = pw_trusted w"
    by (auto simp: add_group_key_def split: prod.split res.split)
  with 2 show ?case by (auto split: prod.split res.split group_key_error.split)
qed simp

lemma open_trusted:
  assumes "peer_namespace_open S B store identity config n st = (w, Ok ns)"
  shows "hm_get (pw_trusted w) p = None \<longleftrightarrow> p \<notin> trusted_peer_id ` set (pcf_trusted_peers config)"
proof -
  obtain n' st' tr ir where t: "open_transports S B identity config n st = (n', st', Ok (tr, ir))"
    using assms by (auto simp: peer_namespace_open_def Let_def split: prod.splits res.splits)
  let ?w = "\<lparr> pw_net = n', pw_store = st', pw_trusted = [], pw_group_keys = [] \<rparr>"
  let ?ns = "\<lparr> pn_identity = identity, pn_state = store, pn_transports = tr, pn_iroh = ir \<rparr>"
  obtain w1 where w1: "seed_trusted S (pcf_trusted_peers config) ?w = (w1, Ok ())"
    using assms t by (auto simp: peer_namespace_open_def Let_def split: prod.splits res.splits)
  have "w = fst (seed_group_keys ?ns (pcf_group_keys config) w1)"
    using assms t w1 by (auto simp: peer_namespace_open_def Let_def split: prod.splits)
  then show ?thesis using seed_trusted_get[OF w1, of p] by (simp add: seed_group_keys_trusted)
qed

lemma configure_transports_trusted:
  assumes "configure_transports E F config pc = Ok pc'"
  shows "pcf_trusted_peers pc' = pcf_trusted_peers pc"
proof -
  obtain pc1 where pc1: "(if ft_http F \<and> ''http'' \<in> set (ag_transports config)
       then (case ag_relay config of
               None \<Rightarrow> Ok pc
             | Some relay \<Rightarrow>
                 map_ok (\<lambda>url. pc\<lparr>pcf_http := Some (http_config_new url)\<rparr>) (ok_or ''relay URL is invalid'' (ae_relay_url E relay)))
       else Ok pc) = Ok pc1"
    "pcf_trusted_peers pc' = pcf_trusted_peers pc1"
    using assms unfolding configure_transports_def bind_res_Ok_iff Let_def by (auto split del: if_split split: if_split_asm)
  from pc1(1) have "pc1 = pc \<or> (\<exists>url. pc1 = pc\<lparr>pcf_http := Some (http_config_new url)\<rparr>)"
    by (cases "ag_relay config") (auto simp: res_simps simp del: list.set split: if_split_asm)
  then show ?thesis using pc1(2) by auto
qed

lemma traverse_try_from_card: "traverse (try_from_card S) cs = Ok ts \<Longrightarrow> map tp_card ts = cs"
  by (induction cs arbitrary: ts) (auto simp: try_from_card_def res_simps)

lemma agent_open_trusted:
  fixes n :: 'w
  assumes "agent_state_open E F B store config n st = (Some w, Ok A)"
  shows "hm_get (pw_trusted w) p = None \<longleftrightarrow> p \<notin> card_peer_id ` set (ag_peers config)"
proof -
  let ?R = "bind_res (map_err (\<lambda>_. ''invalid peer card'') (traverse (try_from_card E) (ag_peers config))) (\<lambda>trusted.
        configure_transports E F config (peer_config_default\<lparr>pcf_trusted_peers := trusted\<rparr>)) :: (string, 'w peer_config) res"
  obtain pc where pc: "?R = Ok pc" using assms by (cases ?R) (simp_all add: agent_state_open_def open_namespace_def)
  then obtain trusted where t: "traverse (try_from_card E) (ag_peers config) = Ok trusted"
    "configure_transports E F config (peer_config_default\<lparr>pcf_trusted_peers := trusted\<rparr>) = Ok pc"
    by (auto simp: bind_res_Ok_iff map_err_Ok_iff)
  obtain w' r where opened: "peer_namespace_open E B store (derive_identity E (ag_seed config)) pc n st = (w', r)" by fastforce
  have "\<exists>ns. (w', r) = (w, Ok ns)" using assms opened
    by (cases r) (simp_all add: agent_state_open_def open_namespace_def pc)
  then obtain ns where ns: "peer_namespace_open E B store (derive_identity E (ag_seed config)) pc n st = (w, Ok ns)" using opened by auto
  have "trusted_peer_id ` set trusted = card_peer_id ` set (ag_peers config)"
    unfolding traverse_try_from_card[OF t(1), symmetric] by (auto simp: trusted_peer_id_def)
  then show ?thesis using open_trusted[OF ns, of p] configure_transports_trusted[OF t(2)] by simp
qed

section \<open>Closed sessions\<close>

lemma closed_session_turn:
  assumes "hm_get (aw_subs v) k = Some sb" "sb_pending sb = None" "hm_get (aw_sessions v) (sb_session sb) = None"
    and "peer_recv_timeout E L (ags_namespace A) (sb_channel sb) (from_secs (unat DEFAULT_LONG_POLL_SECS)) [(sched, \<lambda>w. w)] (aw_peers v) (sb_dedup sb)
      = (w, d, Some (Ok m))"
  shows "\<exists>sb'. agent_step E L A (agent_step E L A v (SubTurn k time sched)) (SubTurn k time' sched')
    = v\<lparr>aw_peers := w, aw_subs := hm_remove k (hm_insert k sb' (aw_subs v))\<rparr>"
proof -
  have "subscription_recv E L A time sched sb (aw_peers v)
      = (w, Some (sb\<lparr>sb_dedup := d, sb_pending := Some (message_response_of E (sb_channel sb) time m)\<rparr>))"
    unfolding subscription_recv_def assms(4) by simp
  then show ?thesis using assms(1-3) by (auto simp: subscription_step_def session_send_def)
qed

end
