(* ===== verification/AgentProps.thy ===== *)
theory AgentProps
  imports AgentServer
begin

text \<open>
  What the daemon of \<open>crates/enlace-agent/src/lib.rs\<close> guarantees over whole runs: who may open a
  session, what a client is shown, how agents pair, and two ways in which an agent loses something:
  mail that a closed session's subscription takes, and peers that a restart forgets.
\<close>

section \<open>A delivered message\<close>

lemma subscribe_answer:
  assumes "ae_request E line = Some (ReqSubscribe i channel)" "valid_name channel"
  shows "handle_text E L rng sched A line sid w
    = (w, Some \<lparr> sb_session = sid, sb_channel = channel, sb_dedup = dedup_new L DEFAULT_CAPACITY, sb_pending = None \<rparr>, Ok (OkResponse i))"
  using assms by (simp add: handle_text_def invalid_name_def validate_channel_name_def spawn_subscription_def namespace_mailbox_def)

text \<open>A session that subscribes is written the next message its channel receives.\<close>

lemma subscription_delivers:
  assumes "hm_get (aw_sessions v) sid = Some s" "\<not> sn_unix s" "sn_queue s = []"
    and "ae_request E line = Some (ReqSubscribe i channel)" "valid_name channel"
    and "peer_recv_timeout E L (ags_namespace A) channel (from_secs (unat DEFAULT_LONG_POLL_SECS)) [(sched', \<lambda>w. w)] (aw_peers v)
      (dedup_new L DEFAULT_CAPACITY) = (w, d, Some (Ok m))"
    and v'_def: "v' = foldl (agent_step E L A) v
    [Input sid (Frame (WsText line)) rng sched True, SubTurn (aw_fresh v) time sched', SubTurn (aw_fresh v) time' sched', Deliver sid True]"
  shows "aw_peers v' = w"
    and "hm_get (aw_sessions v') sid = Some (s\<lparr>sn_sent := sn_sent s @ [OkResponse i, message_response_of E channel time m]\<rparr>)"
proof -
  let ?sb = "\<lparr> sb_session = sid, sb_channel = channel, sb_dedup = dedup_new L DEFAULT_CAPACITY, sb_pending = None \<rparr>"
  let ?s1 = "s\<lparr>sn_sent := sn_sent s @ [OkResponse i]\<rparr>" and ?m = "message_response_of E channel time m"
  define v1 where "v1 = agent_step E L A v (Input sid (Frame (WsText line)) rng sched True)"
  have v1: "aw_peers v1 = aw_peers v" "hm_get (aw_sessions v1) sid = Some ?s1" "hm_get (aw_subs v1) (aw_fresh v) = Some ?sb"
    using assms(1,2) answer_text_shape[OF subscribe_answer[OF assms(4,5), of L rng sched A sid "aw_peers v"], of s True]
    by (simp_all add: v1_def is_line_def add_subscription_def)
  have recv: "subscription_recv E L A time sched' ?sb (aw_peers v) = (w, Some (?sb\<lparr>sb_dedup := d, sb_pending := Some ?m\<rparr>))"
    using assms(6) by (simp add: subscription_recv_def del: peer_recv_timeout.simps)
  define v2 where "v2 = agent_step E L A v1 (SubTurn (aw_fresh v) time sched')"
  have v2: "aw_peers v2 = w" "hm_get (aw_sessions v2) sid = Some ?s1"
    "hm_get (aw_subs v2) (aw_fresh v) = Some (?sb\<lparr>sb_dedup := d, sb_pending := Some ?m\<rparr>)"
    using v1 recv by (simp_all add: v2_def subscription_step_def)
  define v3 where "v3 = agent_step E L A v2 (SubTurn (aw_fresh v) time' sched')"
  have v3: "aw_peers v3 = w" "hm_get (aw_sessions v3) sid = Some (?s1\<lparr>sn_queue := [?m]\<rparr>)"
    using v2 assms(3) by (simp_all add: v3_def subscription_step_def session_send_def SESSION_BUFFER_def)
  have v': "v' = agent_step E L A v3 (Deliver sid True)" by (simp add: v'_def v3_def v2_def v1_def)
  show "aw_peers v' = w" using v3 by (simp add: v')
  have "sn_queue s = [] \<Longrightarrow> ?s1\<lparr>sn_queue := [], sn_sent := sn_sent ?s1 @ [?m]\<rparr> = s\<lparr>sn_sent := sn_sent s @ [OkResponse i, ?m]\<rparr>"
    by (cases s) simp
  then show "hm_get (aw_sessions v') sid = Some (s\<lparr>sn_sent := sn_sent s @ [OkResponse i, ?m]\<rparr>)"
    using v3 assms(3) by (simp add: v' deliver_def)
qed

section \<open>An agent\<close>

text \<open>An environment without files that parses the given requests, used to exhibit instances.\<close>

definition agent_env_with :: "(string \<times> agent_request) list \<Rightarrow> agent_env" where
  "agent_env_with requests =
    envelope_env.extend (plain_envelope_env\<lparr>b64_encode := hex_encode, b64_decode := hex_decode\<rparr>)
      \<lparr> ae_exists = (\<lambda>_. False), ae_read = (\<lambda>_. None), ae_toml = (\<lambda>_. None), ae_request = map_of requests,
        ae_b64_encode = hex_encode, ae_b64_decode = hex_decode, ae_relay_url = Some \<rparr>"

lemma agent_env_with_sel [simp]:
  "hkdf_expand (agent_env_with rs) = hkdf_expand plain_suite" "sha256 (agent_env_with rs) = sha256 plain_suite"
  "aead_encrypt (agent_env_with rs) = aead_encrypt plain_suite" "aead_decrypt (agent_env_with rs) = aead_decrypt plain_suite"
  "ed_public (agent_env_with rs) = ed_public plain_suite" "ed_valid (agent_env_with rs) = ed_valid plain_suite"
  "ed_sign (agent_env_with rs) = ed_sign plain_suite" "ed_verify (agent_env_with rs) = ed_verify plain_suite"
  "x_public (agent_env_with rs) = x_public plain_suite" "x_dh (agent_env_with rs) = x_dh plain_suite"
  "b64_encode (agent_env_with rs) = hex_encode" "b64_decode (agent_env_with rs) = hex_decode"
  "peer_ser (agent_env_with rs) = peer_ser plain_envelope_env" "peer_de (agent_env_with rs) = peer_de plain_envelope_env"
  "group_ser (agent_env_with rs) = group_ser plain_envelope_env" "group_de (agent_env_with rs) = group_de plain_envelope_env"
  "slot_ser (agent_env_with rs) = slot_ser plain_envelope_env" "slot_de (agent_env_with rs) = slot_de plain_envelope_env"
  "ae_exists (agent_env_with rs) = (\<lambda>_. False)" "ae_read (agent_env_with rs) = (\<lambda>_. None)"
  "ae_request (agent_env_with rs) = map_of rs" "ae_b64_encode (agent_env_with rs) = hex_encode"
  "ae_b64_decode (agent_env_with rs) = hex_decode"
  by (simp_all add: agent_env_with_def envelope_env.defs plain_envelope_env_def plain_env_def peer_env.defs suite.defs plain_suite_def)

lemma agent_env_with_ok [simp]:
  "hkdf_ok (agent_env_with rs)" "aead_ok (agent_env_with rs)" "ed_ok (agent_env_with rs)" "dh_ok (agent_env_with rs)"
  "envelope_codec_ok (agent_env_with rs)" "b64_ok (agent_env_with rs)"
  using plain_envelope_env_ok(1-5)
  by (simp_all add: hkdf_ok_def aead_ok_def ed_ok_def dh_ok_def envelope_codec_ok_def b64_ok_def)

lemma agent_env_with_cards [simp]:
  "identity_peer_id (agent_env_with rs) i = identity_peer_id plain_envelope_env i"
  "identity_card (agent_env_with rs) i = identity_card plain_envelope_env i"
  "card_validate (agent_env_with rs) c = card_validate plain_envelope_env c"
  by (simp_all add: identity_peer_id_def identity_card_def card_new_def peer_id_from_signing_key_def card_validate_def card_is_consistent_def)

definition sample_cli :: cli where
  "sample_cli =
    \<lparr> cli_config = None, cli_seed = Some (hex_encode (replicate 32 1)), cli_token = Some ''t'',
      cli_listen_ws = Some \<lparr> sa_ip = V4 (Ipv4 127 0 0 1), sa_port = 9000 \<rparr>, cli_listen_unix = None, cli_peer = [],
      cli_transport = [], cli_relay = None, cli_pkarr_network = None, cli_pkarr_relay = [], cli_pkarr_bootstrap = [],
      cli_data_dir = None, cli_log = None \<rparr>"

definition sample_features :: features where
  "sample_features = \<lparr> ft_http = True, ft_pkarr = False, ft_iroh = False, ft_pkarr_dht = False, ft_unix_socket = True \<rparr>"

definition sample_config :: agent_config where
  "sample_config =
    \<lparr> ag_seed = replicate 32 1, ag_token = Some ''t'', ag_listen_ws = cli_listen_ws sample_cli, ag_listen_unix = None, ag_peers = [],
      ag_transports = [''http''], ag_relay = None, ag_pkarr_network = RelaysArg, ag_pkarr_relays = [], ag_pkarr_bootstrap = [],
      ag_data_dir = None, ag_log = ''info'' \<rparr>"

lemma hex_printable: "list_all printable (hex_encode bs)"
proof -
  have "list_all printable ''0123456789abcdef''" by code_simp
  then have "printable c" if "is_lower_hex c" for c using that unfolding is_lower_hex_def list_all_iff by blast
  then show ?thesis using hex_encode_lower[of bs] unfolding list_all_iff by blast
qed

lemma agent_env_with_printable [simp]: "b64_printable (agent_env_with rs)"
  by (simp add: b64_printable_def hex_printable)

lemma parse_hex_seed_hex: "length s = 32 \<Longrightarrow> \<not> list_all (\<lambda>b. b = 0) s \<Longrightarrow> parse_hex_seed (hex_encode s) = Ok s"
  by (simp add: parse_hex_seed_def hex_encode_lower)

lemma sample_features [simp]:
  "enabled_transports sample_features [] = [''http'']" "ft_unix_socket sample_features"
  by (simp_all add: enabled_transports_def sample_features_def)

lemma sample_cli_load: "cli_load (agent_env_with rs) sample_features sample_cli = Ok sample_config"
  by (simp add: cli_load_def sample_cli_def sample_config_def load_config_seed_def load_config_token_def load_config_peers_def
      load_seed_def load_secret_def trim_id[OF hex_printable] parse_hex_seed_hex file_config_default_def or_else_def nonempty_or_def
      check_listen_token_def list_all_iff)

definition sample_agent :: "('w, 'st) peer_namespace \<Rightarrow> ('w, 'st) agent_state" where
  "sample_agent ns = \<lparr> ags_config = sample_config, ags_namespace = ns \<rparr>"

lemma sample_agent_sel [simp]: "ags_config (sample_agent ns) = sample_config" "ags_namespace (sample_agent ns) = ns"
  by (simp_all add: sample_agent_def)

definition fresh_world :: "('w, 'st) peer_world \<Rightarrow> ('w, 'st, 'c) agent_world" where
  "fresh_world w = \<lparr> aw_peers = w, aw_sessions = [], aw_subs = [], aw_fresh = 0 \<rparr>"

definition connect :: "'w agent_event" where
  "connect = ConnectWs [(''authorization'', str_bytes ''Bearer t'')] ''/'' True"

lemma sample_router: "ws_router S (sample_agent ns) [(''authorization'', str_bytes ''Bearer t'')] ''/'' True = Ok Upgraded"
proof -
  have "list_all (\<lambda>b. in_range 32 126 b \<or> b = 9) (str_bytes ''Bearer t'')" by code_simp
  then show ?thesis
    by (simp add: ws_router_def authorize_def bearer_token_def sample_config_def header_to_str_def strip_prefix_def)
qed

lemma sample_connect:
  "agent_step E L (sample_agent ns) (fresh_world w) connect
    = \<lparr> aw_peers = w, aw_sessions = [(0, \<lparr> sn_unix = False, sn_queue = [], sn_sent = [] \<rparr>)], aw_subs = [], aw_fresh = 1 \<rparr>"
  using sample_router[of E ns]
  by (simp add: connect_def open_session_def fresh_world_def sample_config_def sample_cli_def)

lemma agent_bob_receives:
  "\<exists>bs d m. peer_recv_timeout (agent_env_with rs) list_lru (bob_namespace bs) ''a'' wait [(\<lambda>ts. ts, \<lambda>w. w)] (bob_world [alice])
      (dedup_new list_lru DEFAULT_CAPACITY) = (bob_world [alice], d, Some (Ok m)) \<and> pmm_payload m = [9]"
proof -
  let ?E = "agent_env_with rs"
  have "\<exists>bs. bind_res (peer_seal ?E fixed_rng alice Mailbox ''a'' [9] [identity_card ?E bob]) (peer_to_bytes ?E) = Ok bs
      \<and> peer_open_bytes ?E bs bob Mailbox ''a'' (trusted_snapshot (bob_world [alice]))
      = Ok \<lparr> pem_sender = identity_peer_id ?E alice, pem_signed_by = ed_public ?E (id_signing alice), pem_payload = [9] \<rparr>"
    by (rule sealed_note_opens[where t = "trusted_new (identity_card ?E alice)"])
      (auto simp: alice_bob_setup bob_world_def trusted_snapshot_def)
  then obtain bs where bs: "peer_open_bytes ?E bs bob Mailbox ''a'' (trusted_snapshot (bob_world [alice]))
      = Ok \<lparr> pem_sender = identity_peer_id ?E alice, pem_signed_by = ed_public ?E (id_signing alice), pem_payload = [9] \<rparr>" by blast
  obtain cid where cid: "peer_transport_id ?E Http (PairwiseAddr (namespace_peer_id ?E (bob_namespace bs))) Mailbox ''a'' = (Ok cid :: (recv_error, _) res)"
    by (simp add: peer_transport_id_def peer_address_id_def hkdf_sha256_def)
  obtain d where d: "observe ?E list_lru (dedup_new list_lru DEFAULT_CAPACITY) bs = (d, False)"
    using first_observed[OF list_lru_ok] by blast
  show ?thesis
    using peer_recv_one[of "bob_namespace bs" _ "bob_world [alice]" "\<lambda>ts. ts" ?E "''a''" cid wait _ bs list_lru "dedup_new list_lru DEFAULT_CAPACITY" d _ "[]"]
      cid d bs by (intro exI[of _ bs]) (simp add: bob_namespace_def bob_world_def peer_fair_def del: peer_recv_timeout.simps)
qed

section \<open>Properties\<close>

text \<open>
  C7: A WebSocket client needs the token. With a configuration the command line accepts, and whatever
  happens to the agent, a WebSocket session exists only if the agent has a token and some connection
  request carried exactly that token as its bearer token.
\<close>

theorem agent_sessions_carry_the_token:
  assumes "cli_load E F c = Ok (ags_config A)" "aw_sessions v = []"
    and "hm_get (aw_sessions (foldl (agent_step E L A) v es)) sid = Some s" "\<not> sn_unix s"
  shows "\<exists>token headers path handshake. ag_token (ags_config A) = Some token \<and> ConnectWs headers path handshake \<in> set es
    \<and> hm_get headers ''authorization'' = Some (str_bytes (''Bearer '' @ token))"
  using ws_session_run[OF assms(1,3,4,2)] unfolding presents_def by blast

theorem agent_sessions_carry_the_token_witness:
  "\<exists>s. hm_get (aw_sessions (foldl (agent_step (agent_env_with []) list_lru (sample_agent bare_namespace)) (fresh_world (bob_world [])) [connect])) 0 = Some s
    \<and> \<not> sn_unix s \<and> ag_token sample_config = Some ''t''
    \<and> (\<exists>token. ag_token (ags_config (sample_agent bare_namespace)) = Some token)"
proof -
  let ?E = "agent_env_with []" and ?A = "sample_agent bare_namespace"
  have load: "cli_load ?E sample_features sample_cli = Ok (ags_config ?A)" by (simp add: sample_cli_load)
  have s: "hm_get (aw_sessions (foldl (agent_step ?E list_lru ?A) (fresh_world (bob_world [])) [connect])) 0
      = Some \<lparr> sn_unix = False, sn_queue = [], sn_sent = [] \<rparr>" by (simp add: sample_connect)
  have "aw_sessions (fresh_world (bob_world [])) = []" by (simp add: fresh_world_def)
  from agent_sessions_carry_the_token[OF load this s] s show ?thesis by (auto simp: sample_config_def)
qed



text \<open>
  C6: A client is shown authentic mail only. Whatever happens to an agent that started without sessions,
  every message written to a client was received by a turn of a subscription on the channel the
  message names, and at that moment the namespace trusted its sender and some envelope for that
  channel verified under the sender's signing key; the client sees that sender and that payload.
\<close>

theorem agent_messages_are_authentic:
  assumes "world_wf E (aw_peers v)" "aw_sessions v = []" "aw_subs v = []"
    and "hm_get (aw_sessions (foldl (agent_step E L A) v es)) sid = Some s" "MessageResponse r \<in> set (sn_sent s)"
  shows "\<exists>es1 k time sched es2 m bs. es = es1 @ SubTurn k time sched # es2
    \<and> mr_from r = hex_encode (pmm_sender m) \<and> mr_payload r = encode_payload E (pmm_payload m) \<and> mr_received_at r = time
    \<and> authentic E (ags_namespace A) (aw_peers (foldl (agent_step E L A) v (es1 @ [SubTurn k time sched]))) (mr_channel r) m bs"
proof -
  have "justified E L A v es r" using traced_run[OF assms(1-3), of L A es] assms(4,5) unfolding traced_def Let_def by blast
  then obtain es1 k time sched es2 m bs where j: "es = es1 @ SubTurn k time sched # es2"
    "MessageResponse r = message_response_of E (mr_channel r) time m"
    "authentic E (ags_namespace A) (aw_peers (foldl (agent_step E L A) v (es1 @ [SubTurn k time sched]))) (mr_channel r) m bs"
    unfolding justified_def by blast
  from j(2) have "r = \<lparr> mr_from = hex_encode (pmm_sender m), mr_channel = mr_channel r, mr_payload = encode_payload E (pmm_payload m), mr_received_at = time \<rparr>"
    by (simp add: message_response_of_def)
  then have "mr_from r = hex_encode (pmm_sender m)" "mr_payload r = encode_payload E (pmm_payload m)" "mr_received_at r = time"
    by (metis message_response.select_convs)+
  with j(1,3) show ?thesis by blast
qed

theorem agent_messages_are_authentic_witness:
  "\<exists>bs es s r m bs'. hm_get (aw_sessions (foldl (agent_step (agent_env_with [(''s'', ReqSubscribe ''1'' ''a'')]) list_lru (sample_agent (bob_namespace bs)))
        (fresh_world (bob_world [alice])) es)) 0 = Some s \<and> MessageResponse r \<in> set (sn_sent s) \<and> mr_payload r = hex_encode [9]
    \<and> mr_from r = hex_encode (pmm_sender m)
    \<and> (\<exists>w. authentic (agent_env_with [(''s'', ReqSubscribe ''1'' ''a'')]) (bob_namespace bs) w (mr_channel r) m bs')"
proof -
  let ?E = "agent_env_with [(''s'', ReqSubscribe ''1'' ''a'')]"
  obtain bs d m where recv: "peer_recv_timeout ?E list_lru (bob_namespace bs) ''a'' (from_secs (unat DEFAULT_LONG_POLL_SECS)) [(\<lambda>ts. ts, \<lambda>w. w)]
      (bob_world [alice]) (dedup_new list_lru DEFAULT_CAPACITY) = (bob_world [alice], d, Some (Ok m))" "pmm_payload m = [9]"
    using agent_bob_receives by blast
  let ?A = "sample_agent (bob_namespace bs)" and ?w = "bob_world [alice]"
  let ?v = "agent_step ?E list_lru ?A (fresh_world ?w) connect"
  let ?es = "[Input 0 (Frame (WsText ''s'')) fixed_rng (\<lambda>ts. ts) True, SubTurn (aw_fresh ?v) 5 (\<lambda>ts. ts), SubTurn (aw_fresh ?v) 6 (\<lambda>ts. ts), Deliver 0 True]"
  let ?r = "\<lparr> mr_from = hex_encode (pmm_sender m), mr_channel = ''a'', mr_payload = hex_encode [9], mr_received_at = 5 \<rparr>"
  let ?s = "\<lparr> sn_unix = False, sn_queue = [], sn_sent = [] \<rparr>"
  have "hm_get (aw_sessions (foldl (agent_step ?E list_lru ?A) ?v ?es)) 0
      = Some (?s\<lparr>sn_sent := sn_sent ?s @ [OkResponse ''1'', message_response_of ?E ''a'' 5 m]\<rparr>)"
    by (rule subscription_delivers(2)[where i = "''1''" and channel = "''a''", OF _ _ _ _ _ _ refl])
      (use recv in \<open>simp_all add: sample_connect alice_bob_setup del: peer_recv_timeout.simps\<close>)
  then have s: "hm_get (aw_sessions (foldl (agent_step ?E list_lru ?A) (fresh_world ?w) (connect # ?es))) 0
      = Some (?s\<lparr>sn_sent := [OkResponse ''1'', MessageResponse ?r]\<rparr>)"
    using recv(2) by (simp add: message_response_of_def encode_payload_def)
  have wf: "world_wf ?E (aw_peers (fresh_world ?w))" using bob_world_wf[of "[alice]"] by (simp add: fresh_world_def world_wf_def)
  from agent_messages_are_authentic[OF wf _ _ s, of ?r] obtain es1 k time sched es2 m' bs' where
    "mr_from ?r = hex_encode (pmm_sender m')"
    "authentic ?E (ags_namespace ?A) (aw_peers (foldl (agent_step ?E list_lru ?A) (fresh_world ?w) (es1 @ [SubTurn k time sched]))) (mr_channel ?r) m' bs'"
    by (auto simp: fresh_world_def)
  with s show ?thesis
    by (intro exI[of _ bs] exI[of _ "connect # ?es"] exI[of _ "?s\<lparr>sn_sent := [OkResponse ''1'', MessageResponse ?r]\<rparr>"] exI[of _ ?r] exI[of _ m'] exI[of _ bs'])
      auto
qed

text \<open>
  C9: Pairing two agents. The card one agent exports, pasted into a request to add a peer at another,
  is accepted there with the same id and the same text in the answer, and from then on the second
  agent finds the first one's card under its id, ready to be sent to.
\<close>

theorem agent_pairing:
  assumes "b64_ok E" "b64_printable E" "world_wf E wB"
    and "card_wf E (exported_card E A wA)" "card_validate E (exported_card E A wA) = Ok ()" "length (card_enc (exported_card E A wA)) < 2 ^ 64"
    and "ss_store_trusted_peer (pn_state (ags_namespace B)) (pw_store wB) \<lparr> tp_card = exported_card E A wA \<rparr> = (st, Ok ())"
    and "ae_request E request = Some (ReqExportCard i)"
  shows "\<exists>s. handle_text E L rng sched A request sid wA = (wA, None, Ok (PeerCardResponse i (hex_encode (namespace_peer_id E (ags_namespace A))) s))
    \<and> (\<forall>request'. ae_request E request' = Some (ReqAddPeer j s) \<longrightarrow>
        (\<exists>wB'. handle_text E L rng' sched' B request' sid' wB
            = (wB', None, Ok (PeerCardResponse j (hex_encode (namespace_peer_id E (ags_namespace A))) s))
          \<and> find_peer (hex_encode (namespace_peer_id E (ags_namespace A))) wB' = Some (exported_card E A wA)))"
proof -
  let ?c = "exported_card E A wA"
  from exported_string[OF assms(1,2,4-6)] obtain s where
    s: "export_string E ?c = (Ok s :: (unit, string) res)" "trim s = s" "import_string E s = Ok ?c" by blast
  have p: "card_peer_id ?c = namespace_peer_id E (ags_namespace A)"
    by (simp add: exported_card_def namespace_card_def namespace_peer_id_def identity_card_def card_new_def identity_peer_id_def split: option.split)
  from handle_add_peer_stored[where s = s and c = ?c and i = j, OF _ s(1) assms(5,7)] s(2,3) obtain n where
    add: "handle_add_peer E B j s wB = (wB\<lparr>pw_store := st, pw_trusted := hm_insert (card_peer_id ?c) \<lparr> tp_card = ?c \<rparr> (pw_trusted wB), pw_net := n\<rparr>,
      Ok (PeerCardResponse j (hex_encode (card_peer_id ?c)) s))" (is "_ = (?wB, _)") by auto
  have "world_wf E ?wB" using handle_add_peer_wf[OF assms(3), of B j s] add by simp
  from find_peer_trusted[OF this, of "card_peer_id ?c" "\<lparr> tp_card = ?c \<rparr>"] assms(4)
  have "find_peer (hex_encode (card_peer_id ?c)) ?wB = Some ?c" by (simp add: card_wf_def)
  with add s(1) assms(8) show ?thesis by (intro exI[of _ s]) (auto simp: handle_text_def export_card_def p)
qed

lemma sample_export: "\<exists>s. \<forall>rs. export_string (agent_env_with rs) (identity_card plain_envelope_env alice) = (Ok s :: (unit, string) res)"
  by (simp add: export_string_def card_to_bytes_def identity_card_def card_new_def write_endpoint_def)

lemma alice_card_wf: "card_wf (agent_env_with rs) (identity_card plain_envelope_env alice)"
  "length (card_enc (identity_card plain_envelope_env alice)) < 18446744073709551616"
  by (simp_all add: card_wf_def card_enc_def endpoint_enc_def identity_card_def card_new_def alice_def identity_generate_def
      peer_id_from_signing_key_def) (simp_all add: plain_suite_def)

definition named :: "peer_identity \<Rightarrow> (unit, inner) peer_namespace" where
  "named i = \<lparr> pn_identity = i, pn_state = memory_store, pn_transports = [], pn_iroh = None \<rparr>"

lemma exported_named: "exported_card (agent_env_with rs) (sample_agent (named i)) w = identity_card plain_envelope_env i"
  by (simp add: exported_card_def iroh_endpoint_addr_of_def named_def namespace_card_def)

definition pairing_env :: "string \<Rightarrow> agent_env" where
  "pairing_env s = agent_env_with [(''x'', ReqExportCard ''1''), (''y'', ReqAddPeer ''2'' s)]"

theorem agent_pairing_witness:
  "\<exists>s w. handle_text (pairing_env s) list_lru fixed_rng rev (sample_agent (named alice)) ''x'' 0 (bob_world [])
      = (bob_world [], None, Ok (PeerCardResponse ''1'' (hex_encode (identity_peer_id plain_envelope_env alice)) s))
    \<and> handle_text (pairing_env s) list_lru fixed_rng rev (sample_agent (named bob)) ''y'' 0 (bob_world [])
      = (w, None, Ok (PeerCardResponse ''2'' (hex_encode (identity_peer_id plain_envelope_env alice)) s))
    \<and> find_peer (hex_encode (identity_peer_id plain_envelope_env alice)) w = Some (identity_card plain_envelope_env alice)"
proof -
  obtain s where s: "\<And>rs. export_string (agent_env_with rs) (identity_card plain_envelope_env alice) = (Ok s :: (unit, string) res)"
    using sample_export by blast
  let ?E = "pairing_env s" and ?c = "identity_card plain_envelope_env alice"
  have p: "namespace_peer_id ?E (named alice) = identity_peer_id plain_envelope_env alice" by (simp add: namespace_peer_id_def named_def pairing_env_def)
  have exported: "exported_card ?E (sample_agent (named alice)) w = ?c" for w by (simp add: pairing_env_def exported_named)
  have wf: "world_wf ?E (bob_world [])" by (simp add: world_wf_def bob_world_def hm_ok_def)
  have "\<exists>t. handle_text ?E list_lru fixed_rng rev (sample_agent (named alice)) ''x'' 0 (bob_world [])
        = (bob_world [], None, Ok (PeerCardResponse ''1'' (hex_encode (namespace_peer_id ?E (ags_namespace (sample_agent (named alice))))) t))
    \<and> (\<forall>request'. ae_request ?E request' = Some (ReqAddPeer ''2'' t) \<longrightarrow>
        (\<exists>wB'. handle_text ?E list_lru fixed_rng rev (sample_agent (named bob)) request' 0 (bob_world [])
            = (wB', None, Ok (PeerCardResponse ''2'' (hex_encode (namespace_peer_id ?E (ags_namespace (sample_agent (named alice))))) t))
          \<and> find_peer (hex_encode (namespace_peer_id ?E (ags_namespace (sample_agent (named alice))))) wB'
            = Some (exported_card ?E (sample_agent (named alice)) (bob_world []))))"
    by (rule agent_pairing[OF _ _ wf, where st = "inner_store_trusted_peer inner_default \<lparr> tp_card = ?c \<rparr>"])
      (simp_all add: pairing_env_def exported_named alice_card_wf, simp_all add: named_def memory_store_def bob_world_def)
  then obtain t where t: "handle_text ?E list_lru fixed_rng rev (sample_agent (named alice)) ''x'' 0 (bob_world [])
        = (bob_world [], None, Ok (PeerCardResponse ''1'' (hex_encode (identity_peer_id plain_envelope_env alice)) t))"
    "ae_request ?E ''y'' = Some (ReqAddPeer ''2'' t) \<longrightarrow>
        (\<exists>wB'. handle_text ?E list_lru fixed_rng rev (sample_agent (named bob)) ''y'' 0 (bob_world [])
            = (wB', None, Ok (PeerCardResponse ''2'' (hex_encode (identity_peer_id plain_envelope_env alice)) t))
          \<and> find_peer (hex_encode (identity_peer_id plain_envelope_env alice)) wB'
            = Some ?c)" unfolding sample_agent_sel p exported by blast
  have "t = s" using t(1) s by (simp add: handle_text_def pairing_env_def export_card_def exported_named)
  with t show ?thesis by (auto simp: pairing_env_def)
qed



text \<open>
  C39: A restart forgets added peers. A peer added by request is trusted at once and handed to the state
  store; an agent opened again on that very store, with the same configuration, does not trust it
  unless the configuration lists its card.
\<close>

theorem restart_forgets_added_peers:
  assumes "ae_request E request = Some (ReqAddPeer i s)"
    and "handle_text E L rng sched A request sid w = (w', sub, Ok (PeerCardResponse i (hex_encode p) x))"
    and "p \<notin> card_peer_id ` set (ag_peers config)"
    and "agent_state_open E F B store config n (pw_store w') = (Some w2, Ok A2)"
  shows "hm_get (pw_trusted w') p \<noteq> None \<and> hm_get (pw_trusted w2) p = None"
proof
  obtain w1 r where add: "agent_add_peer E A s w = (w1, r)" by fastforce
  have h: "handle_add_peer E A i s w = (w', Ok (PeerCardResponse i (hex_encode p) x))"
    using assms(1,2) by (auto simp: handle_text_def Let_def split: prod.splits)
  then obtain c where c: "r = Ok c" "w1 = w'" "p = card_peer_id c"
    using add by (cases r) (auto simp: handle_add_peer_def error_response_def res_simps)
  have "hm_get (pw_trusted w') (card_peer_id c) \<noteq> None"
    using add c by (auto simp: agent_add_peer_def trust_peer_def try_from_card_def trusted_peer_id_def res_simps Let_def
        split: res.splits prod.splits)
  then show "hm_get (pw_trusted w') p \<noteq> None" using c by simp
  show "hm_get (pw_trusted w2) p = None" using agent_open_trusted[OF assms(4), of p] assms(3) by simp
qed

lemma sample_open:
  "\<exists>w A. agent_state_open E sample_features no_builders memory_store sample_config () st = (Some w, Ok A)"
  by (simp add: agent_state_open_def open_namespace_def configure_transports_def sample_config_def sample_features_def peer_config_default_def
      peer_namespace_open_def open_transports_def open_builtin_def open_peer_iroh_transport_def Let_def)

theorem restart_forgets_added_peers_witness:
  "\<exists>s w w2 A2. handle_text (pairing_env s) list_lru fixed_rng rev (sample_agent (named bob)) ''y'' 0 (bob_world [])
      = (w, None, Ok (PeerCardResponse ''2'' (hex_encode (identity_peer_id plain_envelope_env alice)) s))
    \<and> ss_trusted_peers memory_store (pw_store w) = Ok [trusted_new (identity_card plain_envelope_env alice)]
    \<and> agent_state_open (pairing_env s) sample_features no_builders memory_store sample_config () (pw_store w) = (Some w2, Ok A2)
    \<and> hm_get (pw_trusted w) (identity_peer_id plain_envelope_env alice) \<noteq> None
    \<and> hm_get (pw_trusted w2) (identity_peer_id plain_envelope_env alice) = None"
proof -
  let ?c = "identity_card plain_envelope_env alice" and ?p = "identity_peer_id plain_envelope_env alice"
  have "b64_ok (agent_env_with rs)" "b64_printable (agent_env_with rs)" for rs by simp_all
  from exported_string[OF this alice_card_wf(1)] alice_card_wf(2)
  have "\<exists>s. export_string (agent_env_with rs) ?c = (Ok s :: (unit, string) res) \<and> trim s = s \<and> import_string (agent_env_with rs) s = Ok ?c" for rs
    by simp
  moreover obtain s where s: "\<And>rs. export_string (agent_env_with rs) ?c = (Ok s :: (unit, string) res)" using sample_export by blast
  ultimately have s': "trim s = s" "import_string (agent_env_with rs) s = Ok ?c" for rs by (metis res.inject(1))+
  let ?E = "pairing_env s" and ?B = "sample_agent (named bob)"
  have store: "ss_store_trusted_peer (pn_state (ags_namespace ?B)) (pw_store (bob_world [])) \<lparr> tp_card = ?c \<rparr>
      = (inner_store_trusted_peer inner_default \<lparr> tp_card = ?c \<rparr>, Ok ())"
    by (simp add: named_def memory_store_def bob_world_def)
  from handle_add_peer_stored[where E = ?E and A = ?B and s = s and c = ?c and i = "''2''" and x = s and w = "bob_world []", OF _ _ _ store] s s'
  obtain w where w: "handle_add_peer ?E ?B ''2'' s (bob_world []) = (w, Ok (PeerCardResponse ''2'' (hex_encode ?p) s))"
    "pw_store w = inner_store_trusted_peer inner_default \<lparr> tp_card = ?c \<rparr>" by (auto simp: pairing_env_def)
  have y: "ae_request ?E ''y'' = Some (ReqAddPeer ''2'' s)" by (simp add: pairing_env_def)
  have h: "handle_text ?E list_lru fixed_rng rev ?B ''y'' 0 (bob_world []) = (w, None, Ok (PeerCardResponse ''2'' (hex_encode ?p) s))"
    using w(1) by (simp add: handle_text_def y)
  obtain w2 A2 where o: "agent_state_open ?E sample_features no_builders memory_store sample_config () (pw_store w) = (Some w2, Ok A2)"
    using sample_open by blast
  have "hm_get (pw_trusted w) ?p \<noteq> None \<and> hm_get (pw_trusted w2) ?p = None"
    by (rule restart_forgets_added_peers[OF y h _ o]) (simp add: sample_config_def)
  with h o w(2) show ?thesis
    by (intro exI[of _ s] exI[of _ w] exI[of _ w2] exI[of _ A2])
      (auto simp: memory_store_def inner_trusted_peers_def inner_store_trusted_peer_def inner_default_def trusted_new_def)
qed

end
