(* ===== verification/PeerWatch.thy ===== *)
theory PeerWatch
  imports PeerNamespace WatchMachine
begin

text \<open>
  \<open>PeerSlot::watch_address\<close> and \<open>PeerSlotWatch\<close> of \<open>crates/enlace/src/peer.rs\<close>: one task per
  transport reads that transport's stream; the tasks share the best value so far, the dedup buffer,
  the namespace and the channel to the consumer. A step is what one task does between two points
  where it can be suspended; trust, keys and the network may change between any two steps.
\<close>

section \<open>Tasks and shared state\<close>

datatype peer_watch_pc =
    PwWaiting
  | PwHolding bytes
  | PwOpened bytes peer_slot_value
  | PwChosen peer_slot_value
  | PwDelivering peer_slot_value
  | PwStopped

record peer_watch_task =
  pwt_kind :: transport_kind
  pwt_stream :: "(transport_error, u64 \<times> bytes) res list"
  pwt_pc :: peer_watch_pc

text \<open>
  \<open>pws_queue\<close> is all that was sent on the channel, in order; its capacity only delays a task. \<open>pws_accepted\<close>
  is a log, not part of the code: the values that replaced the best one, in order.
\<close>

record ('w, 'st, 'c) peer_watch_state =
  pws_tasks :: "peer_watch_task list"
  pws_best :: "(u64 \<times> bytes) option"
  pws_dedup :: "'c dedup"
  pws_world :: "('w, 'st) peer_world"
  pws_queue :: "peer_slot_value list"
  pws_receiver :: bool
  pws_accepted :: "((u64 \<times> bytes) \<times> peer_slot_value) list"

text \<open>What a transport's stream yields, from the version on it is asked for, is an argument.\<close>

definition watch_address ::
  "'z suite_scheme \<Rightarrow> 'c lru \<Rightarrow> ('w, 'st) peer_namespace \<Rightarrow> string \<Rightarrow> peer_address \<Rightarrow> peer_slot_scope_key \<Rightarrow>
    ('w configured_transport \<Rightarrow> bytes \<Rightarrow> u64 \<Rightarrow> (transport_error, u64 \<times> bytes) res list) \<Rightarrow> ('w, 'st) peer_world \<Rightarrow>
    (peer_slot_error, ('w, 'st, 'c) peer_watch_state) res" where
  "watch_address S L ns name address state_key watch w =
    bind_res (map_err PeerSlotState (ss_last_seen_slot_version (pn_state ns) (pw_store w) (peer_slot_state_key name state_key))) (\<lambda>seen.
    let since = (case seen of None \<Rightarrow> 0 | Some v \<Rightarrow> v) in
    map_ok (\<lambda>tasks.
      \<lparr> pws_tasks = map (\<lambda>((endpoint, cid), _).
          \<lparr> pwt_kind = ct_kind endpoint, pwt_stream = watch endpoint cid since, pwt_pc = PwWaiting \<rparr>) tasks,
        pws_best = None, pws_dedup = dedup_new L DEFAULT_CAPACITY, pws_world = w, pws_queue = [], pws_receiver = True,
        pws_accepted = [] \<rparr>)
      (peer_tasks S ns [address] Slot name))"

definition watch_pairwise ::
  "'z suite_scheme \<Rightarrow> 'c lru \<Rightarrow> ('w, 'st) peer_namespace \<Rightarrow> string \<Rightarrow>
    ('w configured_transport \<Rightarrow> bytes \<Rightarrow> u64 \<Rightarrow> (transport_error, u64 \<times> bytes) res list) \<Rightarrow> ('w, 'st) peer_world \<Rightarrow>
    (peer_slot_error, ('w, 'st, 'c) peer_watch_state) res" where
  "watch_pairwise S L ns name watch w = watch_address S L ns name (PairwiseAddr (namespace_peer_id S ns)) PairwiseKey watch w"

definition watch_publisher ::
  "'z suite_scheme \<Rightarrow> 'c lru \<Rightarrow> ('w, 'st) peer_namespace \<Rightarrow> string \<Rightarrow> bytes \<Rightarrow>
    ('w configured_transport \<Rightarrow> bytes \<Rightarrow> u64 \<Rightarrow> (transport_error, u64 \<times> bytes) res list) \<Rightarrow> ('w, 'st) peer_world \<Rightarrow>
    (peer_slot_error, ('w, 'st, 'c) peer_watch_state) res" where
  "watch_publisher S L ns name publisher watch w = watch_address S L ns name (PublisherAddr publisher) (PublisherKey publisher) watch w"

definition watch_group ::
  "'z suite_scheme \<Rightarrow> 'c lru \<Rightarrow> ('w, 'st) peer_namespace \<Rightarrow> string \<Rightarrow> bytes \<Rightarrow>
    ('w configured_transport \<Rightarrow> bytes \<Rightarrow> u64 \<Rightarrow> (transport_error, u64 \<times> bytes) res list) \<Rightarrow> ('w, 'st) peer_world \<Rightarrow>
    (peer_slot_error, ('w, 'st, 'c) peer_watch_state) res" where
  "watch_group S L ns name grp watch w = watch_address S L ns name (GroupAddr grp) (GroupKeyScope grp) watch w"

text \<open>One step of one task, on the shared state and the task.\<close>

fun peer_task_step ::
  "'z envelope_env_scheme \<Rightarrow> 'c lru \<Rightarrow> ('w, 'st) peer_namespace \<Rightarrow> string \<Rightarrow> peer_address \<Rightarrow> peer_slot_scope \<Rightarrow>
    peer_slot_scope_key \<Rightarrow> ('w, 'st, 'c) peer_watch_state \<Rightarrow> peer_watch_task \<Rightarrow> peer_watch_pc \<Rightarrow>
    ('w, 'st, 'c) peer_watch_state \<times> peer_watch_task" where
  "peer_task_step E L ns name address scope state_key st t PwWaiting =
    (case pwt_stream t of
       [] \<Rightarrow> (st, t\<lparr>pwt_pc := PwStopped\<rparr>)
     | Ok (_, bs) # rest \<Rightarrow> (st, t\<lparr>pwt_stream := rest, pwt_pc := PwHolding bs\<rparr>)
     | _ # rest \<Rightarrow> (st, t\<lparr>pwt_stream := rest\<rparr>))"
| "peer_task_step E L ns name address scope state_key st t (PwHolding bs) =
    (case observe E L (pws_dedup st) bs of
       (d, duplicate) \<Rightarrow>
         (let st = st\<lparr>pws_dedup := d\<rparr> in
          if duplicate then (st, t\<lparr>pwt_pc := PwWaiting\<rparr>)
          else case open_slot_value E ns name (pwt_kind t) scope (pws_world st) bs address of
                 Ok (Some val) \<Rightarrow> (st, t\<lparr>pwt_pc := PwOpened bs val\<rparr>)
               | Panic \<Rightarrow> (st, t\<lparr>pwt_pc := PwStopped\<rparr>)
               | _ \<Rightarrow> (st, t\<lparr>pwt_pc := PwWaiting\<rparr>)))"
| "peer_task_step E L ns name address scope state_key st t (PwOpened bs val) =
    (if (case pws_best st of
           None \<Rightarrow> False
         | Some (best_version, best_bytes) \<Rightarrow> \<not> peer_slot_pair_is_newer (psv_version val) bs best_version best_bytes)
     then (st, t\<lparr>pwt_pc := PwWaiting\<rparr>)
     else (st\<lparr>pws_best := Some (psv_version val, bs), pws_accepted := pws_accepted st @ [((psv_version val, bs), val)]\<rparr>,
           t\<lparr>pwt_pc := PwChosen val\<rparr>))"
| "peer_task_step E L ns name address scope state_key st t (PwChosen val) =
    (case ss_record_seen_slot_version (pn_state ns) (pw_store (pws_world st)) (peer_slot_state_key name state_key) (psv_version val) of
       (store, _) \<Rightarrow> (st\<lparr>pws_world := (pws_world st)\<lparr>pw_store := store\<rparr>\<rparr>, t\<lparr>pwt_pc := PwDelivering val\<rparr>))"
| "peer_task_step E L ns name address scope state_key st t (PwDelivering val) =
    (if pws_receiver st then (st\<lparr>pws_queue := pws_queue st @ [val]\<rparr>, t\<lparr>pwt_pc := PwWaiting\<rparr>)
     else (st, t\<lparr>pwt_pc := PwStopped\<rparr>))"
| "peer_task_step E L ns name address scope state_key st t PwStopped = (st, t)"

datatype 'w peer_watch_event = PwRun nat | PwDrop | PwOp namespace_op | PwNet "'w \<Rightarrow> 'w"

fun peer_watch_step ::
  "'z envelope_env_scheme \<Rightarrow> 'c lru \<Rightarrow> ('w, 'st) peer_namespace \<Rightarrow> string \<Rightarrow> peer_address \<Rightarrow> peer_slot_scope \<Rightarrow>
    peer_slot_scope_key \<Rightarrow> ('w, 'st, 'c) peer_watch_state \<Rightarrow> 'w peer_watch_event \<Rightarrow> ('w, 'st, 'c) peer_watch_state" where
  "peer_watch_step E L ns name address scope state_key st (PwRun i) =
    (if i < length (pws_tasks st)
     then (let t = pws_tasks st ! i; (st', t') = peer_task_step E L ns name address scope state_key st t (pwt_pc t)
           in st'\<lparr>pws_tasks := (pws_tasks st)[i := t']\<rparr>)
     else st)"
| "peer_watch_step E L ns name address scope state_key st PwDrop = st\<lparr>pws_receiver := False\<rparr>"
| "peer_watch_step E L ns name address scope state_key st (PwOp x) = st\<lparr>pws_world := namespace_step E ns (pws_world st) x\<rparr>"
| "peer_watch_step E L ns name address scope state_key st (PwNet f) = st\<lparr>pws_world := (pws_world st)\<lparr>pw_net := f (pw_net (pws_world st))\<rparr>\<rparr>"

section \<open>Accepted once\<close>

definition peer_pending :: "peer_watch_task \<Rightarrow> peer_slot_value list" where
  "peer_pending t = (case pwt_pc t of PwChosen val \<Rightarrow> [val] | PwDelivering val \<Rightarrow> [val] | _ \<Rightarrow> [])"

text \<open>A step either moves a value along, or accepts a new one that beats the best.\<close>

lemma peer_task_step_effect:
  assumes "peer_task_step E L ns name address scope state_key st t (pwt_pc t) = (st', t')"
  shows "(mset (pws_queue st') + mset (peer_pending t') \<subseteq># mset (pws_queue st) + mset (peer_pending t)
      \<and> pws_accepted st' = pws_accepted st \<and> pws_best st' = pws_best st)
    \<or> (\<exists>bs val. pwt_pc t = PwOpened bs val \<and> (\<forall>b. pws_best st = Some b \<longrightarrow> b < (psv_version val, bs))
      \<and> pwt_pc t' = PwChosen val \<and> pws_queue st' = pws_queue st
      \<and> pws_accepted st' = pws_accepted st @ [((psv_version val, bs), val)] \<and> pws_best st' = Some (psv_version val, bs))"
proof (cases "pwt_pc t")
  case (PwOpened bs val)
  show ?thesis
  proof (cases "case pws_best st of None \<Rightarrow> False | Some (bv, bb) \<Rightarrow> \<not> peer_slot_pair_is_newer (psv_version val) bs bv bb")
    case True
    then show ?thesis using assms PwOpened by (auto simp: peer_pending_def)
  next
    case False
    then have "\<forall>b. pws_best st = Some b \<longrightarrow> b < (psv_version val, bs)"
      by (auto simp: peer_slot_pair_is_newer_def simp del: less_prod_simp split: prod.splits)
    with False show ?thesis using assms PwOpened by auto
  qed
next
  case (PwHolding bs)
  then show ?thesis using assms
    by (auto simp: peer_pending_def Let_def simp del: open_slot_value.simps split: prod.splits res.splits option.splits if_splits)
qed (use assms in \<open>auto simp: peer_pending_def split: list.splits res.splits prod.splits if_splits\<close>)

interpretation peer_machine: watch_machine pws_queue "\<lambda>st. mset (concat (map peer_pending (pws_tasks st)))" pws_best pws_accepted
    "peer_watch_step E L ns name address scope state_key"
  for E :: "'z envelope_env_scheme" and L :: "'c lru" and ns :: "('w, 'st) peer_namespace" and name address scope state_key
proof
  fix st :: "('w, 'st, 'c) peer_watch_state" and ev
  let ?st = "peer_watch_step E L ns name address scope state_key st ev"
  show "(mset (pws_queue ?st) + mset (concat (map peer_pending (pws_tasks ?st))) \<subseteq># mset (pws_queue st) + mset (concat (map peer_pending (pws_tasks st)))
      \<and> pws_accepted ?st = pws_accepted st \<and> pws_best ?st = pws_best st)
    \<or> (\<exists>k v. (\<forall>b. pws_best st = Some b \<longrightarrow> b < k) \<and> pws_queue ?st = pws_queue st
        \<and> mset (concat (map peer_pending (pws_tasks ?st))) = mset (concat (map peer_pending (pws_tasks st))) + {#v#}
        \<and> pws_accepted ?st = pws_accepted st @ [(k, v)] \<and> pws_best ?st = Some k)"
  proof (cases "\<exists>i. ev = PwRun i \<and> i < length (pws_tasks st)")
    case True
    then obtain i where ev: "ev = PwRun i" "i < length (pws_tasks st)" by blast
    obtain st' t' where step: "peer_task_step E L ns name address scope state_key st (pws_tasks st ! i) (pwt_pc (pws_tasks st ! i)) = (st', t')" by fastforce
    have new: "?st = st'\<lparr>pws_tasks := (pws_tasks st)[i := t']\<rparr>" using ev step by simp
    from peer_task_step_effect[OF step] show ?thesis
    proof (elim disjE exE conjE)
      assume "mset (pws_queue st') + mset (peer_pending t') \<subseteq># mset (pws_queue st) + mset (peer_pending (pws_tasks st ! i))"
        and "pws_accepted st' = pws_accepted st" "pws_best st' = pws_best st"
      then show ?thesis using moved_values[OF ev(2)] unfolding new by simp
    next
      fix bs val
      assume pc: "pwt_pc (pws_tasks st ! i) = PwOpened bs val" and newer: "\<forall>b. pws_best st = Some b \<longrightarrow> b < (psv_version val, bs)"
        and eff: "pwt_pc t' = PwChosen val" "pws_queue st' = pws_queue st"
          "pws_accepted st' = pws_accepted st @ [((psv_version val, bs), val)]" "pws_best st' = Some (psv_version val, bs)"
      have "mset (concat (map peer_pending ((pws_tasks st)[i := t']))) = mset (concat (map peer_pending (pws_tasks st))) + {#val#}"
        using concat_map_update[OF ev(2), of peer_pending t'] pc eff(1) by (simp add: peer_pending_def)
      then show ?thesis unfolding new using eff newer by simp
    qed
  next
    case False
    then show ?thesis by (cases ev) auto
  qed
qed

section \<open>Authenticity\<close>

text \<open>Bytes opened to a value at some moment of the run, for a sender that was trusted at that moment.\<close>

definition opened_at ::
  "'z envelope_env_scheme \<Rightarrow> 'c lru \<Rightarrow> ('w, 'st) peer_namespace \<Rightarrow> string \<Rightarrow> peer_address \<Rightarrow> peer_slot_scope \<Rightarrow>
    peer_slot_scope_key \<Rightarrow> ('w, 'st, 'c) peer_watch_state \<Rightarrow> 'w peer_watch_event list \<Rightarrow> bytes \<Rightarrow> peer_slot_value \<Rightarrow> bool" where
  "opened_at E L ns name address scope state_key st es bs val \<longleftrightarrow>
    (\<exists>es1 es2 kind w. es = es1 @ es2 \<and> w = pws_world (foldl (peer_watch_step E L ns name address scope state_key) st es1)
      \<and> open_slot_value E ns name kind scope w bs address = Ok (Some val) \<and> trusts E w (psv_sender val) (psv_signed_by val))"

lemma opened_at_snoc: "opened_at E L ns name address scope state_key st es bs val \<Longrightarrow> opened_at E L ns name address scope state_key st (es @ [e]) bs val"
  unfolding opened_at_def by (metis append.assoc)

definition peer_watch_inv ::
  "'z envelope_env_scheme \<Rightarrow> 'c lru \<Rightarrow> ('w, 'st) peer_namespace \<Rightarrow> string \<Rightarrow> peer_address \<Rightarrow> peer_slot_scope \<Rightarrow>
    peer_slot_scope_key \<Rightarrow> ('w, 'st, 'c) peer_watch_state \<Rightarrow> 'w peer_watch_event list \<Rightarrow> ('w, 'st, 'c) peer_watch_state \<Rightarrow> bool" where
  "peer_watch_inv E L ns name address scope state_key st0 es st \<longleftrightarrow>
    world_wf E (pws_world st)
    \<and> (\<forall>t bs val. t \<in> set (pws_tasks st) \<longrightarrow> pwt_pc t = PwOpened bs val \<longrightarrow> opened_at E L ns name address scope state_key st0 es bs val)
    \<and> (\<forall>version bs val. ((version, bs), val) \<in> set (pws_accepted st) \<longrightarrow>
        psv_version val = version \<and> opened_at E L ns name address scope state_key st0 es bs val)"

lemma peer_task_step_opened:
  assumes "peer_task_step E L ns name address scope state_key st t (pwt_pc t) = (st', t')" "pwt_pc t' = PwOpened bs val"
  shows "open_slot_value E ns name (pwt_kind t) scope (pws_world st) bs address = Ok (Some val)"
proof (cases "pwt_pc t")
  case (PwHolding bs')
  then show ?thesis using assms
    by (auto simp: Let_def simp del: open_slot_value.simps split: prod.splits res.splits option.splits if_splits)
qed (use assms in \<open>auto split: list.splits res.splits prod.splits if_splits\<close>)

lemma peer_task_step_world:
  assumes "peer_task_step E L ns name address scope state_key st t pc = (st', t')" "world_wf E (pws_world st)"
  shows "world_wf E (pws_world st')"
proof (cases pc)
  case (PwHolding bs)
  then show ?thesis using assms
    by (auto simp: Let_def simp del: open_slot_value.simps split: prod.splits res.splits option.splits if_splits)
next
  case (PwChosen val)
  obtain store r where "ss_record_seen_slot_version (pn_state ns) (pw_store (pws_world st)) (peer_slot_state_key name state_key) (psv_version val) = (store, r)" by fastforce
  then show ?thesis using assms PwChosen by (auto intro: world_wf_cong)
qed (use assms in \<open>auto split: list.splits res.splits prod.splits if_splits\<close>)

lemma peer_watch_inv_step:
  assumes "peer_watch_inv E L ns name address scope state_key st0 es st" "st = foldl (peer_watch_step E L ns name address scope state_key) st0 es"
  shows "peer_watch_inv E L ns name address scope state_key st0 (es @ [e]) (peer_watch_step E L ns name address scope state_key st e)"
proof (cases "\<exists>i. e = PwRun i \<and> i < length (pws_tasks st)")
  case True
  let ?opened = "opened_at E L ns name address scope state_key st0"
  from True obtain i where e: "e = PwRun i" "i < length (pws_tasks st)" by blast
  let ?t = "pws_tasks st ! i"
  obtain st' t' where step: "peer_task_step E L ns name address scope state_key st ?t (pwt_pc ?t) = (st', t')" by fastforce
  have new: "peer_watch_step E L ns name address scope state_key st e = st'\<lparr>pws_tasks := (pws_tasks st)[i := t']\<rparr>" using e step by simp
  have wf: "world_wf E (pws_world st)" using assms(1) by (simp add: peer_watch_inv_def)
  have old: "?opened (es @ [e]) bs val" if "t \<in> set (pws_tasks st)" "pwt_pc t = PwOpened bs val" for t bs val
    using that assms(1) opened_at_snoc unfolding peer_watch_inv_def by blast
  have fresh: "?opened (es @ [e]) bs val" if "pwt_pc t' = PwOpened bs val" for bs val
    using peer_task_step_opened[OF step that] open_slot_value_authentic[OF wf] assms(2) unfolding opened_at_def by blast
  have tasks: "?opened (es @ [e]) bs val" if "t \<in> set ((pws_tasks st)[i := t'])" "pwt_pc t = PwOpened bs val" for t bs val
    using subsetD[OF set_update_subset_insert that(1)] that(2) old fresh by auto
  have "psv_version val = version \<and> ?opened (es @ [e]) bs val" if a: "((version, bs), val) \<in> set (pws_accepted st')" for version bs val
  proof (cases "((version, bs), val) \<in> set (pws_accepted st)")
    case True
    then show ?thesis using assms(1) opened_at_snoc unfolding peer_watch_inv_def by blast
  next
    case False
    with peer_task_step_effect[OF step] a have "pwt_pc ?t = PwOpened bs val" "psv_version val = version" by auto
    then show ?thesis using old[OF nth_mem[OF e(2)]] by blast
  qed
  with tasks peer_task_step_world[OF step wf] show ?thesis by (auto simp: new peer_watch_inv_def)
next
  case False
  let ?st = "peer_watch_step E L ns name address scope state_key st e"
  have "world_wf E (pws_world st)" using assms(1) by (simp add: peer_watch_inv_def)
  then have "pws_tasks ?st = pws_tasks st" "pws_accepted ?st = pws_accepted st" "world_wf E (pws_world ?st)"
    using False by (cases e; simp add: world_wf_step world_wf_net)+
  then show ?thesis using assms(1) opened_at_snoc unfolding peer_watch_inv_def by metis
qed

lemma peer_watch_inv_run:
  assumes "peer_watch_inv E L ns name address scope state_key st [] st"
  shows "peer_watch_inv E L ns name address scope state_key st es (foldl (peer_watch_step E L ns name address scope state_key) st es)"
proof (induction es rule: rev_induct)
  case (snoc e es)
  from peer_watch_inv_step[OF snoc refl, of e] show ?case by simp
qed (use assms in simp)

lemma watch_address_start:
  assumes "watch_address S L ns name address state_key watch w = Ok st"
  shows "pws_accepted st = []" "pws_best st = None" "pws_queue st = []" "pws_world st = w" "\<forall>t \<in> set (pws_tasks st). pwt_pc t = PwWaiting"
  using assms by (auto simp: watch_address_def res_simps Let_def)

section \<open>Properties\<close>


lemma bob_slot_opens:
  "\<exists>bs val. open_slot_value plain_envelope_env (bob_namespace []) ''a'' Http PairwiseScope (bob_world [alice]) bs (PairwiseAddr p) = Ok (Some val)
    \<and> psv_payload val = [9] \<and> psv_version val = 3"
proof -
  let ?E = plain_envelope_env
  obtain body where body: "encode_peer_slot_payload ?E 3 [9] = Ok body" "length body < 100"
    by (simp add: encode_peer_slot_payload_def plain_envelope_env_def peer_env.defs fields_enc_def length_concat sum_list_replicate)
  have "\<exists>bs. bind_res (peer_seal ?E fixed_rng alice Slot ''a'' body [identity_card ?E bob]) (peer_to_bytes ?E) = Ok bs
      \<and> peer_open_bytes ?E bs bob Slot ''a'' (trusted_snapshot (bob_world [alice]))
      = Ok \<lparr> pem_sender = identity_peer_id ?E alice, pem_signed_by = ed_public ?E (id_signing alice), pem_payload = body \<rparr>"
    by (rule sealed_note_opens[where t = "trusted_new (identity_card ?E alice)"])
      (use body(2) in \<open>auto simp: alice_bob_setup bob_world_def trusted_snapshot_def\<close>)
  then obtain bs where bs: "peer_open_bytes ?E bs bob Slot ''a'' (trusted_snapshot (bob_world [alice]))
      = Ok \<lparr> pem_sender = identity_peer_id ?E alice, pem_signed_by = ed_public ?E (id_signing alice), pem_payload = body \<rparr>" by blast
  have "open_slot_value ?E (bob_namespace []) ''a'' Http PairwiseScope (bob_world [alice]) bs (PairwiseAddr p)
      = Ok (Some \<lparr> psv_version = 3, psv_sender = identity_peer_id ?E alice, psv_signed_by = ed_public ?E (id_signing alice),
          psv_payload = [9], psv_via = Http, psv_scope = PairwiseScope, psv_key_id = None \<rparr>)"
    using decode_encode_peer_slot_payload[OF _ body(1)] by (simp add: bob_namespace_def peer_open_bytes_or_drop_def bs)
  then show ?thesis by (intro exI conjI, assumption) simp_all
qed

definition bob_watch :: "bytes \<Rightarrow> (unit, inner, nat \<times> bytes list) peer_watch_state" where
  "bob_watch bs =
    \<lparr> pws_tasks = [\<lparr> pwt_kind = Http, pwt_stream = [Ok (0, bs)], pwt_pc = PwWaiting \<rparr>], pws_best = None,
      pws_dedup = dedup_new list_lru DEFAULT_CAPACITY, pws_world = bob_world [alice], pws_queue = [], pws_receiver = True, pws_accepted = [] \<rparr>"

lemma bob_watch_starts: "watch_pairwise plain_envelope_env list_lru (bob_namespace []) ''a'' (\<lambda>_ _ _. [Ok (0, bs)]) (bob_world [alice]) = Ok (bob_watch bs)"
  by (simp add: watch_pairwise_def watch_address_def bob_watch_def peer_tasks_def bob_namespace_def memory_store_def bob_world_def
      inner_last_seen_slot_version_def inner_default_def peer_transport_id_def peer_address_id_def hkdf_sha256_def)


end
