(* ===== verification/Facade.thy ===== *)
theory Facade
  imports SlotWatch PeerNamespace Testkit
begin

text \<open>
  The shared-seed namespace an application sees: \<open>crates/enlace/src/namespace.rs\<close>, \<open>mailbox.rs\<close> and
  \<open>slot.rs\<close>. Opening checks the seed and the configuration, starts the transports and builds the
  coordinator; a mailbox carries its name and its dedup buffer, a slot its name.
\<close>

section \<open>Opening\<close>

record ('w, 'st) namespace_inner =
  ni_coordinator :: "('w, 'st) coordinator"
  ni_http :: "'w transport option"
  ni_pkarr :: "'w transport option"
  ni_iroh :: "'w transport option"

definition validate_seed :: "bytes \<Rightarrow> (open_error, unit) res" where
  "validate_seed seed = (if list_all (\<lambda>b. b = 0) seed then Err InvalidSeed else Ok ())"

definition validate_config :: "'w config \<Rightarrow> (open_error, unit) res" where
  "validate_config config = (if transport_count config = 0 then Err NoTransport else Ok ())"

definition open_iroh_transport ::
  "('w, 'st) transport_builders \<Rightarrow> 'w config \<Rightarrow> 'w \<Rightarrow> 'st \<Rightarrow> 'w \<times> 'st \<times> (open_error, 'w configured_transport list) res" where
  "open_iroh_transport B config n st =
    (case cfg_iroh config of
       None \<Rightarrow> (n, st, Ok [])
     | Some iroh_config \<Rightarrow>
         (case tb_iroh B iroh_config None n st of
            (n, st, r) \<Rightarrow>
              (n, st, map_err iroh_open_error (map_ok (\<lambda>(t, _). [\<lparr> ct_kind = Iroh, ct_transport = t \<rparr>]) r))))"

definition handle_of :: "'w configured_transport list \<Rightarrow> 'w transport option" where
  "handle_of ts = (case ts of [] \<Rightarrow> None | t # _ \<Rightarrow> Some (ct_transport t))"

text \<open>The transports in the order the code starts them; the first failure ends the call.\<close>

definition namespace_open ::
  "('w, 'st) transport_builders \<Rightarrow> 'st state_store \<Rightarrow> bytes \<Rightarrow> 'w config \<Rightarrow> 'w \<Rightarrow> 'st \<Rightarrow>
    ('w, 'st) world \<times> (open_error, ('w, 'st) namespace_inner) res" where
  "namespace_open B store seed config n st =
    (let world = (\<lambda>n st. \<lparr> w_net = n, w_store = st, w_health = health_from_config config \<rparr>) in
     case bind_res (validate_seed seed) (\<lambda>_. validate_config config) of
       Err e \<Rightarrow> (world n st, Err e)
     | Panic \<Rightarrow> (world n st, Panic)
     | Ok _ \<Rightarrow>
         (case open_builtin Http (tb_http B) (cfg_http config) n of
            (n, Err e) \<Rightarrow> (world n st, Err e)
          | (n, Panic) \<Rightarrow> (world n st, Panic)
          | (n, Ok http) \<Rightarrow>
              (case open_builtin Pkarr (tb_pkarr B seed) (cfg_pkarr config) n of
                 (n, Err e) \<Rightarrow> (world n st, Err e)
               | (n, Panic) \<Rightarrow> (world n st, Panic)
               | (n, Ok pkarr) \<Rightarrow>
                   (case open_iroh_transport B config n st of
                      (n, st, r) \<Rightarrow>
                        (world n st,
                         map_ok (\<lambda>iroh.
                           \<lparr> ni_coordinator = coordinator_new seed (http @ pkarr @ iroh @ cfg_transports config) config store,
                             ni_http = handle_of http, ni_pkarr = handle_of pkarr, ni_iroh = handle_of iroh \<rparr>) r)))))"

definition namespace_health :: "instant \<Rightarrow> ('w, 'st) world \<Rightarrow> transport_health list" where
  "namespace_health now w = health_snapshot now (w_health w)"

section \<open>Mailboxes\<close>

record ('w, 'st, 'c) mailbox =
  mb_inner :: "('w, 'st) namespace_inner"
  mb_name :: string
  mb_dedup :: "'c dedup"

definition mailbox_new :: "'c lru \<Rightarrow> ('w, 'st) namespace_inner \<Rightarrow> string \<Rightarrow> (name_error, ('w, 'st, 'c) mailbox) res" where
  "mailbox_new L inn name =
    map_ok (\<lambda>_. \<lparr> mb_inner = inn, mb_name = name, mb_dedup = dedup_new L (co_dedup_buffer (ni_coordinator inn)) \<rparr>)
      (validate_name name)"

definition mb_send ::
  "'z coord_env_scheme \<Rightarrow> ('w, 'st, 'c) mailbox \<Rightarrow> 'w schedule \<Rightarrow> bytes \<Rightarrow> bytes \<Rightarrow> ('w, 'st) world \<Rightarrow>
    ('w, 'st) world \<times> (send_error, send_report) res" where
  "mb_send S mb sched nonce payload w = mailbox_send S (ni_coordinator (mb_inner mb)) sched nonce (mb_name mb) payload w"

definition mb_recv ::
  "'z coord_env_scheme \<Rightarrow> 'c lru \<Rightarrow> ('w, 'st, 'c) mailbox \<Rightarrow> ('w schedule \<times> ('w \<Rightarrow> 'w)) list \<Rightarrow> ('w, 'st) world \<Rightarrow>
    ('w, 'st) world \<times> ('w, 'st, 'c) mailbox \<times> (recv_error, recv_message) res option" where
  "mb_recv S L mb rounds w =
    (case mailbox_recv S L (ni_coordinator (mb_inner mb)) (mb_name mb) (from_secs (unat DEFAULT_LONG_POLL_SECS)) rounds w (mb_dedup mb) of
       (w, d, r) \<Rightarrow> (w, mb\<lparr>mb_dedup := d\<rparr>, r))"

definition mb_subscribe ::
  "'z suite_scheme \<Rightarrow> ('w, 'st, 'c) mailbox \<Rightarrow> 'w schedule \<Rightarrow> ('w, 'st) world \<Rightarrow> ('w, 'st) world \<times> (recv_error, unit) res" where
  "mb_subscribe S mb sched w = mailbox_subscribe S (ni_coordinator (mb_inner mb)) sched (mb_name mb) w"

definition mb_try_recv :: "('w, 'st, 'c) mailbox \<Rightarrow> (recv_error, recv_message option) res" where
  "mb_try_recv mb = Ok None"

section \<open>Slots\<close>

record ('w, 'st) slot =
  sl_inner :: "('w, 'st) namespace_inner"
  sl_name :: string

definition slot_new :: "('w, 'st) namespace_inner \<Rightarrow> string \<Rightarrow> (name_error, ('w, 'st) slot) res" where
  "slot_new inn name = map_ok (\<lambda>_. \<lparr> sl_inner = inn, sl_name = name \<rparr>) (validate_name name)"

definition sl_put ::
  "'z coord_env_scheme \<Rightarrow> ('w, 'st) slot \<Rightarrow> 'w schedule \<Rightarrow> bytes \<Rightarrow> bytes \<Rightarrow> ('w, 'st) world \<Rightarrow>
    ('w, 'st) world \<times> (slot_error, put_report) res" where
  "sl_put S sl sched nonce payload w = slot_put S (ni_coordinator (sl_inner sl)) sched nonce (sl_name sl) payload w"

definition sl_get ::
  "'z coord_env_scheme \<Rightarrow> ('w, 'st) slot \<Rightarrow> 'w schedule \<Rightarrow> ('w, 'st) world \<Rightarrow>
    ('w, 'st) world \<times> (slot_error, slot_value option) res" where
  "sl_get S sl sched w = slot_get S (ni_coordinator (sl_inner sl)) sched (sl_name sl) w"

definition sl_watch ::
  "'z suite_scheme \<Rightarrow> 'c lru \<Rightarrow> ('w, 'st) slot \<Rightarrow>
    ('w configured_transport \<Rightarrow> bytes \<Rightarrow> u64 \<Rightarrow> (transport_error, u64 \<times> bytes) res list) \<Rightarrow> ('w, 'st) world \<Rightarrow>
    ('c, 'st) watch_state" where
  "sl_watch S L sl watch w = slot_watch S L (ni_coordinator (sl_inner sl)) (sl_name sl) watch (w_store w) (w_health w)"

text \<open>A receive on a watch: the next value, or \<open>Closed\<close> when no task is left to send one; \<open>None\<close> while it waits.\<close>

definition slot_watch_recv :: "('c, 'st) watch_state \<Rightarrow> ('c, 'st) watch_state \<times> (recv_error, slot_value) res option" where
  "slot_watch_recv st =
    (case ws_queue st of
       val # queue \<Rightarrow> (st\<lparr>ws_queue := queue\<rparr>, Some (Ok val))
     | [] \<Rightarrow> (st, if list_all (\<lambda>t. wt_pc t = Stopped) (ws_tasks st) then Some (Err Closed) else None))"

section \<open>What an opened namespace holds\<close>

lemma open_builtin_Ok:
  "open_builtin kind build config n = (n', Ok ts) \<Longrightarrow> map ct_kind ts = (if config = None then [] else [kind])"
  by (auto simp: open_builtin_def res_simps split: option.splits prod.splits)

lemma open_iroh_Ok:
  "open_iroh_transport B config n st = (n', st', Ok ts) \<Longrightarrow> map ct_kind ts = (if cfg_iroh config = None then [] else [Iroh])"
  by (auto simp: open_iroh_transport_def res_simps split: option.splits prod.splits)

text \<open>One health entry per transport, of the same kind and in the same order; never without a transport.\<close>

lemma namespace_open_Ok:
  assumes "namespace_open B store seed config n st = (w, Ok ns)"
  shows "map (h_kind \<circ> tt_health) (w_health w) = map ct_kind (co_transports (ni_coordinator ns))"
    and "co_transports (ni_coordinator ns) \<noteq> []" "\<exists>b \<in> set seed. b \<noteq> 0" "co_seed (ni_coordinator ns) = seed"
proof -
  from assms obtain http pkarr iroh n1 n2 n3 st3 where
    v: "validate_seed seed = Ok ()" "validate_config config = Ok ()"
    and t: "open_builtin Http (tb_http B) (cfg_http config) n = (n1, Ok http)"
      "open_builtin Pkarr (tb_pkarr B seed) (cfg_pkarr config) n1 = (n2, Ok pkarr)"
      "open_iroh_transport B config n2 st = (n3, st3, Ok iroh)"
    and w: "w_health w = health_from_config config"
      "co_transports (ni_coordinator ns) = http @ pkarr @ iroh @ cfg_transports config" "co_seed (ni_coordinator ns) = seed"
    by (auto simp: namespace_open_def coordinator_new_def Let_def res_simps split: res.splits prod.splits)
  show kinds: "map (h_kind \<circ> tt_health) (w_health w) = map ct_kind (co_transports (ni_coordinator ns))"
    using open_builtin_Ok[OF t(1)] open_builtin_Ok[OF t(2)] open_iroh_Ok[OF t(3)]
    by (simp add: w health_from_config_def tracked_new_def comp_def split: option.splits)
  have "length (w_health w) \<noteq> 0" using v(2) by (simp add: w length_health_from_config validate_config_def split: if_splits)
  with kinds show "co_transports (ni_coordinator ns) \<noteq> []" by (metis length_0_conv length_map)
  show "\<exists>b \<in> set seed. b \<noteq> 0" using v(1) by (auto simp: validate_seed_def list_all_iff split: if_splits)
  show "co_seed (ni_coordinator ns) = seed" by (rule w(3))
qed

section \<open>Mail between two namespaces\<close>

text \<open>A namespace that is configured with one transport of the application's own.\<close>

definition only_transport :: "'w configured_transport \<Rightarrow> 'w config \<Rightarrow> bool" where
  "only_transport t config \<longleftrightarrow> cfg_http config = None \<and> cfg_pkarr config = None \<and> cfg_iroh config = None \<and> cfg_transports config = [t]"

lemma namespace_open_only:
  assumes "only_transport t config" "namespace_open B store seed config n st = (w, Ok ns)"
  shows "ni_coordinator ns = coordinator_new seed [t] config store" "w_net w = n"
  using assms
  by (auto simp: only_transport_def namespace_open_def open_builtin_def open_iroh_transport_def Let_def res_simps split: res.splits)

lemma fair_single: "fair sched \<Longrightarrow> \<exists>ck. sched [t] = [(t, ck)]"
proof -
  assume "fair sched"
  then have "mset (map fst (sched [t])) = {#t#}" unfolding fair_def by (metis mset_single_iff_right mset.simps)
  then have "map fst (sched [t]) = [t]" by (simp only: mset_single_iff)
  then show ?thesis by auto
qed

lemma tasks_for_single:
  "co_transports co = [ep] \<Longrightarrow> transport_channel_id S (co_seed co) (ct_kind ep) kind name = Ok cid \<Longrightarrow>
    tasks_for S co kind name = Ok [(ep, cid)]"
  by (simp add: tasks_for_def)

lemma in_memory_calls:
  "t_send in_memory_transport = memory_send" "t_recv in_memory_transport = (\<lambda>st cid wait. memory_recv cid wait [] st)"
  by (simp_all add: in_memory_transport_def)

lemma mailbox_send_memory:
  assumes "co_transports co = [\<lparr> ct_kind = kind, ct_transport = in_memory_transport \<rparr>]"
    and "transport_channel_id S (co_seed co) kind Mailbox name = Ok cid" "fair sched"
    and "co_seal S co nonce Mailbox name payload None = Ok sealed" "memory_queue (w_net w) cid = []"
  shows "\<exists>w'. mailbox_send S co sched nonce name payload w = (w', Ok \<lparr> sr_delivered = [kind], sr_failed = [] \<rparr>)
    \<and> memory_queue (w_net w') cid = [sealed]"
proof -
  let ?ep = "\<lparr> ct_kind = kind, ct_transport = in_memory_transport \<rparr>"
  obtain ck where ck: "sched [(?ep, cid)] = [((?ep, cid), ck)]" using fair_single[OF assms(3)] by blast
  obtain n where n: "memory_send (w_net w) cid sealed = (n, Ok ())" "memory_queue n cid = [sealed]"
    using assms(5) by (auto simp: memory_send_def memory_queue_def)
  have t: "tasks_for S co Mailbox name = Ok [(?ep, cid)]" by (rule tasks_for_single) (use assms(1,2) in simp_all)
  show ?thesis unfolding mailbox_send_def t assms(4) using n by (simp add: ck in_memory_calls)
qed

lemma mailbox_recv_memory:
  assumes "co_transports co = [\<lparr> ct_kind = kind, ct_transport = in_memory_transport \<rparr>]"
    and "transport_channel_id S (co_seed co) kind Mailbox name = Ok cid" "fair sched" "lru_ok L keys"
    and "co_open S co Mailbox name sealed = Ok opened" "oe_version opened = None" "memory_queue (w_net w) cid = sealed # queue"
  shows "\<exists>w' d. mailbox_recv S L co name wait [(sched, \<lambda>n. n)] w (dedup_new L capacity)
    = (w', d, Some (Ok \<lparr> rm_payload = oe_payload opened, rm_via = kind, rm_signed_by = oe_signed_by opened \<rparr>))"
proof -
  let ?ep = "\<lparr> ct_kind = kind, ct_transport = in_memory_transport \<rparr>"
  obtain ck where ck: "sched [(?ep, cid)] = [((?ep, cid), ck)]" using fair_single[OF assms(3)] by blast
  obtain n where n: "memory_recv cid wait [] (w_net w) = (n, Ok (Some sealed))"
    using assms(7) by (auto simp: memory_recv.simps memory_queue_def split: option.splits)
  obtain d where d: "observe S L (dedup_new L capacity) sealed = (d, False)" using first_observed[OF assms(4)] by blast
  have t: "tasks_for S co Mailbox name = Ok [(?ep, cid)]" by (rule tasks_for_single) (use assms(1,2) in simp_all)
  show ?thesis using n d assms(5,6) by (simp add: t ck in_memory_calls)
qed


definition shared_config :: "transport_state config" where
  "shared_config = config_default\<lparr> cfg_signing := Some sample_key, cfg_trusted := [sample_key],
    cfg_transports := [\<lparr> ct_kind = Http, ct_transport = in_memory_transport \<rparr>] \<rparr>"

definition shared_namespace :: "(transport_state, inner) namespace_inner" where
  "shared_namespace = \<lparr> ni_coordinator = coordinator_new (replicate 32 1) (cfg_transports shared_config) shared_config memory_store,
    ni_http = None, ni_pkarr = None, ni_iroh = None \<rparr>"

definition shared_mailbox :: "(transport_state, inner, nat \<times> bytes list) mailbox" where
  "shared_mailbox = \<lparr> mb_inner = shared_namespace, mb_name = ''a'', mb_dedup = dedup_new list_lru DEFAULT_CAPACITY \<rparr>"

definition shared_world :: "(transport_state, inner) world" where
  "shared_world = \<lparr> w_net = memory_transport_new, w_store = inner_default, w_health = health_from_config shared_config \<rparr>"

lemma shared_namespace_opens:
  "namespace_open no_builders memory_store (replicate 32 1) shared_config memory_transport_new inner_default
    = (shared_world, Ok shared_namespace)"
  by (simp add: namespace_open_def validate_seed_def validate_config_def transport_count_def open_builtin_def open_iroh_transport_def
      shared_config_def config_default_def shared_world_def shared_namespace_def handle_of_def list_all_iff)


end
