(* ===== verification/Spec2Isabelle.thy ===== *)
theory Spec2Isabelle
  imports Health SlotWatch PeerEnvelope Http Testkit Iroh PeerNamespace Pkarr Guard Agent AgentServer AgentProps PeerWatch Facade
begin

text \<open>
  Verification of enlace, a library for end-to-end encrypted mailboxes and versioned slots over
  several transports at once, with its relay server, its local agent and its test kit.

  \<^bold>\<open>The parts.\<close> An application opens a namespace, either from a seed that all members share or from an
  identity of its own and a list of trusted peers. A channel has a kind (mailbox or slot) and a name.
  Sending seals the payload and hands the bytes to every configured transport; receiving asks all
  transports, drops duplicates, opens what arrives and drops what does not open. A transport is an HTTP
  relay, a Pkarr record, an Iroh gossip topic or one supplied by the application. The agent is a daemon
  that offers a peer namespace to local programs as text requests on a socket.

  \<^bold>\<open>How code becomes definitions.\<close> One definition per function, with its name where it is free. A
  \<open>Result\<close> is \<open>res\<close> with \<open>Ok\<close>, \<open>Err\<close> and \<open>Panic\<close>. Machine integers are words. A hash map is an
  association list (\<open>hm_get\<close>, \<open>hm_insert\<close>, \<open>hm_remove\<close>). Stateful code takes the state and returns it:
  \<open>world\<close> and \<open>peer_world\<close> hold the network, the state store and the tables of a namespace. A transport
  is a record of calls on an unknown network type. Concurrent futures are a list of tasks that a schedule
  puts into the order in which they complete; \<open>fair\<close> and \<open>peer_fair\<close> say that it only reorders them. A
  wait is a list of rounds or wake-ups, each with what other parties did meanwhile. Third-party code is a
  record of functions (\<open>suite\<close> for cryptography, extended by the codecs and the agent's JSON), and what is
  assumed of it is named: \<open>hkdf_ok\<close>, \<open>aead_ok\<close>, \<open>ed_ok\<close>, \<open>dh_ok\<close>, \<open>lru_ok\<close>, \<open>envelope_codec_ok\<close>,
  \<open>pkarr_codec_ok\<close>. Each has an instance that satisfies it, which the witnesses use. Nonces, clocks and
  random bytes are arguments.

  \<^bold>\<open>Foundations.\<close> \<open>Prelude\<close>: words, \<open>res\<close>, association lists, clocks. \<open>Wire\<close>: integer fields and hexadecimal
  text with their round trips, and the locale of a self-delimiting field. \<open>Crypto\<close> (\<open>crypto.rs\<close>), \<open>Kdf\<close>
  (\<open>kdf.rs\<close>), \<open>Errors\<close> (\<open>error.rs\<close>), \<open>Config\<close> (\<open>config.rs\<close>), \<open>Dedup\<close> (\<open>dedup.rs\<close>; the buffer is exactly a
  window over the last distinct digests), \<open>Health\<close> (the tracker of \<open>transports.rs\<close>; its counters give the
  state that the history of outcomes prescribes), \<open>State\<close> (\<open>state.rs\<close>; both stores, versions never issued
  twice, also after a restart, flushing on a disk that may fail).

  \<^bold>\<open>Shared-seed namespaces.\<close> \<open>Coordinator\<close> (\<open>coordinator.rs\<close>): sealing and opening are inverse,
  received messages carry a trusted signature, reads of a slot do not depend on the order of answers.
  \<open>SlotWatch\<close>: the watch as an interleaving of tasks. \<open>Facade\<close> (\<open>namespace.rs\<close>, \<open>mailbox.rs\<close>, \<open>slot.rs\<close>):
  opening, and mail between two namespaces opened from one seed.

  \<^bold>\<open>Peer namespaces.\<close> All from \<open>peer.rs\<close>. \<open>PeerCard\<close>: cards, identities and their text form. \<open>PeerEnvelope\<close>:
  pairwise and group envelopes, their round trips, and that the signed bytes determine the envelope.
  \<open>PeerNamespace\<close>: opening, trust and group keys, mailboxes and slots; well-formedness over all operation
  sequences, authenticity of mail, silence of revoked peers. \<open>PeerWatch\<close>: watches of peer slots.

  \<^bold>\<open>Transports and relay.\<close> \<open>Contracts\<close> states what a client of a mailbox or slot store relies on as
  locales; \<open>Relay\<close> (\<open>enlace-relay\<close>), \<open>Testkit\<close> (\<open>enlace-testkit\<close>) and \<open>Iroh\<close> interpret them on their own
  tables. \<open>Relay\<close> also shows bounded tables, long polls that deliver, and slots that survive a restart.
  \<open>Http\<close> (\<open>transports/http.rs\<close>) composes the client with the relay's routes, end to end. \<open>Iroh\<close>
  (\<open>transports/iroh.rs\<close>): convergence of replicas, conservation of broadcasts, the connection hook.
  \<open>Pkarr\<close> (\<open>transports/pkarr.rs\<close> and the parts of \<open>vendor/pkarr\<close> it rests on): a put is read back.
  \<open>Guard\<close> (\<open>guard.rs\<close>): names and hosts. \<open>WatchMachine\<close> is the locale of what both watches do; it is
  interpreted on \<open>SlotWatch\<close> and \<open>PeerWatch\<close>.

  \<^bold>\<open>The agent.\<close> All from \<open>enlace-agent/src/lib.rs\<close>. \<open>Agent\<close>: command line, configuration file, identity,
  transports. \<open>AgentServer\<close>: requests, sessions and subscriptions, and \<open>agent_step\<close>, one turn of one task
  of the daemon. \<open>AgentProps\<close>: over every run, sessions on the network carry the token, delivered messages
  are authentic, the tables stay well-formed; two agents can pair; and what a restart or a closed session
  loses. This theory composes sender, transport and receiver for peers and for agents.

  \<^bold>\<open>Bounds and fuel.\<close> No definition carries fuel of its own: every loop recurses over a list it consumes,
  either data of the code or the rounds, wake-ups and items that an environment supplies. \<open>None\<close> as the
  result of a receive means that the supplied rounds do not end the call, and the end-to-end theorems
  exhibit rounds that do. Retries keep the code's constants (\<open>MAX_PUBLISH_ATTEMPTS\<close>). Capacities of channels
  only delay a task, so they are not state of the model, except where the code drops at capacity (relay
  queues, the dedup buffer, the Iroh buffers).

  \<^bold>\<open>Not modelled.\<close> \<open>runtime.rs\<close> and \<open>tls.rs\<close> (single calls into libraries), \<open>fuzzing.rs\<close> (calls of modelled
  operations), the socket listeners, signals, logging and file permissions of the agent and the relay, and
  the encodings done by third-party crates (MessagePack, JSON, DNS messages, base64, URLs). Of \<open>vendor/pkarr\<close>
  only signed packets and the client calls the transport makes. The TypeScript packages \<open>iroh-lite\<close> and
  \<open>pkarr-lite\<close>, their native harnesses and the chat example are separate programs that reimplement third-party
  protocols. Memory-erasing wrappers and \<open>Debug\<close> output have no effect on results.
\<close>

section \<open>A fan-out over the in-memory transport\<close>

lemma memory_send_queue:
  "memory_send st cid b = (st', r) \<Longrightarrow> r = Ok () \<and> memory_queue st' c = memory_queue st c @ (if c = cid then [b] else [])"
  by (auto simp: memory_send_def memory_queue_def Let_def split: option.split)

lemma run_memory_send:
  assumes "\<forall>t \<in> set ts. ct_transport (fst (fst t)) = in_memory_transport"
  shows "\<exists>n'. run_peer_tasks (\<lambda>t n cid. t_send t n cid bs) ts n = (n', map (\<lambda>t. (ct_kind (fst (fst t)), Ok ())) ts)
    \<and> memory_queue n' cid = memory_queue n cid @ replicate (length (filter (\<lambda>t. snd (fst t) = cid) ts)) bs"
  using assms
proof (induction ts arbitrary: n)
  case (Cons t ts)
  obtain ep c a where t: "t = ((ep, c), a)" by (metis surj_pair)
  obtain n1 r where s: "memory_send n c bs = (n1, r)" by fastforce
  from Cons.IH[of n1] Cons.prems obtain n' where
    "run_peer_tasks (\<lambda>t n cid. t_send t n cid bs) ts n1 = (n', map (\<lambda>t. (ct_kind (fst (fst t)), Ok ())) ts)"
    "memory_queue n' cid = memory_queue n1 cid @ replicate (length (filter (\<lambda>t. snd (fst t) = cid) ts)) bs" by auto
  with memory_send_queue[OF s, of cid] s Cons.prems show ?case by (simp add: t in_memory_transport_def)
qed simp

lemma collect_all_ok:
  "collect_peer_results (map (\<lambda>t. (f t, Ok ())) ts) delivered failed = Ok (delivered @ map f ts, failed)"
  by (induction ts arbitrary: delivered) simp_all

lemma peer_fair_perm: "peer_fair sched \<Longrightarrow> set (sched ts) = set ts" "peer_fair sched \<Longrightarrow> length (sched ts) = length ts"
  by (metis mset_eq_setD peer_fair_def, metis mset_eq_length peer_fair_def)

text \<open>The channel of an address on a transport.\<close>

definition peer_channel :: "'z suite_scheme \<Rightarrow> transport_kind \<Rightarrow> peer_address \<Rightarrow> channel_kind \<Rightarrow> string \<Rightarrow> bytes" where
  "peer_channel S transport address kind name =
    take (if transport \<in> {Iroh, Dht, Pkarr} then 32 else CHANNEL_ID_LEN)
      (hkdf_expand S None (snd (peer_address_domain address)) (peer_address_info address kind name) 32)"

lemma peer_transport_id_channel:
  "hkdf_ok S \<Longrightarrow> peer_transport_id S transport address kind name = Ok (peer_channel S transport address kind name)"
  by (simp add: peer_transport_id_def peer_address_id_def hkdf_sha256_def peer_channel_def hkdf_ok_def)

lemma peer_tasks_total:
  "hkdf_ok S \<Longrightarrow> peer_tasks S ns addresses kind name =
    Ok (map (\<lambda>(ep, a). ((ep, peer_channel S (ct_kind ep) a kind name), a)) (List.product (pn_transports ns) addresses))"
  unfolding peer_tasks_def by (rule traverse_total) (simp add: peer_transport_id_channel case_prod_beta)

text \<open>What is sent over the in-memory transport waits at every address it was sent to.\<close>

lemma send_bytes_memory:
  assumes "hkdf_ok S" "pn_transports ns = [\<lparr> ct_kind = kind, ct_transport = in_memory_transport \<rparr>]" "peer_fair sched" "addresses \<noteq> []"
    and "address \<in> set addresses" "memory_queue (pw_net w) (peer_channel S kind address Mailbox name) = []"
  shows "\<exists>n k. send_bytes S ns sched name addresses bs w
      = (w\<lparr>pw_net := n\<rparr>, Ok \<lparr> psr_delivered = replicate (length addresses) kind, psr_failed = [] \<rparr>)
    \<and> memory_queue n (peer_channel S kind address Mailbox name) = bs # replicate k bs"
proof -
  let ?ep = "\<lparr> ct_kind = kind, ct_transport = in_memory_transport \<rparr>"
  let ?ts = "map (\<lambda>a. ((?ep, peer_channel S kind a Mailbox name), a)) addresses"
  let ?cid = "peer_channel S kind address Mailbox name"
  have tasks: "peer_tasks S ns addresses Mailbox name = (Ok ?ts :: (peer_send_error, _) res)"
    using peer_tasks_total[OF assms(1), of ns addresses Mailbox name] assms(2) by (simp add: comp_def)
  have sched: "set (sched ?ts) = set ?ts" "length (sched ?ts) = length ?ts"
    using peer_fair_perm[OF assms(3)] by blast+
  have "\<forall>t \<in> set (sched ?ts). fst (fst t) = ?ep" unfolding sched by auto
  then have kinds: "map (\<lambda>t. ct_kind (fst (fst t))) (sched ?ts) = replicate (length addresses) kind"
    using sched(2) by (intro replicate_eqI) auto
  have "((?ep, ?cid), address) \<in> set (sched ?ts)" using assms(5) unfolding sched by auto
  then have "filter (\<lambda>t. snd (fst t) = ?cid) (sched ?ts) \<noteq> []" by (force simp: filter_empty_conv)
  then obtain k where k: "length (filter (\<lambda>t. snd (fst t) = ?cid) (sched ?ts)) = Suc k" by (cases "filter (\<lambda>t. snd (fst t) = ?cid) (sched ?ts)") auto
  obtain n where n: "run_peer_tasks (\<lambda>t n cid. t_send t n cid bs) (sched ?ts) (pw_net w) = (n, map (\<lambda>t. (ct_kind (fst (fst t)), Ok ())) (sched ?ts))"
    "memory_queue n ?cid = memory_queue (pw_net w) ?cid @ replicate (length (filter (\<lambda>t. snd (fst t) = ?cid) (sched ?ts))) bs"
    using run_memory_send[of "sched ?ts" bs "pw_net w" ?cid] \<open>\<forall>t \<in> set (sched ?ts). fst (fst t) = ?ep\<close> by auto
  show ?thesis
    using n k assms(4,6) tasks by (auto simp: send_bytes_def collect_all_ok kinds)
qed

lemma trusted_found:
  assumes "world_wf S w" "hm_get (pw_trusted w) p = Some t"
  shows "find (\<lambda>x. trusted_peer_id x = p) (trusted_snapshot w) = Some t"
proof -
  have "\<exists>x \<in> set (trusted_snapshot w). trusted_peer_id x = p"
    using assms trusted_snapshot_iff[OF assms(1), of t] by (auto simp: world_wf_def)
  then obtain x where x: "find (\<lambda>x. trusted_peer_id x = p) (trusted_snapshot w) = Some x"
    by (metis (mono_tags, lifting) find_None_iff not_None_eq)
  then have "x \<in> set (trusted_snapshot w)" "trusted_peer_id x = p" by (auto simp: find_Some_iff)
  with assms x show ?thesis by (auto simp: trusted_snapshot_iff)
qed

lemma peer_mail_arrives:
  assumes "hkdf_ok E" "aead_ok E" "ed_ok E" "dh_ok E" "envelope_codec_ok E" "\<And>w. peer_ser E w \<noteq> None" "lru_ok L keys"
    and "valid_name name" "\<forall>i. length (rng i) = 24" "length (id_signing (pn_identity nsA)) = 32"
    and "length payload + 16 < 2 ^ 32" "length cards < 2 ^ 32"
    and "\<forall>c \<in> set cards. card_validate E c = Ok ()" "namespace_card E nsB \<in> set cards"
    and "\<forall>c \<in> set cards. card_peer_id c = namespace_peer_id E nsB \<longrightarrow> card_exchange_key c = x_public E (id_exchange (pn_identity nsB))"
    and "world_wf E wB" "hm_get (pw_trusted wB) (namespace_peer_id E nsA) = Some t" "tp_card t = namespace_card E nsA"
    and "pn_transports nsA = [\<lparr> ct_kind = kind, ct_transport = in_memory_transport \<rparr>]" "pn_transports nsB = pn_transports nsA"
    and "pw_group_keys wB = []" "peer_fair sched" "peer_fair sched'"
    and "memory_queue (pw_net wA) (peer_channel E kind (PairwiseAddr (namespace_peer_id E nsB)) Mailbox name) = []"
  shows "\<exists>wA' wB' d. send_to_peers E rng nsA sched name cards payload wA
      = (wA', Ok \<lparr> psr_delivered = replicate (length cards) kind, psr_failed = [] \<rparr>)
    \<and> peer_recv_timeout E L nsB name wait [(sched', \<lambda>w. w)] (wB\<lparr>pw_net := pw_net wA'\<rparr>) (dedup_new L capacity)
      = (wB', d, Some (Ok \<lparr> pmm_sender = namespace_peer_id E nsA, pmm_signed_by = ed_public E (id_signing (pn_identity nsA)),
          pmm_payload = payload, pmm_via = kind, pmm_group = None, pmm_key_id = None \<rparr>))"
proof -
  let ?cid = "peer_channel E kind (PairwiseAddr (namespace_peer_id E nsB)) Mailbox name"
  have "card_validate E (tp_card t) = Ok ()" using assms(16,17) by (auto simp: world_wf_def)
  from sealed_note_opens[OF assms(1-6,8-13) _ _ trusted_found[OF assms(16) assms(17)[unfolded namespace_peer_id_def]] _ this, of "pn_identity nsB" Mailbox]
  obtain bs where bs: "bind_res (peer_seal E rng (pn_identity nsA) Mailbox name payload cards) (peer_to_bytes E) = Ok bs"
    "peer_open_bytes E bs (pn_identity nsB) Mailbox name (trusted_snapshot wB)
      = Ok \<lparr> pem_sender = namespace_peer_id E nsA, pem_signed_by = ed_public E (id_signing (pn_identity nsA)), pem_payload = payload \<rparr>"
    using assms(14,15,18) by (auto simp: namespace_card_def namespace_peer_id_def)
  have own: "PairwiseAddr (namespace_peer_id E nsB) \<in> set (map (\<lambda>c. PairwiseAddr (card_peer_id c)) cards)"
    using assms(14) by (force simp: namespace_card_def namespace_peer_id_def identity_card_def identity_peer_id_def card_new_def)
  then have "map (\<lambda>c. PairwiseAddr (card_peer_id c)) cards \<noteq> []" by auto
  from send_bytes_memory[OF assms(1,19,22) this own assms(24), of bs] obtain n k where
    n: "send_bytes E nsA sched name (map (\<lambda>c. PairwiseAddr (card_peer_id c)) cards) bs wA
      = (wA\<lparr>pw_net := n\<rparr>, Ok \<lparr> psr_delivered = replicate (length cards) kind, psr_failed = [] \<rparr>)"
    "memory_queue n ?cid = bs # replicate k bs" by auto
  obtain n' where n': "memory_recv ?cid wait [] n = (n', Ok (Some bs))"
    using n(2) by (auto simp: memory_recv.simps memory_queue_def split: option.splits)
  obtain d where d: "observe E L (dedup_new L capacity) bs = (d, False)"
    using first_observed[OF assms(7)] by blast
  let ?w = "wB\<lparr>pw_net := n\<rparr>"
  have "peer_recv_timeout E L nsB name wait [(sched', \<lambda>w. w)] ?w (dedup_new L capacity)
      = (?w\<lparr>pw_net := n'\<rparr>, d, Some (Ok \<lparr> pmm_sender = namespace_peer_id E nsA, pmm_signed_by = ed_public E (id_signing (pn_identity nsA)),
          pmm_payload = payload, pmm_via = kind, pmm_group = None, pmm_key_id = None \<rparr>))"
    using peer_recv_one[OF assms(20)[unfolded assms(19)] _ assms(23), of ?w E name ?cid wait n' bs L "dedup_new L capacity" d] bs(2) n' d assms(21)
    by (simp add: peer_transport_id_channel[OF assms(1)] in_memory_transport_def trusted_snapshot_def)
  then show ?thesis using n(1) bs(1) by (simp add: send_to_peers_def)
qed


definition memory_namespace :: "peer_identity \<Rightarrow> (transport_state, inner) peer_namespace" where
  "memory_namespace i =
    \<lparr> pn_identity = i, pn_state = memory_store, pn_transports = [\<lparr> ct_kind = Http, ct_transport = in_memory_transport \<rparr>], pn_iroh = None \<rparr>"

definition memory_world :: "(transport_state, inner) peer_world" where
  "memory_world =
    \<lparr> pw_net = memory_transport_new, pw_store = inner_default,
      pw_trusted = [(identity_peer_id plain_envelope_env alice, trusted_new (identity_card plain_envelope_env alice))],
      pw_group_keys = [] \<rparr>"

lemma memory_world_wf: "world_wf plain_envelope_env memory_world"
  by (auto simp: memory_world_def world_wf_def hm_ok_def alice_bob_setup split: if_splits)


section \<open>Mail between agents\<close>

lemma hex_valid_name:
  assumes "length p = 32"
  shows "valid_name (hex_encode p)"
proof -
  have "list_all name_byte_ok ''0123456789abcdef''" by code_simp
  then have "name_byte_ok c" if "is_lower_hex c" for c using that unfolding is_lower_hex_def list_all_iff by blast
  then have "list_all name_byte_ok (hex_encode p)" using hex_encode_lower[of p] unfolding list_all_iff by blast
  moreover have "length (hex_encode p) = 64" using assms by simp
  ultimately show ?thesis unfolding valid_name_def by (metis le_refl list.size(3) zero_neq_numeral)
qed

lemma agent_send_ok:
  assumes "hm_get (aw_sessions v) sid = Some s" "\<not> sn_unix s" "ae_request E request = Some (ReqSend i (hex_encode p) channel body)"
    and "ae_b64_decode E body = Some payload" "valid_name channel" "length p = 32"
    and "world_wf E (aw_peers v)" "hm_get (pw_trusted (aw_peers v)) p = Some t"
    and "send_to_peers E rng (ags_namespace A) sched channel [tp_card t] payload (aw_peers v) = (w, Ok report)"
    and v': "v' = agent_step E L A v (Input sid (Frame (WsText request)) rng sched True)"
  shows "aw_peers v' = w" "hm_get (aw_sessions v') sid = Some (s\<lparr>sn_sent := sn_sent s @ [OkResponse i]\<rparr>)"
proof -
  have "handle_text E L rng sched A request sid (aw_peers v) = (w, None, Ok (OkResponse i))"
    using assms(3-6,9) find_peer_trusted[OF assms(7,8,6)] hex_valid_name[OF assms(6)]
    by (simp add: handle_text_def handle_send_def payload_bytes_def invalid_name_def validate_channel_name_def report_reply_def)
  from answer_text_shape[OF this, of s True] assms(1,2) show "aw_peers v' = w"
    "hm_get (aw_sessions v') sid = Some (s\<lparr>sn_sent := sn_sent s @ [OkResponse i]\<rparr>)"
    by (simp_all add: v' is_line_def add_subscription_def)
qed


definition mail_env :: agent_env where
  "mail_env = agent_env_with
    [(''send'', ReqSend ''1'' (hex_encode (identity_peer_id plain_envelope_env bob)) ''a'' (hex_encode [9])),
     (''subscribe'', ReqSubscribe ''2'' ''a'')]"

definition mail_agent :: "peer_identity \<Rightarrow> (transport_state, inner, nat \<times> bytes list) agent_world" where
  "mail_agent peer =
    \<lparr> aw_peers = memory_world\<lparr>pw_trusted := [(identity_peer_id plain_envelope_env peer, trusted_new (identity_card plain_envelope_env peer))]\<rparr>,
      aw_sessions = [(0, \<lparr> sn_unix = False, sn_queue = [], sn_sent = [] \<rparr>)], aw_subs = [], aw_fresh = 1 \<rparr>"

lemma mail_agent_wf: "peer \<in> {alice, bob} \<Longrightarrow> world_wf mail_env (aw_peers (mail_agent peer))"
  by (auto simp: mail_agent_def mail_env_def memory_world_def world_wf_def hm_ok_def alice_bob_setup split: if_splits)


end
